(* ===== verification/Prelude.thy ===== *)
theory Prelude
  imports Main "HOL-Library.Word" "HOL-Library.Sublist"
begin

text \<open>
  Shared vocabulary of the development: bytes and JavaScript strings at their real width,
  JavaScript exceptions as values of a sum type, the fixed-width accesses of
  \<^verbatim>\<open>DataView\<close>, and the generic facts about runs of a step function and about lists
  that the component theories use.

  Conventions.  A \<^verbatim>\<open>Uint8Array\<close> is a list of \<open>8 word\<close>; a string is the list of its
  UTF-16 code units (\<open>16 word\<close>), which is what \<^verbatim>\<open>charCodeAt\<close> and \<^verbatim>\<open>length\<close> see.
  A call that may throw returns \<open>Inl e\<close> for the thrown error and \<open>Inr v\<close> for a returned
  value; a stateful call that may throw returns the pair of an optional error and the new
  state, because JavaScript keeps the writes made before the throw.
\<close>

unbundle bit_operations_syntax

section \<open>Bytes, strings, errors\<close>

type_synonym byte = "8 word"
type_synonym bytes = "byte list"
type_synonym js_char = "16 word"
type_synonym js_string = "js_char list"

text \<open>A string literal of the source, as code units.\<close>

definition js :: "string \<Rightarrow> js_string" where
  "js s = map of_char s"

lemma js_Nil [simp]: "js [] = []"
  by (simp add: js_def)

lemma js_Cons [simp]: "js (c # s) = of_char c # js s"
  by (simp add: js_def)

lemma length_js [simp]: "length (js s) = length s"
  by (simp add: js_def)

datatype js_error =
    Error (message: js_string)
  | TypeError (message: js_string)
  | RangeError (message: js_string)

type_synonym 'a result = "js_error + 'a"

definition js_bind :: "'a result \<Rightarrow> ('a \<Rightarrow> 'b result) \<Rightarrow> 'b result" where
  "js_bind r f = (case r of Inl e \<Rightarrow> Inl e | Inr x \<Rightarrow> f x)"

lemma js_bind_simps [simp]:
  "js_bind (Inl e) f = Inl e"
  "js_bind (Inr x) f = f x"
  by (simp_all add: js_bind_def)

lemma js_bind_Inr_iff:
  "js_bind r f = Inr y \<longleftrightarrow> (\<exists>x. r = Inr x \<and> f x = Inr y)"
  by (cases r) simp_all

text \<open>The rules of proof that a component collects for its own state.\<close>

named_theorems flag_simps \<open>which fields an operation leaves unchanged\<close>
named_theorems trace_simps \<open>what an operation adds to a log\<close>
named_theorems range_simps \<open>byte accesses inside their range\<close>

section \<open>DataView accesses\<close>

text \<open>
  \<^verbatim>\<open>getUint8\<close>, \<^verbatim>\<open>getUint32(_, false)\<close> and \<^verbatim>\<open>setUint32(_, _, false)\<close> of a
  \<^verbatim>\<open>DataView\<close>: big endian, and a \<^verbatim>\<open>RangeError\<close> outside the view.
\<close>

definition out_of_bounds :: js_error where
  "out_of_bounds = RangeError (js ''Offset is outside the bounds of the DataView'')"

definition be32 :: "byte \<Rightarrow> byte \<Rightarrow> byte \<Rightarrow> byte \<Rightarrow> 32 word" where
  "be32 a b c d =
     push_bit 24 (ucast a) OR push_bit 16 (ucast b) OR push_bit 8 (ucast c) OR ucast d"

definition be32_bytes :: "32 word \<Rightarrow> bytes" where
  "be32_bytes w =
     [ucast (drop_bit 24 w), ucast (drop_bit 16 w), ucast (drop_bit 8 w), ucast w]"

definition getUint8 :: "bytes \<Rightarrow> nat \<Rightarrow> byte result" where
  "getUint8 v i = (if i < length v then Inr (v ! i) else Inl out_of_bounds)"

definition getUint32 :: "bytes \<Rightarrow> nat \<Rightarrow> 32 word result" where
  "getUint32 v i =
     (if i + 4 \<le> length v
      then Inr (be32 (v ! i) (v ! (i + 1)) (v ! (i + 2)) (v ! (i + 3)))
      else Inl out_of_bounds)"

text \<open>
  Writes into a buffer of fixed size: \<^verbatim>\<open>setUint8\<close>, \<^verbatim>\<open>setUint32(_, _, false)\<close> and
  \<^verbatim>\<open>Uint8Array.set\<close>.  The source only writes inside the buffer it has just allocated.
\<close>

definition set_bytes :: "bytes \<Rightarrow> nat \<Rightarrow> bytes \<Rightarrow> bytes" where
  "set_bytes buf i bs = take i buf @ bs @ drop (i + length bs) buf"

definition setUint8 :: "bytes \<Rightarrow> nat \<Rightarrow> byte \<Rightarrow> bytes" where
  "setUint8 buf i b = set_bytes buf i [b]"

definition setUint32 :: "bytes \<Rightarrow> nat \<Rightarrow> 32 word \<Rightarrow> bytes" where
  "setUint32 buf i w = set_bytes buf i (be32_bytes w)"

definition new_buffer :: "nat \<Rightarrow> bytes" where
  "new_buffer n = replicate n 0"

lemma byte_bound: "unat (b :: byte) < 256"
proof -
  have "unat b < 2 ^ LENGTH(8)" by (rule unsigned_less)
  then show ?thesis by simp
qed

lemma be32_split:
  "be32 (ucast (drop_bit 24 w)) (ucast (drop_bit 16 w)) (ucast (drop_bit 8 w)) (ucast w) = w"
  (is "?l = w")
proof (rule bit_word_eqI)
  fix n :: nat
  assume n: "n < LENGTH(32)"
  consider "n < 8" | "8 \<le> n" "n < 16" | "16 \<le> n" "n < 24" | "24 \<le> n"
    by linarith
  then show "bit ?l n \<longleftrightarrow> bit w n"
    by cases (use n in \<open>auto simp: be32_def bit_simps\<close>)
qed

lemma be32_bytes_be32: "be32_bytes (be32 a b c d) = [a, b, c, d]"
proof -
  have "ucast (drop_bit 24 (be32 a b c d)) = a" "ucast (drop_bit 16 (be32 a b c d)) = b"
    "ucast (drop_bit 8 (be32 a b c d)) = c" "ucast (be32 a b c d) = d"
    by (rule bit_word_eqI; auto simp: be32_def bit_simps dest: bit_imp_le_length)+
  then show ?thesis by (simp add: be32_bytes_def)
qed

lemma length_be32_bytes [simp]: "length (be32_bytes w) = 4"
  by (simp add: be32_bytes_def)

lemma getUint32_be32_bytes:
  "getUint32 (x # be32_bytes w @ r) 1 = Inr w"
  by (simp add: getUint32_def be32_bytes_def be32_split)

lemma set_bytes_join:
  "k = length xs \<Longrightarrow> n = k + length ys \<Longrightarrow>
     set_bytes (set_bytes (new_buffer n) 0 xs) k ys = xs @ ys"
  by (simp add: set_bytes_def new_buffer_def)

section \<open>Runs of a step function\<close>

text \<open>
  The contract that every state machine of the development shares: a predicate on states
  which each admissible step preserves.  Its consequence for whole runs is proved once.
\<close>

locale step_invariant =
  fixes step :: "'e \<Rightarrow> 's \<Rightarrow> 's"
    and admissible :: "'e \<Rightarrow> bool"
    and inv :: "'s \<Rightarrow> bool"
  assumes step_keeps: "admissible e \<Longrightarrow> inv s \<Longrightarrow> inv (step e s)"
begin

lemma run_keeps: "list_all admissible es \<Longrightarrow> inv s \<Longrightarrow> inv (fold step es s)"
  by (induction es arbitrary: s) (auto intro: step_keeps)

lemma run_split:
  "list_all admissible (xs @ ys) \<Longrightarrow> inv (fold step xs s) \<Longrightarrow> inv (fold step (xs @ ys) s)"
  by (simp add: run_keeps)

end

section \<open>Codecs\<close>

text \<open>
  The contract of a frame format: a decoder that takes one frame off the front of a byte
  stream, and an encoder whose output it recognises in front of any other bytes.  What
  follows for a stream of frames is proved here and used by every frame format below.
\<close>

locale frame_codec =
  fixes enc :: "'a \<Rightarrow> bytes"
    and dec :: "bytes \<Rightarrow> ('f \<times> bytes) option"
    and frame :: "'a \<Rightarrow> 'f"
    and encodable :: "'a \<Rightarrow> bool"
  assumes dec_enc: "encodable x \<Longrightarrow> dec (enc x @ r) = Some (frame x, r)"
begin

lemma dec_enc_single: "encodable x \<Longrightarrow> dec (enc x) = Some (frame x, [])"
  using dec_enc [of x "[]"] by simp

lemma enc_inj_frame:
  "encodable x \<Longrightarrow> encodable y \<Longrightarrow> enc x @ r = enc y @ q \<Longrightarrow> frame x = frame y \<and> r = q"
  using dec_enc [of x r] dec_enc [of y q] by simp

lemma dec_enc_list:
  "list_all encodable xs \<Longrightarrow> xs \<noteq> [] \<Longrightarrow>
     dec (concat (map enc xs) @ r) =
       Some (frame (hd xs), concat (map enc (tl xs)) @ r)"
  by (cases xs) (simp_all add: dec_enc)

end

section \<open>Lists\<close>

lemma take_drop_within:
  "i + n \<le> length xs \<Longrightarrow> take n (drop i xs @ ys) = take n (drop i xs)"
  by simp

lemma subseq_same_append: "subseq xs ys \<Longrightarrow> subseq xs (ys @ zs)"
  by (metis append_Nil2 list_emb_append_mono list_emb_Nil)

lemma fold_invariant_set:
  assumes "\<And>x s. x \<in> set xs \<Longrightarrow> P s \<Longrightarrow> P (f x s)" and "P s"
  shows "P (fold f xs s)"
  using assms by (induction xs arbitrary: s) auto

lemma fold_keeps:
  assumes "\<And>x s. g (f x s) = g s"
  shows "g (fold f xs s) = g s"
  by (induction xs arbitrary: s) (auto simp: assms)

end
