(* ===== verification/Metadata.thy ===== *)
theory Metadata
  imports Prelude
begin

text \<open>
  \<^verbatim>\<open>client/grpc-web/src/metadata.ts\<close> re-exports \<^verbatim>\<open>BrowserHeaders\<close> of the package
  \<^verbatim>\<open>browser-headers\<close> as \<^verbatim>\<open>Metadata\<close>.  That package is not part of the repository, so
  metadata is a parameter of the model: a type \<open>'m\<close> of metadata objects and the record
  \<open>metadata_ops\<close> of the operations the client calls on it.  A constructor call whose
  argument comes from outside (the text of a trailer frame, the headers the user passes)
  may throw.  Theorems that need a law of the package name it as a hypothesis; the laws
  used are in \<open>metadata_laws\<close>, and \<open>assoc_metadata\<close> is a small executable instance that
  the witnesses evaluate.
\<close>

record ('m, 'a) metadata_ops =
  md_of_text :: "js_string \<Rightarrow> 'm result"
    \<comment> \<open>\<^verbatim>\<open>new Metadata(text)\<close>, the text of a header block\<close>
  md_of_arg :: "'a \<Rightarrow> 'm result"
    \<comment> \<open>\<^verbatim>\<open>new Metadata(arg)\<close>, what the user passed to \<^verbatim>\<open>start\<close>\<close>
  md_of_obj :: "(js_string \<times> js_string) list \<Rightarrow> 'm"
    \<comment> \<open>\<^verbatim>\<open>new Metadata({k: v, ...})\<close> with literal keys; \<^verbatim>\<open>new Metadata()\<close> on \<open>[]\<close>\<close>
  md_copy :: "'m \<Rightarrow> 'm"
    \<comment> \<open>\<^verbatim>\<open>new Metadata(metadata)\<close>\<close>
  md_get :: "'m \<Rightarrow> js_string \<Rightarrow> js_string list"
  md_set :: "'m \<Rightarrow> js_string \<Rightarrow> js_string \<Rightarrow> 'm"
  md_entries :: "'m \<Rightarrow> (js_string \<times> js_string list) list"
    \<comment> \<open>the pairs \<^verbatim>\<open>forEach\<close> visits, in its order\<close>

text \<open>
  What the package documents of these operations and the theorems below rely on, for names in
  lower case, in which it keeps them.
\<close>

definition field_name :: "js_string \<Rightarrow> bool" where
  "field_name k \<longleftrightarrow> k \<noteq> [] \<and> list_all (\<lambda>c. 97 \<le> c \<and> c \<le> 122 \<or> c = 45) k"

definition metadata_laws :: "('m, 'a) metadata_ops \<Rightarrow> bool" where
  "metadata_laws M \<longleftrightarrow>
     (\<forall>m k. field_name k \<longrightarrow> md_get M (md_copy M m) k = md_get M m k) \<and>
     (\<forall>m k v. field_name k \<longrightarrow> md_get M (md_set M m k v) k = [v]) \<and>
     (\<forall>m k k' v. field_name k \<longrightarrow> field_name k' \<longrightarrow> k \<noteq> k' \<longrightarrow>
        md_get M (md_set M m k v) k' = md_get M m k') \<and>
     (\<forall>k. field_name k \<longrightarrow> md_get M (md_of_obj M []) k = []) \<and>
     (\<forall>m k. field_name k \<longrightarrow> md_get M m k \<noteq> [] \<longrightarrow> (k, md_get M m k) \<in> set (md_entries M m))"

lemma metadata_laws_set:
  "metadata_laws M \<Longrightarrow> field_name k \<Longrightarrow> field_name k' \<Longrightarrow>
     md_get M (md_set M m k v) k' = (if k = k' then [v] else md_get M m k')"
  by (simp add: metadata_laws_def)

lemma metadata_laws_entry:
  "metadata_laws M \<Longrightarrow> field_name k \<Longrightarrow> md_get M m k = v # vs \<Longrightarrow> (k, v # vs) \<in> set (md_entries M m)"
  unfolding metadata_laws_def by (metis list.distinct(1))

section \<open>An executable instance\<close>

text \<open>Association lists from keys to values; a header block is read line by line.\<close>

type_synonym assoc = "(js_string \<times> js_string list) list"

fun split_line :: "js_string \<Rightarrow> (js_string \<times> js_string) option" where
  "split_line [] = None"
| "split_line (c # cs) =
     (if c = 58 then Some ([], dropWhile (\<lambda>x. x = 32) cs)
      else map_option (\<lambda>(k, v). (c # k, v)) (split_line cs))"

fun split_crlf :: "js_string \<Rightarrow> js_string \<Rightarrow> js_string list" where
  "split_crlf acc [] = (if acc = [] then [] else [rev acc])"
| "split_crlf acc (c # cs) =
     (if c = 13 then split_crlf acc cs
      else if c = 10 then rev acc # split_crlf [] cs
      else split_crlf (c # acc) cs)"

definition assoc_get :: "assoc \<Rightarrow> js_string \<Rightarrow> js_string list" where
  "assoc_get m k = (case map_of m k of None \<Rightarrow> [] | Some vs \<Rightarrow> vs)"

fun assoc_set :: "assoc \<Rightarrow> js_string \<Rightarrow> js_string \<Rightarrow> assoc" where
  "assoc_set [] k v = [(k, [v])]"
| "assoc_set ((k', vs) # m) k v =
     (if k = k' then (k, [v]) # m else (k', vs) # assoc_set m k v)"

definition assoc_of_text :: "js_string \<Rightarrow> assoc result" where
  "assoc_of_text t =
     (let ls = map split_line (filter (\<lambda>l. l \<noteq> []) (split_crlf [] t)) in
      if None \<in> set ls then Inl (TypeError (js ''Invalid header''))
      else Inr (map (\<lambda>(k, v). (k, [v])) (map the ls)))"

definition assoc_metadata :: "(assoc, assoc) metadata_ops" where
  "assoc_metadata =
     \<lparr>md_of_text = assoc_of_text,
      md_of_arg = Inr,
      md_of_obj = map (\<lambda>(k, v). (k, [v])),
      md_copy = (\<lambda>m. m),
      md_get = assoc_get,
      md_set = assoc_set,
      md_entries = (\<lambda>m. m)\<rparr>"

lemma assoc_metadata_simps [simp]:
  "md_of_text assoc_metadata = assoc_of_text"
  "md_of_arg assoc_metadata = Inr"
  "md_of_obj assoc_metadata = map (\<lambda>(k, v). (k, [v]))"
  "md_copy assoc_metadata m = m"
  "md_get assoc_metadata = assoc_get"
  "md_set assoc_metadata = assoc_set"
  "md_entries assoc_metadata m = m"
  by (simp_all add: assoc_metadata_def)

lemma assoc_get_set: "assoc_get (assoc_set m k v) k' = (if k = k' then [v] else assoc_get m k')"
  by (induction m) (auto simp: assoc_get_def)

lemma assoc_metadata_laws: "metadata_laws assoc_metadata"
  unfolding metadata_laws_def
  by (simp add: assoc_get_set) (auto simp: assoc_get_def dest: map_of_SomeD split: option.splits)

end
