(* ===== verification/Frames.thy ===== *)
theory Frames
  imports Prelude
begin

text \<open>
  The gRPC-Web wire format as a specification, independent of the parser's buffering: a
  frame is a flag byte, a big-endian 32-bit length and that many bytes of payload.  The
  most significant bit of the flag marks a trailer frame.  \<open>scan\<close> is the abstract
  contract of one call of the parser: cut whole frames off the front, up to the first
  trailer frame, and keep the rest.
\<close>

type_synonym frame = "byte \<times> bytes"

definition frame_bytes :: "frame \<Rightarrow> bytes" where
  "frame_bytes f = fst f # be32_bytes (of_nat (length (snd f))) @ snd f"

definition short_frame :: "frame \<Rightarrow> bool" where
  "short_frame f \<longleftrightarrow> length (snd f) < 2 ^ 32"

text \<open>The length field of the frame at the front of a stream of at least five bytes.\<close>

definition frame_len :: "bytes \<Rightarrow> 32 word" where
  "frame_len b = be32 (b ! 1) (b ! 2) (b ! 3) (b ! 4)"

definition next_frame :: "bytes \<Rightarrow> (frame \<times> bytes) option" where
  "next_frame b =
     (if length b < 5 then None
      else let n = unat (frame_len b) in
        if length b < 5 + n then None
        else Some ((b ! 0, take n (drop 5 b)), drop n (drop 5 b)))"

definition is_trailer :: "frame \<Rightarrow> bool" where
  "is_trailer f \<longleftrightarrow> (fst f AND 0x80) = 0x80"

lemma next_frame_shrinks: "next_frame b = Some (f, r) \<Longrightarrow> length r + 5 \<le> length b"
  by (auto simp: next_frame_def Let_def split: if_splits)

lemma next_frame_extend:
  "next_frame b = Some (f, r) \<Longrightarrow> next_frame (b @ x) = Some (f, r @ x)"
  by (auto simp: next_frame_def frame_len_def Let_def nth_append split: if_splits)

lemma next_frame_suffix: "next_frame b = Some (f, r) \<Longrightarrow> r = drop (length b - length r) b"
  by (auto simp: next_frame_def Let_def split: if_splits)

function scan :: "bytes \<Rightarrow> frame list \<times> bytes" where
  "scan b =
     (case next_frame b of
        None \<Rightarrow> ([], b)
      | Some (f, r) \<Rightarrow>
          if is_trailer f then ([f], r)
          else (f # fst (scan r), snd (scan r)))"
  by pat_completeness auto
termination
  by (relation "measure length") (auto dest!: next_frame_shrinks)

declare scan.simps [simp del]

section \<open>Incremental decoding\<close>

text \<open>
  What makes decoding independent of how the stream is cut into chunks: recognising a
  frame never depends on the bytes after it.  The laws name the one-frame decoder, the
  predicate on frames that ends a call, and the greedy decoder over them.
\<close>

locale incremental_decoder =
  fixes next_item :: "bytes \<Rightarrow> ('f \<times> bytes) option"
    and stop :: "'f \<Rightarrow> bool"
    and greedy :: "bytes \<Rightarrow> 'f list \<times> bytes"
  assumes extend: "next_item b = Some (f, r) \<Longrightarrow> next_item (b @ x) = Some (f, r @ x)"
    and shrinks: "next_item b = Some (f, r) \<Longrightarrow> length r < length b"
    and greedy_none: "next_item b = None \<Longrightarrow> greedy b = ([], b)"
    and greedy_stop: "next_item b = Some (f, r) \<Longrightarrow> stop f \<Longrightarrow> greedy b = ([f], r)"
    and greedy_go: "next_item b = Some (f, r) \<Longrightarrow> \<not> stop f \<Longrightarrow>
           greedy b = (f # fst (greedy r), snd (greedy r))"
begin

lemma greedy_induct [case_names none stop go]:
  assumes none: "\<And>b. next_item b = None \<Longrightarrow> P b"
    and stop: "\<And>b f r. next_item b = Some (f, r) \<Longrightarrow> stop f \<Longrightarrow> P b"
    and go: "\<And>b f r. next_item b = Some (f, r) \<Longrightarrow> \<not> stop f \<Longrightarrow> P r \<Longrightarrow> P b"
  shows "P b"
proof (induction b rule: length_induct)
  case (1 b)
  show ?case
  proof (cases "next_item b")
    case None
    then show ?thesis by (rule none)
  next
    case (Some fr)
    obtain f r where fr: "fr = (f, r)" by fastforce
    with Some have n: "next_item b = Some (f, r)" by simp
    with 1 have "P r" by (blast dest: shrinks)
    with n show ?thesis by (cases "stop f") (blast intro: stop go)+
  qed
qed

lemma greedy_append_open:
  "\<forall>f \<in> set (fst (greedy a)). \<not> stop f \<Longrightarrow>
     greedy (a @ x) =
       (fst (greedy a) @ fst (greedy (snd (greedy a) @ x)), snd (greedy (snd (greedy a) @ x)))"
proof (induction a rule: greedy_induct)
  case (none b)
  then show ?case by (simp add: greedy_none)
next
  case (stop b f r)
  then show ?case by (simp add: greedy_stop)
next
  case (go b f r)
  from go.hyps have g: "greedy b = (f # fst (greedy r), snd (greedy r))"
    by (rule greedy_go)
  with go.IH go.prems have ih: "greedy (r @ x) =
      (fst (greedy r) @ fst (greedy (snd (greedy r) @ x)), snd (greedy (snd (greedy r) @ x)))"
    by simp
  show ?case
    using g ih greedy_go [OF extend [OF go.hyps(1)] go.hyps(2), of x] by simp
qed

lemma greedy_append_stop:
  "\<exists>f \<in> set (fst (greedy a)). stop f \<Longrightarrow> greedy (a @ x) = (fst (greedy a), snd (greedy a) @ x)"
proof (induction a rule: greedy_induct)
  case (none b)
  then show ?case by (simp add: greedy_none)
next
  case (stop b f r)
  then show ?case using greedy_stop [OF extend [OF stop.hyps(1)], of x] by (simp add: greedy_stop)
next
  case (go b f r)
  from go.hyps have g: "greedy b = (f # fst (greedy r), snd (greedy r))"
    by (rule greedy_go)
  with go.IH go.prems go.hyps(2) have ih: "greedy (r @ x) = (fst (greedy r), snd (greedy r) @ x)"
    by simp
  show ?case
    using g ih greedy_go [OF extend [OF go.hyps(1)] go.hyps(2), of x] by simp
qed

lemma greedy_rest_length: "length (snd (greedy b)) + length (fst (greedy b)) \<le> length b"
proof (induction b rule: greedy_induct)
  case (none b)
  then show ?case by (simp add: greedy_none)
next
  case (stop b f r)
  then show ?case using shrinks [OF stop(1)] by (simp add: greedy_stop)
next
  case (go b f r)
  then show ?case using shrinks [OF go(1)] by (simp add: greedy_go)
qed

lemma greedy_rest_none:
  "\<forall>f \<in> set (fst (greedy b)). \<not> stop f \<Longrightarrow> next_item (snd (greedy b)) = None"
proof (induction b rule: greedy_induct)
  case (none b)
  then show ?case by (simp add: greedy_none)
next
  case (stop b f r)
  then show ?case by (simp add: greedy_stop)
next
  case (go b f r)
  with greedy_go [OF go.hyps] show ?case by simp
qed

end

interpretation grpc_frames: incremental_decoder next_frame is_trailer scan
proof unfold_locales
  show "next_frame b = Some (f, r) \<Longrightarrow> next_frame (b @ x) = Some (f, r @ x)" for b f r x
    by (rule next_frame_extend)
  show "next_frame b = Some (f, r) \<Longrightarrow> length r < length b" for b f r
    by (drule next_frame_shrinks) simp
qed (subst scan.simps, simp)+

section \<open>The frame codec\<close>

lemma next_frame_frame_bytes:
  assumes "short_frame f"
  shows "next_frame (frame_bytes f @ r) = Some (f, r)"
proof -
  have n: "unat (of_nat (length (snd f)) :: 32 word) = length (snd f)"
    using assms by (simp add: short_frame_def unat_of_nat take_bit_nat_eq_self)
  show ?thesis
    by (cases f) (use n in \<open>simp add: next_frame_def frame_len_def frame_bytes_def be32_bytes_def be32_split Let_def\<close>)
qed

interpretation grpc_codec: frame_codec frame_bytes next_frame "\<lambda>f. f" short_frame
  by unfold_locales (rule next_frame_frame_bytes)

lemma length_frame_bytes [simp]: "length (frame_bytes f) = 5 + length (snd f)"
  by (simp add: frame_bytes_def)

lemma scan_Nil [simp]: "scan [] = ([], [])"
  by (rule grpc_frames.greedy_none) (simp add: next_frame_def)

text \<open>A stream of message frames, and one that a trailer frame ends.\<close>

lemma scan_frames:
  "list_all short_frame fs \<Longrightarrow> list_all (\<lambda>f. \<not> is_trailer f) fs \<Longrightarrow>
     scan (concat (map frame_bytes fs) @ r) = (fs @ fst (scan r), snd (scan r))"
  by (induction fs)
    (simp_all add: grpc_frames.greedy_go [OF next_frame_frame_bytes])

lemma scan_frames_trailer:
  assumes "list_all short_frame fs" "list_all (\<lambda>f. \<not> is_trailer f) fs"
    and "short_frame t" "is_trailer t"
  shows "scan (concat (map frame_bytes fs) @ frame_bytes t @ r) = (fs @ [t], r)"
  using scan_frames [OF assms(1,2)]
    grpc_frames.greedy_stop [OF next_frame_frame_bytes [OF assms(3)] assms(4)]
  by simp

text \<open>Decoding loses nothing: the frames read and the rest make up the stream.\<close>

lemma next_frame_whole: "next_frame b = Some (f, r) \<Longrightarrow> b = frame_bytes f @ r"
proof -
  assume a: "next_frame b = Some (f, r)"
  let ?n = "unat (frame_len b)"
  from a have len: "5 + ?n \<le> length b" and f: "f = (b ! 0, take ?n (drop 5 b))"
    and r: "r = drop ?n (drop 5 b)"
    by (auto simp: next_frame_def Let_def split: if_splits)
  from len have "5 \<le> length b" by simp
  then obtain b0 b1 b2 b3 b4 b' where b: "b = b0 # b1 # b2 # b3 # b4 # b'"
    by (auto simp: Suc_le_length_iff numeral_eq_Suc)
  have "length (take ?n (drop 5 b)) = ?n" using len by simp
  then have "frame_bytes f = b0 # be32_bytes (frame_len b) @ take ?n b'"
    by (simp add: frame_bytes_def f b)
  also have "be32_bytes (frame_len b) = [b1, b2, b3, b4]"
    by (simp add: frame_len_def b be32_bytes_be32 numeral_eq_Suc)
  finally show ?thesis by (simp add: b r)
qed

lemma scan_whole: "b = concat (map frame_bytes (fst (scan b))) @ snd (scan b)"
proof (induction b rule: grpc_frames.greedy_induct)
  case (none b)
  then show ?case by (simp add: grpc_frames.greedy_none)
next
  case (stop b f r)
  then show ?case using next_frame_whole [OF stop(1)] by (simp add: grpc_frames.greedy_stop)
next
  case (go b f r)
  then show ?case using next_frame_whole [OF go(1)] by (simp add: grpc_frames.greedy_go)
qed

end
