(* ===== verification/ChunkParser.thy ===== *)
theory ChunkParser
  imports Metadata Frames
begin

text \<open>
  \<^verbatim>\<open>client/grpc-web/src/ChunkParser.ts\<close>: the header-safe ASCII codec, the slicing helper
  with its fallback for old browsers, and the incremental parser that cuts the response
  byte stream into message and trailer frames.
\<close>

section \<open>Translation\<close>

definition HEADER_SIZE :: nat where
  "HEADER_SIZE = 5"

definition isAllowedControlChars :: "js_char \<Rightarrow> bool" where
  "isAllowedControlChars c \<longleftrightarrow> c = 0x9 \<or> c = 0xa \<or> c = 0xd"

definition isValidHeaderAscii :: "js_char \<Rightarrow> bool" where
  "isValidHeaderAscii val \<longleftrightarrow> isAllowedControlChars val \<or> (val \<ge> 0x20 \<and> val \<le> 0x7e)"

definition decodeASCII :: "bytes \<Rightarrow> js_string result" where
  "decodeASCII input =
     (if list_all (\<lambda>b. isValidHeaderAscii (ucast b)) input
      then Inr (map ucast input)
      else Inl (Error (js ''Metadata is not valid (printable) ASCII'')))"

fun encodeASCII_from :: "js_string \<Rightarrow> bytes \<Rightarrow> bytes result" where
  "encodeASCII_from [] encoded = Inr encoded"
| "encodeASCII_from (charCode # rest) encoded =
     (if \<not> isValidHeaderAscii charCode
      then Inl (Error (js ''Metadata contains invalid ASCII''))
      else encodeASCII_from rest (encoded @ [ucast charCode]))"

definition encodeASCII :: "js_string \<Rightarrow> bytes result" where
  "encodeASCII input = encodeASCII_from input []"

definition isTrailerHeader :: "bytes \<Rightarrow> bool result" where
  "isTrailerHeader headerView =
     js_bind (getUint8 headerView 0) (\<lambda>b. Inr ((b AND 0x80) = 0x80))"

definition parseTrailerData :: "('m, 'a) metadata_ops \<Rightarrow> bytes \<Rightarrow> 'm result" where
  "parseTrailerData M msgData = js_bind (decodeASCII msgData) (md_of_text M)"

definition readLengthFromHeader :: "bytes \<Rightarrow> 32 word result" where
  "readLengthFromHeader headerView = getUint32 headerView 1"

definition hasEnoughBytes :: "bytes \<Rightarrow> nat \<Rightarrow> nat \<Rightarrow> bool" where
  "hasEnoughBytes buffer position byteCount \<longleftrightarrow>
     int (length buffer) - int position \<ge> int byteCount"

text \<open>
  \<^verbatim>\<open>buffer.slice\<close> clamps both ends; the fallback loop does not: past the end it stores
  \<^verbatim>\<open>undefined\<close>, which a \<^verbatim>\<open>Uint8Array\<close> turns into 0, and a negative size is a
  \<^verbatim>\<open>RangeError\<close>.  The flag says whether the browser has \<^verbatim>\<open>Uint8Array.prototype.slice\<close>.
\<close>

definition sliceUint8Array :: "bool \<Rightarrow> bytes \<Rightarrow> nat \<Rightarrow> nat option \<Rightarrow> bytes result" where
  "sliceUint8Array hasSlice buffer from till =
     (let end = (case till of None \<Rightarrow> length buffer | Some t \<Rightarrow> t) in
      if hasSlice then Inr (take (end - from) (drop from buffer))
      else if end < from then Inl (RangeError (js ''Invalid typed array length''))
      else Inr (map (\<lambda>i. if i < length buffer then buffer ! i else 0) [from..<end]))"

text \<open>
  A chunk: the pair of \<^verbatim>\<open>chunkType\<close> and the one payload field that type fills.  The
  numbers of the enumeration are \<open>chunkType_num\<close>.
\<close>

datatype 'm chunk = MESSAGE bytes | TRAILERS 'm

fun chunkType_num :: "'m chunk \<Rightarrow> int" where
  "chunkType_num (MESSAGE _) = 1"
| "chunkType_num (TRAILERS _) = 2"

record parser =
  buffer :: "bytes option"
  position :: nat

definition new_ChunkParser :: parser where
  "new_ChunkParser = \<lparr>buffer = None, position = 0\<rparr>"

text \<open>The \<^verbatim>\<open>while (true)\<close> loop: what it returns or throws, and the final \<^verbatim>\<open>position\<close>.\<close>

function parse_loop ::
  "('m, 'a) metadata_ops \<Rightarrow> bool \<Rightarrow> bytes \<Rightarrow> nat \<Rightarrow> 'm chunk list \<Rightarrow> 'm chunk list result \<times> nat"
where
  "parse_loop M hasSlice buf pos chunkData =
     (if \<not> hasEnoughBytes buf pos HEADER_SIZE then (Inr chunkData, pos)
      else
        case sliceUint8Array hasSlice buf pos (Some (pos + HEADER_SIZE)) of
          Inl e \<Rightarrow> (Inl e, pos)
        | Inr headerView \<Rightarrow>
        case readLengthFromHeader headerView of
          Inl e \<Rightarrow> (Inl e, pos)
        | Inr len \<Rightarrow>
        (let msgLength = unat len in
         if \<not> hasEnoughBytes buf pos (HEADER_SIZE + msgLength) then (Inr chunkData, pos)
         else
           case sliceUint8Array hasSlice buf (pos + HEADER_SIZE)
                  (Some (pos + HEADER_SIZE + msgLength)) of
             Inl e \<Rightarrow> (Inl e, pos)
           | Inr messageData \<Rightarrow>
           (let pos' = pos + (HEADER_SIZE + msgLength) in
            case isTrailerHeader headerView of
              Inl e \<Rightarrow> (Inl e, pos')
            | Inr True \<Rightarrow>
                (case parseTrailerData M messageData of
                   Inl e \<Rightarrow> (Inl e, pos')
                 | Inr trailers \<Rightarrow> (Inr (chunkData @ [TRAILERS trailers]), pos'))
            | Inr False \<Rightarrow>
                parse_loop M hasSlice buf pos' (chunkData @ [MESSAGE messageData]))))"
  by pat_completeness auto
termination
  by (relation "measure (\<lambda>(M, hasSlice, buf, pos, chunkData). length buf - pos)")
    (auto simp: hasEnoughBytes_def HEADER_SIZE_def)

declare parse_loop.simps [simp del]

definition parse ::
  "('m, 'a) metadata_ops \<Rightarrow> bool \<Rightarrow> bytes \<Rightarrow> bool \<Rightarrow> parser \<Rightarrow> 'm chunk list result \<times> parser"
where
  "parse M hasSlice bytes flush p =
     (if length bytes = 0 \<and> flush then (Inr [], p)
      else
        let p1 =
          (case buffer p of
             None \<Rightarrow> Inr \<lparr>buffer = Some bytes, position = 0\<rparr>
           | Some buf \<Rightarrow>
               if position p = length buf then Inr \<lparr>buffer = Some bytes, position = 0\<rparr>
               else
                 let remaining = length buf - position p;
                     newBuf = new_buffer (remaining + length bytes)
                 in js_bind (sliceUint8Array hasSlice buf (position p) None)
                      (\<lambda>fromExisting.
                         Inr \<lparr>buffer = Some (set_bytes (set_bytes newBuf 0 fromExisting) remaining bytes),
                              position = 0\<rparr>))
        in case p1 of
             Inl e \<Rightarrow> (Inl e, p)
           | Inr q \<Rightarrow>
               (case parse_loop M hasSlice (the (buffer q)) (position q) [] of
                  (r, pos) \<Rightarrow> (r, q\<lparr>position := pos\<rparr>)))"

section \<open>The ASCII codec\<close>

lemma encodeASCII_from_eq:
  "encodeASCII_from s acc =
     (if list_all isValidHeaderAscii s then Inr (acc @ map ucast s)
      else Inl (Error (js ''Metadata contains invalid ASCII'')))"
  by (induction s acc rule: encodeASCII_from.induct) auto

lemma valid_ascii_bound: "isValidHeaderAscii c \<Longrightarrow> c \<le> 0x7e"
  by (auto simp: isValidHeaderAscii_def isAllowedControlChars_def)

lemma ucast_byte_char [simp]: "ucast (ucast b :: js_char) = (b :: byte)"
  by (rule bit_word_eqI) (auto simp: bit_simps)

lemma valid_ascii_ucast: "isValidHeaderAscii c \<Longrightarrow> ucast (ucast c :: byte) = c"
proof -
  assume "isValidHeaderAscii c"
  then have "unat c \<le> 126"
    using valid_ascii_bound [of c] by (simp add: word_le_nat_alt)
  then show ?thesis
    by (intro word_unat_eq_iff [THEN iffD2]) (simp add: unsigned_ucast_eq unsigned_take_bit_eq take_bit_nat_eq_self)
qed

section \<open>Slices in range\<close>

lemma map_nth_upt: "j \<le> length xs \<Longrightarrow> map ((!) xs) [i..<j] = take (j - i) (drop i xs)"
  by (rule nth_equalityI) auto

lemma sliceUint8Array_within [range_simps]:
  assumes "i \<le> j" "j \<le> length buf"
  shows "sliceUint8Array hasSlice buf i (Some j) = Inr (take (j - i) (drop i buf))"
proof -
  have "map (\<lambda>k. if k < length buf then buf ! k else 0) [i..<j] = map ((!) buf) [i..<j]"
    using assms by auto
  then show ?thesis
    using assms by (simp add: sliceUint8Array_def map_nth_upt)
qed

lemma sliceUint8Array_rest [range_simps]:
  "i \<le> length buf \<Longrightarrow> sliceUint8Array hasSlice buf i None = Inr (drop i buf)"
  using sliceUint8Array_within [of i "length buf" buf hasSlice]
  by (simp add: sliceUint8Array_def)

lemma hasEnoughBytes_within:
  "pos \<le> length buf \<Longrightarrow> hasEnoughBytes buf pos n \<longleftrightarrow> n \<le> length buf - pos"
  by (auto simp: hasEnoughBytes_def)

section \<open>The parser refines the wire format\<close>

text \<open>Reading frames as chunks: a trailer payload is decoded, which may throw.\<close>

fun read_frames :: "('m, 'a) metadata_ops \<Rightarrow> frame list \<Rightarrow> 'm chunk list result" where
  "read_frames M [] = Inr []"
| "read_frames M (f # fs) =
     (if is_trailer f
      then js_bind (parseTrailerData M (snd f))
             (\<lambda>t. js_bind (read_frames M fs) (\<lambda>cs. Inr (TRAILERS t # cs)))
      else js_bind (read_frames M fs) (\<lambda>cs. Inr (MESSAGE (snd f) # cs)))"

lemma js_bind_assoc: "js_bind (js_bind r f) g = js_bind r (\<lambda>x. js_bind (f x) g)"
  by (cases r) simp_all

lemma read_frames_append:
  "read_frames M (fs @ gs) =
     js_bind (read_frames M fs) (\<lambda>cs. js_bind (read_frames M gs) (\<lambda>ds. Inr (cs @ ds)))"
  by (induction fs) (auto simp: js_bind_assoc js_bind_def split: sum.splits)

lemma read_frames_messages:
  "\<forall>f \<in> set fs. \<not> is_trailer f \<Longrightarrow> read_frames M fs = Inr (map (\<lambda>f. MESSAGE (snd f)) fs)"
  by (induction fs) auto

definition pending :: "parser \<Rightarrow> bytes" where
  "pending p = (case buffer p of None \<Rightarrow> [] | Some buf \<Rightarrow> drop (position p) buf)"

definition parser_inv :: "parser \<Rightarrow> bool" where
  "parser_inv p \<longleftrightarrow> (\<forall>buf. buffer p = Some buf \<longrightarrow> position p \<le> length buf)"

lemma new_ChunkParser_ok [simp]: "parser_inv new_ChunkParser" "pending new_ChunkParser = []"
  by (simp_all add: parser_inv_def pending_def new_ChunkParser_def)

text \<open>
  One iteration, with the accesses resolved: the three ways the loop can go, by what the
  one-frame decoder says of the bytes from \<open>pos\<close> on.
\<close>

lemma header_at:
  assumes "5 \<le> length b"
  shows "readLengthFromHeader (take 5 b) = Inr (frame_len b)"
    and "isTrailerHeader (take 5 b) = Inr (is_trailer (b ! 0, d))"
  using assms
  by (simp_all add: readLengthFromHeader_def getUint32_def isTrailerHeader_def getUint8_def
      is_trailer_def frame_len_def numeral_eq_Suc)

lemma parse_loop_none:
  assumes "pos \<le> length buf" "next_frame (drop pos buf) = None"
  shows "parse_loop M hasSlice buf pos acc = (Inr acc, pos)"
proof (cases "5 \<le> length buf - pos")
  case False
  with assms(1) show ?thesis
    by (subst parse_loop.simps) (simp add: hasEnoughBytes_within HEADER_SIZE_def)
next
  case True
  with assms(2) have "length buf - pos < 5 + unat (frame_len (drop pos buf))"
    by (auto simp: next_frame_def Let_def split: if_splits)
  with True assms(1) show ?thesis
    by (subst parse_loop.simps)
      (simp add: hasEnoughBytes_within HEADER_SIZE_def range_simps header_at(1) Let_def)
qed

lemma next_frame_fields:
  assumes "next_frame b = Some ((fl, d), r)"
  shows "fl = b ! 0" "d = take (unat (frame_len b)) (drop 5 b)"
    "length d = unat (frame_len b)" "5 + length d \<le> length b" "r = drop (5 + length d) b"
  using assms by (auto simp: next_frame_def Let_def add.commute split: if_splits)

lemma parse_loop_some:
  assumes "pos \<le> length buf" "next_frame (drop pos buf) = Some ((fl, d), r)"
  shows "parse_loop M hasSlice buf pos acc =
      (let pos' = pos + (5 + length d) in
       if is_trailer (fl, d)
       then (js_bind (parseTrailerData M d) (\<lambda>t. Inr (acc @ [TRAILERS t])), pos')
       else parse_loop M hasSlice buf pos' (acc @ [MESSAGE d]))"
proof -
  define n where "n = unat (frame_len (drop pos buf))"
  note nf = next_frame_fields [OF assms(2), folded n_def]
  have d: "d = take n (drop (pos + 5) buf)" and n: "length d = n"
    using nf by (simp_all add: add.commute)
  have fit: "5 + n \<le> length buf - pos" and five: "5 \<le> length buf - pos"
    using nf(3,4) by simp_all
  have tr: "isTrailerHeader (take 5 (drop pos buf)) = Inr (is_trailer (fl, d))"
    using five header_at(2) [of "drop pos buf" d] nf(1) by simp
  have len: "readLengthFromHeader (take 5 (drop pos buf)) = Inr (frame_len (drop pos buf))"
    using five header_at(1) [of "drop pos buf"] by simp
  show ?thesis
    using assms(1) fit five
    by (subst parse_loop.simps)
      (auto simp: hasEnoughBytes_within HEADER_SIZE_def range_simps len tr Let_def n
        n_def [symmetric] d [symmetric] ac_simps js_bind_def split: sum.split)
qed

lemma parse_loop_scan:
  assumes "pos \<le> length buf"
  shows "\<exists>pos'. parse_loop M hasSlice buf pos acc =
        (js_bind (read_frames M (fst (scan (drop pos buf)))) (\<lambda>cs. Inr (acc @ cs)), pos') \<and>
      pos' \<le> length buf \<and> drop pos' buf = snd (scan (drop pos buf))"
  using assms
proof (induction "length buf - pos" arbitrary: pos acc rule: less_induct)
  case less
  show ?case
  proof (cases "next_frame (drop pos buf)")
    case None
    with less.prems show ?thesis
      by (simp add: parse_loop_none grpc_frames.greedy_none)
  next
    case (Some fr)
    obtain fl d r where fr: "fr = ((fl, d), r)" by (metis prod.exhaust)
    with Some have n: "next_frame (drop pos buf) = Some ((fl, d), r)" by simp
    note step = parse_loop_some [OF less.prems n, of M hasSlice acc]
    have fit: "pos + (5 + length d) \<le> length buf" "r = drop (pos + (5 + length d)) buf"
      using next_frame_fields(4,5) [OF n] less.prems by (simp_all add: ac_simps)
    show ?thesis
    proof (cases "is_trailer (fl, d)")
      case True
      with step fit grpc_frames.greedy_stop [OF n True] show ?thesis
        by (intro exI [of _ "pos + (5 + length d)"]) (simp add: js_bind_assoc)
    next
      case False
      have "length buf - (pos + (5 + length d)) < length buf - pos"
        using fit(1) by simp
      from less.hyps [OF this fit(1), of "acc @ [MESSAGE d]"] False step
        grpc_frames.greedy_go [OF n False] fit(2)
      show ?thesis by (auto simp: js_bind_assoc)
    qed
  qed
qed

text \<open>One call of \<^verbatim>\<open>parse\<close> is one \<open>scan\<close> of the pending bytes and the new ones.\<close>

lemma parse_refines_scan:
  assumes "parser_inv p" "\<not> (bytes = [] \<and> flush)"
  obtains p' where
    "parse M hasSlice bytes flush p = (read_frames M (fst (scan (pending p @ bytes))), p')"
    "parser_inv p'" "pending p' = snd (scan (pending p @ bytes))"
proof -
  define buf where "buf = pending p @ bytes"
  have p: "parse M hasSlice bytes flush p =
      (case parse_loop M hasSlice buf 0 [] of
         (r, pos) \<Rightarrow> (r, \<lparr>buffer = Some buf, position = pos\<rparr>))"
    using assms
    by (auto simp: parse_def buf_def pending_def parser_inv_def range_simps Let_def
        set_bytes_join
        split: option.splits)
  from parse_loop_scan [of 0 buf M hasSlice "[]"] obtain pos' where
    "parse_loop M hasSlice buf 0 [] = (read_frames M (fst (scan buf)), pos')"
    "pos' \<le> length buf" "drop pos' buf = snd (scan buf)"
    by (auto simp: js_bind_def split: sum.splits)
  with p show thesis
    by (intro that [of "\<lparr>buffer = Some buf, position = pos'\<rparr>"])
      (simp_all add: parser_inv_def pending_def buf_def)
qed

lemma parse_flush_empty: "parse M hasSlice [] True p = (Inr [], p)"
  by (simp add: parse_def)

section \<open>A stream of network chunks\<close>

text \<open>
  What the client sees of a response whose body arrives in the chunks \<open>bs\<close>: the
  concatenation of what the successive calls return, up to the first that throws.
\<close>

fun feed ::
  "('m, 'a) metadata_ops \<Rightarrow> bool \<Rightarrow> bytes list \<Rightarrow> parser \<Rightarrow> 'm chunk list result \<times> parser"
where
  "feed M hasSlice [] p = (Inr [], p)"
| "feed M hasSlice (b # bs) p =
     (case parse M hasSlice b False p of
        (Inl e, p') \<Rightarrow> (Inl e, p')
      | (Inr cs, p') \<Rightarrow>
          (case feed M hasSlice bs p' of
             (Inl e, q) \<Rightarrow> (Inl e, q)
           | (Inr ds, q) \<Rightarrow> (Inr (cs @ ds), q)))"

lemma feed_empty_chunks:
  assumes "parser_inv p" "next_frame (pending p) = None" "concat bs = []"
  shows "\<exists>p'. feed M hasSlice bs p = (Inr [], p') \<and> parser_inv p' \<and> pending p' = pending p"
  using assms
proof (induction bs arbitrary: p)
  case Nil
  then show ?case by simp
next
  case (Cons b bs)
  then have b: "b = []" "concat bs = []" by simp_all
  from Cons.prems(1) obtain p1 where p1:
    "parse M hasSlice b False p = (read_frames M (fst (scan (pending p @ b))), p1)"
    "parser_inv p1" "pending p1 = snd (scan (pending p @ b))"
    by (rule parse_refines_scan) auto
  with b Cons.prems(2) have "parse M hasSlice b False p = (Inr [], p1)" "pending p1 = pending p"
    by (simp_all add: grpc_frames.greedy_none)
  with Cons.IH [of p1] Cons.prems(2) p1(2) b(2) show ?case by auto
qed

lemma feed_scan:
  assumes "parser_inv p" "next_frame (pending p) = None"
    and "(\<forall>f \<in> set (fst (scan (pending p @ concat bs))). \<not> is_trailer f) \<or>
         snd (scan (pending p @ concat bs)) = []"
  shows "\<exists>p'. feed M hasSlice bs p = (read_frames M (fst (scan (pending p @ concat bs))), p') \<and>
      parser_inv p' \<and> pending p' = snd (scan (pending p @ concat bs))"
  using assms
proof (induction bs arbitrary: p)
  case Nil
  then show ?case by (simp add: grpc_frames.greedy_none)
next
  case (Cons b bs)
  define a where "a = pending p @ b"
  have whole: "pending p @ concat (b # bs) = a @ concat bs" by (simp add: a_def)
  from Cons.prems(1) obtain p1 where p1:
    "parse M hasSlice b False p = (read_frames M (fst (scan a)), p1)"
    "parser_inv p1" "pending p1 = snd (scan a)"
    unfolding a_def by (rule parse_refines_scan) auto
  show ?case
  proof (cases "\<forall>f \<in> set (fst (scan a)). \<not> is_trailer f")
    case True
    note split = grpc_frames.greedy_append_open [OF True, of "concat bs", folded p1(3)]
    have "next_frame (pending p1) = None"
      using grpc_frames.greedy_rest_none [OF True] p1(3) by simp
    moreover have "(\<forall>f \<in> set (fst (scan (pending p1 @ concat bs))). \<not> is_trailer f) \<or>
         snd (scan (pending p1 @ concat bs)) = []"
      using Cons.prems(3) unfolding whole split by auto
    ultimately obtain q where q:
      "feed M hasSlice bs p1 = (read_frames M (fst (scan (pending p1 @ concat bs))), q)"
      "parser_inv q" "pending q = snd (scan (pending p1 @ concat bs))"
      using Cons.IH [OF p1(2)] by blast
    show ?thesis
      using p1(1) q unfolding whole split
      by (auto simp: read_frames_append read_frames_messages [OF True] js_bind_def
          split: sum.split)
  next
    case False
    then have stop: "\<exists>f \<in> set (fst (scan a)). is_trailer f" by blast
    note split = grpc_frames.greedy_append_stop [OF stop, of "concat bs", folded p1(3)]
    from Cons.prems(3) stop have over: "pending p1 = []" "concat bs = []"
      unfolding whole split by auto
    from feed_empty_chunks [OF p1(2) _ over(2), of M hasSlice] over(1) obtain q where
      "feed M hasSlice bs p1 = (Inr [], q)" "parser_inv q" "pending q = []"
      by (auto simp: next_frame_def)
    then show ?thesis
      using p1 over unfolding whole split by (auto split: sum.split)
  qed
qed

section \<open>The fallback for browsers without slice\<close>

lemma parse_loop_fallback:
  assumes "pos \<le> length buf"
  shows "parse_loop M True buf pos acc = parse_loop M False buf pos acc"
  using assms
proof (induction "length buf - pos" arbitrary: pos acc rule: less_induct)
  case less
  show ?case
  proof (cases "next_frame (drop pos buf)")
    case None
    with less.prems show ?thesis by (simp add: parse_loop_none)
  next
    case (Some fr)
    obtain fl d r where "fr = ((fl, d), r)" by (metis prod.exhaust)
    with Some have n: "next_frame (drop pos buf) = Some ((fl, d), r)" by simp
    have fit: "pos + (5 + length d) \<le> length buf"
      using next_frame_fields(4) [OF n] less.prems by (simp add: ac_simps)
    then have "length buf - (pos + (5 + length d)) < length buf - pos" by simp
    from less.hyps [OF this fit] show ?thesis
      by (simp add: parse_loop_some [OF less.prems n] Let_def)
  qed
qed

lemma parse_fallback:
  assumes "parser_inv p"
  shows "parse M True bytes flush p = parse M False bytes flush p"
proof -
  have "parse_loop M True buf 0 [] = parse_loop M False buf 0 []" for buf
    by (rule parse_loop_fallback) simp
  with assms show ?thesis
    by (auto simp: parse_def parser_inv_def range_simps Let_def split: option.splits)
qed

lemma read_frames_only_messages:
  "read_frames M fs = Inr (map MESSAGE ds) \<Longrightarrow> \<forall>f \<in> set fs. \<not> is_trailer f"
proof (induction fs arbitrary: ds)
  case (Cons f fs)
  from Cons.prems have "\<not> is_trailer f" and "\<exists>cs. read_frames M fs = Inr cs \<and> MESSAGE (snd f) # cs = map MESSAGE ds"
    by (auto simp: js_bind_Inr_iff Cons_eq_map_conv split: if_splits)
  then show ?case using Cons.IH by (auto simp: Cons_eq_map_conv)
qed simp

text \<open>The shape of what one call returns: messages, and at most one trailer, which is last.\<close>

fun chunks_shaped :: "'m chunk list \<Rightarrow> bool" where
  "chunks_shaped [] \<longleftrightarrow> True"
| "chunks_shaped (MESSAGE _ # cs) \<longleftrightarrow> chunks_shaped cs"
| "chunks_shaped (TRAILERS _ # cs) \<longleftrightarrow> cs = []"

lemma read_scan_shaped: "read_frames M (fst (scan b)) = Inr cs \<Longrightarrow> chunks_shaped cs"
proof (induction b arbitrary: cs rule: grpc_frames.greedy_induct)
  case (none b)
  then show ?case by (simp add: grpc_frames.greedy_none)
next
  case (stop b f r)
  then show ?case by (auto simp: grpc_frames.greedy_stop js_bind_Inr_iff)
next
  case (go b f r)
  then show ?case by (auto simp: grpc_frames.greedy_go js_bind_Inr_iff)
qed

section \<open>Properties\<close>

text \<open>
  C2. One call of \<^verbatim>\<open>parse\<close> implements the wire format: it returns the frames, up to the first
  trailer, that the unread bytes and the new ones hold, decoded in order (or throws what decoding
  the trailer throws), and leaves exactly the bytes after them unread.  So the result depends
  neither on how earlier chunks were cut nor on the buffer's representation.
\<close>

theorem parse_implements_scan:
  assumes "parser_inv p" "\<not> (bytes = [] \<and> flush)"
  shows "\<exists>p'. parse M hasSlice bytes flush p =
      (read_frames M (fst (scan (pending p @ bytes))), p') \<and>
    parser_inv p' \<and> pending p' = snd (scan (pending p @ bytes))"
  by (rule parse_refines_scan [OF assms]) blast

theorem parse_implements_scan_witness:
  "\<exists>p'. parse assoc_metadata True [0, 0, 0, 0, 1, 65, 0, 0] False new_ChunkParser = (Inr [MESSAGE [65]], p') \<and>
     pending p' = [0, 0]"
proof -
  have "scan [0, 0, 0, 0, 1, 65, 0, 0] = ([(0, [65])], [0, 0])"
    by (simp add: scan.simps next_frame_def frame_len_def be32_def is_trailer_def)
  then show ?thesis
    using parse_implements_scan [of new_ChunkParser "[0, 0, 0, 0, 1, 65, 0, 0]" False assoc_metadata True]
    by (auto simp: is_trailer_def)
qed

text \<open>
  C36. The result of \<^verbatim>\<open>parse\<close> is well formed: messages followed by at most one trailer chunk, which is
  the last, and a state whose position lies inside the buffer, also when it throws.
\<close>

theorem parse_result_shape:
  assumes "parser_inv p" "\<not> (bytes = [] \<and> flush)" "parse M hasSlice bytes flush p = (r, p')"
  shows "parser_inv p' \<and> (\<forall>cs. r = Inr cs \<longrightarrow> chunks_shaped cs)"
proof -
  obtain q where "parse M hasSlice bytes flush p = (read_frames M (fst (scan (pending p @ bytes))), q)"
    "parser_inv q"
    by (rule parse_refines_scan [OF assms(1,2), of M hasSlice])
  with assms(3) read_scan_shaped show ?thesis by auto
qed

theorem parse_result_shape_witness:
  "chunks_shaped [MESSAGE [65], TRAILERS ([] :: assoc)] \<and>
     parser_inv \<lparr>buffer = Some [0, 0, 0, 0, 1, 65, 128, 0, 0, 0, 0, 7], position = 11\<rparr>"
proof -
  have "parse assoc_metadata True [0, 0, 0, 0, 1, 65, 128, 0, 0, 0, 0, 7] False new_ChunkParser =
      (Inr [MESSAGE [65], TRAILERS []], \<lparr>buffer = Some [0, 0, 0, 0, 1, 65, 128, 0, 0, 0, 0, 7], position = 11\<rparr>)"
    by code_simp
  from parse_result_shape [OF new_ChunkParser_ok(1) _ this] show ?thesis by simp
qed

text \<open>
  The parser loses and invents no byte: after any call that returns, the bytes that were
  unread and the new ones are the frames returned, re-encoded, followed by what is still unread.
\<close>

theorem parse_conserves_bytes:
  assumes "parser_inv p" "parse M hasSlice bytes False p = (Inr cs, p')"
  shows "\<exists>fs. read_frames M fs = Inr cs \<and>
    pending p @ bytes = concat (map frame_bytes fs) @ pending p'"
proof -
  obtain q where "parse M hasSlice bytes False p =
      (read_frames M (fst (scan (pending p @ bytes))), q)" "pending q = snd (scan (pending p @ bytes))"
    by (rule parse_refines_scan [OF assms(1), of bytes False M hasSlice]) auto
  with assms(2) scan_whole [of "pending p @ bytes"] show ?thesis by auto
qed

theorem parse_conserves_bytes_witness:
  "\<exists>fs. read_frames assoc_metadata fs = Inr [MESSAGE [65]] \<and>
     pending new_ChunkParser @ [0, 0, 0, 0, 1, 65, 0] =
       concat (map frame_bytes fs) @ pending \<lparr>buffer = Some [0, 0, 0, 0, 1, 65, 0], position = 6\<rparr>"
  by (rule parse_conserves_bytes [of _ _ True]) (simp, code_simp)

text \<open>
  C35. What the parser holds back is bounded: after a call that returns messages only, the position
  is inside the buffer, and the unread bytes are less than a header, or a header and fewer bytes
  than the length it announces; so every complete frame has been delivered.
\<close>

theorem parse_retains_partial_frame:
  assumes "parser_inv p" "parse M hasSlice bytes False p = (Inr (map MESSAGE ds), p')"
  shows "(\<forall>buf. buffer p' = Some buf \<longrightarrow> position p' \<le> length buf) \<and>
    (length (pending p') < 5 \<or> length (pending p') < 5 + unat (frame_len (pending p')))"
proof -
  let ?s = "scan (pending p @ bytes)"
  obtain q where q: "parse M hasSlice bytes False p = (read_frames M (fst ?s), q)"
    "parser_inv q" "pending q = snd ?s"
    by (rule parse_refines_scan [OF assms(1), of bytes False M hasSlice]) auto
  with assms(2) have r: "read_frames M (fst ?s) = Inr (map MESSAGE ds)" and p': "q = p'" by simp_all
  have "\<forall>f \<in> set (fst ?s). \<not> is_trailer f"
    using r by (rule read_frames_only_messages)
  then have "next_frame (snd ?s) = None" by (rule grpc_frames.greedy_rest_none)
  then have "length (pending p') < 5 \<or> length (pending p') < 5 + unat (frame_len (pending p'))"
    using q(3) p' by (auto simp: next_frame_def Let_def split: if_splits)
  with q(2) p' show ?thesis by (simp add: parser_inv_def)
qed

theorem parse_retains_partial_frame_witness:
  "length (pending \<lparr>buffer = Some [0, 0, 0, 0, 1, 65, 0], position = 6\<rparr>) < 5 \<or>
     length (pending \<lparr>buffer = Some [0, 0, 0, 0, 1, 65, 0], position = 6\<rparr>) <
       5 + unat (frame_len (pending \<lparr>buffer = Some [0, 0, 0, 0, 1, 65, 0], position = 6\<rparr>))"
proof -
  have "parse assoc_metadata True [0, 0, 0, 0, 1, 65, 0] False new_ChunkParser =
      (Inr (map MESSAGE [[65]]), \<lparr>buffer = Some [0, 0, 0, 0, 1, 65, 0], position = 6\<rparr>)"
    by code_simp
  from parse_retains_partial_frame [OF new_ChunkParser_ok(1) this] show ?thesis by simp
qed

text \<open>
  The slicing fallback for browsers without \<^verbatim>\<open>Uint8Array.prototype.slice\<close> is equivalent to
  the native method: on any reachable state the whole parser returns, throws and keeps the same.
\<close>

theorem parse_without_slice:
  assumes "parser_inv p"
  shows "parse M True bytes flush p = parse M False bytes flush p"
  by (rule parse_fallback [OF assms])

theorem parse_without_slice_witness:
  "parse assoc_metadata True [1, 2] False new_ChunkParser =
   parse assoc_metadata False [1, 2] False new_ChunkParser"
  by (rule parse_without_slice) simp

text \<open>
  The header text codec: what \<^verbatim>\<open>encodeASCII\<close> produces, \<^verbatim>\<open>decodeASCII\<close> reads back, one byte
  per character; it refuses a string exactly when some character is not printable ASCII (nor tab,
  line feed or carriage return).
\<close>

theorem ascii_round_trip:
  "case encodeASCII s of
     Inr b \<Rightarrow> decodeASCII b = Inr s \<and> length b = length s
   | Inl e \<Rightarrow> e = Error (js ''Metadata contains invalid ASCII'') \<and> (\<exists>c \<in> set s. \<not> isValidHeaderAscii c)"
proof (cases "list_all isValidHeaderAscii s")
  case True
  then have "encodeASCII s = Inr (map ucast s)"
    by (simp add: encodeASCII_def encodeASCII_from_eq)
  moreover have "map (\<lambda>c. ucast (ucast c :: byte)) s = s"
    using True by (simp add: map_idI list_all_iff valid_ascii_ucast)
  moreover have "list_all (\<lambda>c. isValidHeaderAscii (ucast (ucast c :: byte))) s"
    using True by (simp add: list_all_iff valid_ascii_ucast)
  ultimately show ?thesis by (simp add: decodeASCII_def list.pred_map comp_def)
next
  case False
  then have "encodeASCII s = Inl (Error (js ''Metadata contains invalid ASCII''))"
    by (simp add: encodeASCII_def encodeASCII_from_eq)
  with False show ?thesis by (simp add: list_all_iff)
qed

end
