(* ===== verification/JsStdlib.thy ===== *)
theory JsStdlib
  imports Prelude
begin

text \<open>
  The functions of the JavaScript standard library that the client's results depend on,
  after the ECMAScript definitions: \<^verbatim>\<open>parseInt(s, 10)\<close> (used on \<^verbatim>\<open>grpc-status\<close>),
  \<^verbatim>\<open>String(n)\<close> for a non-negative integer, and \<^verbatim>\<open>decodeURIComponent\<close> (used on
  \<^verbatim>\<open>grpc-message\<close>).  A number is \<open>NaN\<close> or an exact integer; the rounding of
  \<^verbatim>\<open>parseInt\<close> beyond \<open>2 ^ 53\<close> is not modelled.
\<close>

section \<open>Numbers\<close>

datatype js_num = NaN | Num int

definition StrWhiteSpace :: "js_char set" where
  "StrWhiteSpace =
     {9, 10, 11, 12, 13, 32, 0xA0, 0x1680, 0x2028, 0x2029, 0x202F, 0x205F, 0x3000, 0xFEFF} \<union>
     {0x2000..0x200A}"

definition is_digit :: "js_char \<Rightarrow> bool" where
  "is_digit c \<longleftrightarrow> 48 \<le> c \<and> c \<le> 57"

definition digit_val :: "js_char \<Rightarrow> int" where
  "digit_val c = uint c - 48"

definition digits_val :: "js_string \<Rightarrow> int" where
  "digits_val ds = foldl (\<lambda>n d. 10 * n + digit_val d) 0 ds"

definition parseInt :: "js_string \<Rightarrow> js_num" where
  "parseInt s =
     (let t = dropWhile (\<lambda>c. c \<in> StrWhiteSpace) s;
          neg = (t \<noteq> [] \<and> hd t = 45);
          u = (if t \<noteq> [] \<and> (hd t = 45 \<or> hd t = 43) then tl t else t);
          ds = takeWhile is_digit u in
      if ds = [] then NaN
      else Num (if neg then - digits_val ds else digits_val ds))"

text \<open>\<^verbatim>\<open>String(n)\<close>, the decimal digits without leading zeros.\<close>

fun nat_digits :: "nat \<Rightarrow> js_string" where
  "nat_digits n =
     (if n < 10 then [of_nat (48 + n)] else nat_digits (n div 10) @ [of_nat (48 + n mod 10)])"

declare nat_digits.simps [simp del]

lemma digit_char:
  assumes "k < 10"
  shows "is_digit (of_nat (48 + k))" "digit_val (of_nat (48 + k)) = int k"
    "of_nat (48 + k) \<notin> StrWhiteSpace" "of_nat (48 + k) \<noteq> (45 :: js_char)"
    "of_nat (48 + k) \<noteq> (43 :: js_char)"
proof -
  have "k = 0 \<or> k = 1 \<or> k = 2 \<or> k = 3 \<or> k = 4 \<or> k = 5 \<or> k = 6 \<or> k = 7 \<or> k = 8 \<or> k = 9"
    using assms by arith
  then show "is_digit (of_nat (48 + k))" "digit_val (of_nat (48 + k)) = int k"
    "of_nat (48 + k) \<notin> StrWhiteSpace" "of_nat (48 + k) \<noteq> (45 :: js_char)"
    "of_nat (48 + k) \<noteq> (43 :: js_char)"
    by (auto simp: is_digit_def digit_val_def StrWhiteSpace_def)
qed

lemma nat_digits_props:
  "list_all is_digit (nat_digits n) \<and> digits_val (nat_digits n) = int n \<and>
   nat_digits n \<noteq> [] \<and> hd (nat_digits n) \<notin> StrWhiteSpace \<and>
   hd (nat_digits n) \<noteq> 45 \<and> hd (nat_digits n) \<noteq> 43"
proof (induction n rule: nat_digits.induct)
  case (1 n)
  show ?case
  proof (cases "n < 10")
    case True
    with digit_char [OF this] show ?thesis
      by (subst (1 2 3 4 5 6) nat_digits.simps) (simp add: digits_val_def)
  next
    case False
    have d: "n mod 10 < 10" by simp
    have "10 * int (n div 10) + int (n mod 10) = int n"
      by (metis of_nat_add of_nat_mult of_nat_numeral mult_div_mod_eq)
    with False 1 digit_char(1,2) [OF d] show ?thesis
      by (subst (1 2 3 4 5 6) nat_digits.simps) (simp add: digits_val_def)
  qed
qed

lemma parseInt_nat_digits: "parseInt (nat_digits n) = Num (int n)"
proof -
  note p = nat_digits_props [of n]
  have "dropWhile (\<lambda>c. c \<in> StrWhiteSpace) (nat_digits n) = nat_digits n"
    using p by (cases "nat_digits n") auto
  moreover have "takeWhile is_digit (nat_digits n) = nat_digits n"
    using p by (simp add: list_all_iff)
  ultimately show ?thesis
    using p by (simp add: parseInt_def Let_def takeWhile_eq_all_conv [THEN iffD2] list_all_iff)
qed

lemma parseInt_no_digit:
  "s = [] \<or> hd s \<notin> StrWhiteSpace \<and> \<not> is_digit (hd s) \<and> hd s \<noteq> 45 \<and> hd s \<noteq> 43 \<Longrightarrow>
     parseInt s = NaN"
  by (cases s) (auto simp: parseInt_def)

section \<open>Percent-decoding\<close>

definition hex_val :: "js_char \<Rightarrow> nat option" where
  "hex_val c =
     (if 48 \<le> c \<and> c \<le> 57 then Some (unat c - 48)
      else if 65 \<le> c \<and> c \<le> 70 then Some (unat c - 55)
      else if 97 \<le> c \<and> c \<le> 102 then Some (unat c - 87)
      else None)"

text \<open>One \<^verbatim>\<open>%XX\<close> escape at the front of a string: the octet and what follows.\<close>

fun escape_octet :: "js_string \<Rightarrow> (nat \<times> js_string) option" where
  "escape_octet (p # a # b # rest) =
     (if p = 37 then
        (case (hex_val a, hex_val b) of
           (Some h, Some l) \<Rightarrow> Some (16 * h + l, rest)
         | _ \<Rightarrow> None)
      else None)"
| "escape_octet _ = None"

lemma escape_octet_length: "escape_octet s = Some (b, r) \<Longrightarrow> length s = length r + 3"
  by (induction s rule: escape_octet.induct) (auto split: if_splits option.splits)

text \<open>\<open>n\<close> continuation octets, accumulated six bits at a time.\<close>

fun continuation_octets :: "nat \<Rightarrow> nat \<Rightarrow> js_string \<Rightarrow> (nat \<times> js_string) option" where
  "continuation_octets 0 v s = Some (v, s)"
| "continuation_octets (Suc n) v s =
     (case escape_octet s of
        None \<Rightarrow> None
      | Some (b, r) \<Rightarrow>
          if 128 \<le> b \<and> b < 192 then continuation_octets n (64 * v + (b - 128)) r else None)"

lemma continuation_octets_length:
  "continuation_octets n v s = Some (w, r) \<Longrightarrow> length s = length r + 3 * n"
  by (induction n v s rule: continuation_octets.induct)
    (auto split: option.splits if_splits dest: escape_octet_length)

definition utf16_units :: "nat \<Rightarrow> js_string" where
  "utf16_units v =
     (if v < 0x10000 then [of_nat v]
      else [of_nat (0xD800 + (v - 0x10000) div 1024), of_nat (0xDC00 + (v - 0x10000) mod 1024)])"

text \<open>
  The sequence that a leading octet \<open>b\<close> opens: how many octets follow, the bits \<open>b\<close>
  contributes, and the least code point the length allows; \<open>None\<close> for an octet that
  cannot lead.
\<close>

definition utf8_lead :: "nat \<Rightarrow> (nat \<times> nat \<times> nat) option" where
  "utf8_lead b =
     (if b < 128 then Some (0, b, 0)
      else if 192 \<le> b \<and> b < 224 then Some (1, b - 192, 0x80)
      else if 224 \<le> b \<and> b < 240 then Some (2, b - 224, 0x800)
      else if 240 \<le> b \<and> b < 248 then Some (3, b - 240, 0x10000)
      else None)"

definition decode_escape :: "js_string \<Rightarrow> (js_string \<times> js_string) option" where
  "decode_escape s =
     (case escape_octet s of
        None \<Rightarrow> None
      | Some (b, r) \<Rightarrow>
      (case utf8_lead b of
         None \<Rightarrow> None
       | Some (n, v, least) \<Rightarrow>
       (case continuation_octets n v r of
          None \<Rightarrow> None
        | Some (w, r') \<Rightarrow>
            if least \<le> w \<and> w \<le> 0x10FFFF \<and> \<not> (0xD800 \<le> w \<and> w \<le> 0xDFFF)
            then Some (utf16_units w, r') else None)))"

lemma decode_escape_length: "decode_escape s = Some (u, r) \<Longrightarrow> length r < length s"
  by (auto simp: decode_escape_def split: option.splits if_splits
      dest!: escape_octet_length continuation_octets_length)

text \<open>\<open>None\<close> is the thrown \<^verbatim>\<open>URIError\<close>.\<close>

function decodeURIComponent :: "js_string \<Rightarrow> js_string option" where
  "decodeURIComponent s =
     (case s of
        [] \<Rightarrow> Some []
      | c # rest \<Rightarrow>
          if c = 37 then
            (case decode_escape s of
               None \<Rightarrow> None
             | Some (u, r) \<Rightarrow> map_option ((@) u) (decodeURIComponent r))
          else map_option ((#) c) (decodeURIComponent rest))"
  by pat_completeness auto
termination
  by (relation "measure length") (auto dest!: decode_escape_length)

declare decodeURIComponent.simps [simp del]

lemma decodeURIComponent_Nil [simp]: "decodeURIComponent [] = Some []"
  by (simp add: decodeURIComponent.simps)

lemma decodeURIComponent_plain:
  "c \<noteq> 37 \<Longrightarrow> decodeURIComponent (c # s) = map_option ((#) c) (decodeURIComponent s)"
  by (subst decodeURIComponent.simps) simp

lemma decodeURIComponent_escape:
  "decode_escape (37 # s) = Some (u, r) \<Longrightarrow>
     decodeURIComponent (37 # s) = map_option ((@) u) (decodeURIComponent r)"
  by (subst decodeURIComponent.simps) simp

lemma decodeURIComponent_id: "37 \<notin> set s \<Longrightarrow> decodeURIComponent s = Some s"
  by (induction s) (simp_all add: decodeURIComponent_plain)

text \<open>
  The encoding gRPC prescribes for \<^verbatim>\<open>grpc-message\<close>, as a specification: the code points'
  UTF-8 octets, each as itself when it is printable ASCII other than \<^verbatim>\<open>%\<close>, else as an escape.
\<close>

definition hex_digit :: "nat \<Rightarrow> js_char" where
  "hex_digit n = of_nat (if n < 10 then 48 + n else 55 + n)"

definition escape :: "nat \<Rightarrow> js_string" where
  "escape b = [37, hex_digit (b div 16), hex_digit (b mod 16)]"

definition utf8_octets :: "nat \<Rightarrow> nat list" where
  "utf8_octets v =
     (if v < 0x80 then [v]
      else if v < 0x800 then [192 + v div 64, 128 + v mod 64]
      else if v < 0x10000 then [224 + v div 4096, 128 + v div 64 mod 64, 128 + v mod 64]
      else [240 + v div 262144, 128 + v div 4096 mod 64, 128 + v div 64 mod 64, 128 + v mod 64])"

definition scalar :: "nat \<Rightarrow> bool" where
  "scalar v \<longleftrightarrow> v \<le> 0x10FFFF \<and> \<not> (0xD800 \<le> v \<and> v \<le> 0xDFFF)"

definition percent_encode_one :: "nat \<Rightarrow> js_string" where
  "percent_encode_one v =
     (if 32 \<le> v \<and> v \<le> 126 \<and> v \<noteq> 37 then [of_nat v] else concat (map escape (utf8_octets v)))"

definition percent_encode :: "nat list \<Rightarrow> js_string" where
  "percent_encode vs = concat (map percent_encode_one vs)"

definition utf16 :: "nat list \<Rightarrow> js_string" where
  "utf16 vs = concat (map utf16_units vs)"

lemma unat_of_nat_char: "n < 65536 \<Longrightarrow> unat (of_nat n :: js_char) = n"
  by (simp add: unat_of_nat take_bit_nat_eq_self)

lemma hex_val_of_nat:
  "n < 65536 \<Longrightarrow> hex_val (of_nat n) =
     (if 48 \<le> n \<and> n \<le> 57 then Some (n - 48)
      else if 65 \<le> n \<and> n \<le> 70 then Some (n - 55)
      else if 97 \<le> n \<and> n \<le> 102 then Some (n - 87) else None)"
  by (simp add: hex_val_def word_le_nat_alt unat_of_nat_char)

lemma hex_val_digit: "n < 16 \<Longrightarrow> hex_val (hex_digit n) = Some n"
  unfolding hex_digit_def by (subst hex_val_of_nat) auto

lemma escape_octet_escape: "b < 256 \<Longrightarrow> escape_octet (escape b @ r) = Some (b, r)"
  by (simp add: escape_def hex_val_digit)

lemma continuation_escapes:
  "list_all (\<lambda>x. x < 64) xs \<Longrightarrow>
     continuation_octets (length xs) v (concat (map (\<lambda>x. escape (128 + x)) xs) @ r) =
       Some (foldl (\<lambda>v x. 64 * v + x) v xs, r)"
  by (induction xs arbitrary: v) (simp_all add: escape_octet_escape)

lemma decode_escape_sequence:
  fixes b :: nat and xs :: "nat list" and v least w :: nat
  assumes "b < 256" "utf8_lead b = Some (length xs, v, least)" "list_all (\<lambda>x. x < 64) xs"
    and "foldl (\<lambda>v x. 64 * v + x) v xs = w" "least \<le> w" "scalar w"
  shows "decode_escape (escape b @ concat (map (\<lambda>x. escape (128 + x)) xs) @ r) = Some (utf16_units w, r)"
  using assms continuation_escapes [OF assms(3), of v r]
  by (simp add: decode_escape_def escape_octet_escape scalar_def)

lemma decode_escape_octets:
  assumes "scalar v"
  shows "decode_escape (concat (map escape (utf8_octets v)) @ r) = Some (utf16_units v, r)"
proof -
  consider "v < 0x80" | "0x80 \<le> v" "v < 0x800" | "0x800 \<le> v" "v < 0x10000"
    | "0x10000 \<le> v" "v \<le> 0x10FFFF"
    using assms by (fastforce simp: scalar_def)
  then show ?thesis
  proof cases
    case 1
    then have "utf8_lead v = Some (length ([] :: nat list), v, 0)" "utf8_octets v = [v]"
      by (simp_all add: utf8_octets_def utf8_lead_def)
    with decode_escape_sequence [OF _ this(1) _ _ _ assms] 1 show ?thesis by simp
  next
    case 2
    define q where "q = v div 64"
    have q: "q < 32" using 2 unfolding q_def by (intro less_mult_imp_div_less) simp
    then have "utf8_lead (192 + q) = Some (length [v mod 64], q, 0x80)"
      "utf8_octets v = [192 + q, 128 + v mod 64]"
      using 2 by (simp_all add: utf8_octets_def utf8_lead_def q_def)
    moreover have "64 * q + v mod 64 = v" by (simp add: q_def)
    ultimately show ?thesis
      using decode_escape_sequence [of "192 + q" "[v mod 64]" q "0x80" v r] 2 q assms by simp
  next
    case 3
    define q where "q = v div 4096"
    have q: "q < 16" using 3 unfolding q_def by (intro less_mult_imp_div_less) simp
    then have "utf8_lead (224 + q) = Some (length [v div 64 mod 64, v mod 64], q, 0x800)"
      "utf8_octets v = [224 + q, 128 + v div 64 mod 64, 128 + v mod 64]"
      using 3 by (simp_all add: utf8_octets_def utf8_lead_def q_def)
    moreover have "v div 64 = 64 * q + v div 64 mod 64"
      using mult_div_mod_eq [of 64 "v div 64"] by (simp add: q_def div_mult2_eq [symmetric])
    then have "64 * (64 * q + v div 64 mod 64) + v mod 64 = v"
      using mult_div_mod_eq [of 64 v] by simp
    ultimately show ?thesis
      using decode_escape_sequence [of "224 + q" "[v div 64 mod 64, v mod 64]" q "0x800" v r] 3 q assms
      by simp
  next
    case 4
    define q where "q = v div 262144"
    have q: "q < 8" using 4 unfolding q_def by (intro less_mult_imp_div_less) simp
    then have "utf8_lead (240 + q) =
        Some (length [v div 4096 mod 64, v div 64 mod 64, v mod 64], q, 0x10000)"
      "utf8_octets v = [240 + q, 128 + v div 4096 mod 64, 128 + v div 64 mod 64, 128 + v mod 64]"
      using 4 by (simp_all add: utf8_octets_def utf8_lead_def q_def)
    moreover have "v div 4096 = 64 * q + v div 4096 mod 64"
      using mult_div_mod_eq [of 64 "v div 4096"] by (simp add: q_def div_mult2_eq [symmetric])
    then have "v div 64 = 64 * (64 * q + v div 4096 mod 64) + v div 64 mod 64"
      using mult_div_mod_eq [of 64 "v div 64"] by (simp add: div_mult2_eq [symmetric])
    then have "64 * (64 * (64 * q + v div 4096 mod 64) + v div 64 mod 64) + v mod 64 = v"
      using mult_div_mod_eq [of 64 v] by simp
    ultimately show ?thesis
      using decode_escape_sequence [of "240 + q" "[v div 4096 mod 64, v div 64 mod 64, v mod 64]" q
          "0x10000" v r] 4 q assms by simp
  qed
qed

lemma utf8_octets_Cons: "\<exists>b bs. utf8_octets v = b # bs"
  by (simp add: utf8_octets_def)

lemma percent_encode_one_nonempty: "percent_encode_one v \<noteq> []"
proof -
  obtain b bs where "utf8_octets v = b # bs" using utf8_octets_Cons by blast
  then have "concat (map escape (utf8_octets v)) \<noteq> []" by (simp add: escape_def)
  then show ?thesis unfolding percent_encode_one_def by (metis not_Cons_self2)
qed

lemma percent_encode_empty: "percent_encode vs = [] \<longleftrightarrow> vs = []"
  by (cases vs) (simp_all add: percent_encode_def percent_encode_one_nonempty)

lemma decodeURIComponent_encoded:
  assumes "scalar v"
  shows "decodeURIComponent (percent_encode_one v @ r) = map_option ((@) (utf16_units v)) (decodeURIComponent r)"
proof (cases "32 \<le> v \<and> v \<le> 126 \<and> v \<noteq> 37")
  case True
  then have "unat (of_nat v :: js_char) = v"
    by (simp add: unat_of_nat take_bit_nat_eq_self)
  with True have "(of_nat v :: js_char) \<noteq> 37" by auto
  moreover have "(@) [of_nat v] = (#) (of_nat v :: js_char)" by (simp add: fun_eq_iff)
  ultimately show ?thesis
    using True by (simp add: percent_encode_one_def decodeURIComponent_plain utf16_units_def)
next
  case False
  obtain b bs where "utf8_octets v = b # bs" using utf8_octets_Cons by blast
  then obtain q where q: "concat (map escape (utf8_octets v)) @ r = 37 # q"
    by (simp add: escape_def)
  from False have e: "percent_encode_one v = concat (map escape (utf8_octets v))"
    unfolding percent_encode_one_def by (rule if_not_P)
  from decode_escape_octets [OF assms, of r] show ?thesis
    unfolding e q by (rule decodeURIComponent_escape)
qed

lemma decodeURIComponent_percent_encode:
  "list_all scalar vs \<Longrightarrow> decodeURIComponent (percent_encode vs) = Some (utf16 vs)"
  by (induction vs) (simp_all add: percent_encode_def utf16_def decodeURIComponent_encoded)

section \<open>UTF-8\<close>

text \<open>
  \<^verbatim>\<open>new Buffer(s)\<close>: the UTF-8 octets of the string's code points; a surrogate without its
  other half becomes U+FFFD.
\<close>

definition high_surrogate :: "js_char \<Rightarrow> bool" where
  "high_surrogate c \<longleftrightarrow> 0xD800 \<le> c \<and> c \<le> 0xDBFF"

definition low_surrogate :: "js_char \<Rightarrow> bool" where
  "low_surrogate c \<longleftrightarrow> 0xDC00 \<le> c \<and> c \<le> 0xDFFF"

definition utf8_unit :: "js_char \<Rightarrow> nat list" where
  "utf8_unit c = utf8_octets (if high_surrogate c \<or> low_surrogate c then 0xFFFD else unat c)"

fun utf8_string :: "js_string \<Rightarrow> nat list" where
  "utf8_string [] = []"
| "utf8_string [c] = utf8_unit c"
| "utf8_string (c # d # s) =
     (if high_surrogate c \<and> low_surrogate d
      then utf8_octets (0x10000 + (unat c - 0xD800) * 1024 + (unat d - 0xDC00)) @ utf8_string s
      else utf8_unit c @ utf8_string (d # s))"

definition utf8_encode :: "js_string \<Rightarrow> bytes" where
  "utf8_encode s = map of_nat (utf8_string s)"

lemma utf8_ascii_unit: "c < 0x80 \<Longrightarrow> utf8_unit c = [unat c] \<and> \<not> high_surrogate c"
  by (auto simp: utf8_unit_def utf8_octets_def high_surrogate_def low_surrogate_def
      word_less_nat_alt word_le_nat_alt)

lemma utf8_string_ascii: "list_all (\<lambda>c. c < 0x80) s \<Longrightarrow> utf8_string s = map unat s"
  by (induction s rule: utf8_string.induct) (simp_all add: utf8_ascii_unit)

lemma utf8_encode_ascii:
  assumes "list_all (\<lambda>c. c < 0x80) s"
  shows "utf8_encode s = map ucast s" "map ucast (utf8_encode s) = s"
proof -
  show e: "utf8_encode s = map ucast s"
    using utf8_string_ascii [OF assms] by (simp add: utf8_encode_def)
  have "ucast (ucast c :: byte) = c" if "c < 0x80" for c :: js_char
    using that by (intro word_unat_eq_iff [THEN iffD2])
      (simp add: unsigned_ucast_eq unsigned_take_bit_eq take_bit_nat_eq_self word_less_nat_alt)
  with assms show "map ucast (utf8_encode s) = s"
    unfolding e by (simp add: list_all_iff map_idI)
qed

section \<open>Arrays and strings\<close>

text \<open>\<^verbatim>\<open>values.join(separator)\<close> and \<^verbatim>\<open>s.substr(from, n)\<close> inside the string.\<close>

fun js_join :: "js_string \<Rightarrow> js_string list \<Rightarrow> js_string" where
  "js_join separator [] = []"
| "js_join separator [v] = v"
| "js_join separator (v # vs) = v @ separator @ js_join separator vs"

definition js_substr :: "js_string \<Rightarrow> nat \<Rightarrow> nat \<Rightarrow> js_string" where
  "js_substr s from n = take n (drop from s)"

end
