(* ===== verification/Codes.thy ===== *)
theory Codes
  imports Prelude
begin

text \<open>
  \<^verbatim>\<open>client/grpc-web/src/Code.ts\<close>: the gRPC status codes and the code that stands for an
  HTTP status when the server sent no \<^verbatim>\<open>grpc-status\<close>.
\<close>

datatype Code =
    OK | Canceled | Unknown | InvalidArgument | DeadlineExceeded | NotFound | AlreadyExists
  | PermissionDenied | ResourceExhausted | FailedPrecondition | Aborted | OutOfRange
  | Unimplemented | Internal | Unavailable | DataLoss | Unauthenticated

text \<open>The number of each member of the enumeration.\<close>

fun code_num :: "Code \<Rightarrow> nat" where
  "code_num OK = 0"
| "code_num Canceled = 1"
| "code_num Unknown = 2"
| "code_num InvalidArgument = 3"
| "code_num DeadlineExceeded = 4"
| "code_num NotFound = 5"
| "code_num AlreadyExists = 6"
| "code_num PermissionDenied = 7"
| "code_num ResourceExhausted = 8"
| "code_num FailedPrecondition = 9"
| "code_num Aborted = 10"
| "code_num OutOfRange = 11"
| "code_num Unimplemented = 12"
| "code_num Internal = 13"
| "code_num Unavailable = 14"
| "code_num DataLoss = 15"
| "code_num Unauthenticated = 16"

definition httpStatusToCode :: "int \<Rightarrow> Code" where
  "httpStatusToCode httpStatus =
     (if httpStatus = 0 then Internal
      else if httpStatus = 200 then OK
      else if httpStatus = 400 then InvalidArgument
      else if httpStatus = 401 then Unauthenticated
      else if httpStatus = 403 then PermissionDenied
      else if httpStatus = 404 then NotFound
      else if httpStatus = 409 then Aborted
      else if httpStatus = 412 then FailedPrecondition
      else if httpStatus = 429 then ResourceExhausted
      else if httpStatus = 499 then Canceled
      else if httpStatus = 500 then Unknown
      else if httpStatus = 501 then Unimplemented
      else if httpStatus = 503 then Unavailable
      else if httpStatus = 504 then DeadlineExceeded
      else Unknown)"

lemma code_num_inj [simp]: "code_num a = code_num b \<longleftrightarrow> a = b"
  by (cases a; cases b) simp_all

lemma code_num_bound: "code_num c \<le> 16"
  by (cases c) simp_all

text \<open>Codes are compared by their number, as the enumeration's members are.\<close>

instantiation Code :: linorder
begin

definition less_eq_Code :: "Code \<Rightarrow> Code \<Rightarrow> bool" where
  "less_eq_Code a b \<longleftrightarrow> code_num a \<le> code_num b"

definition less_Code :: "Code \<Rightarrow> Code \<Rightarrow> bool" where
  "less_Code a b \<longleftrightarrow> code_num a < code_num b"

instance
  by standard (auto simp: less_eq_Code_def less_Code_def)

end

lemma httpStatusToCode_OK: "httpStatusToCode s = OK \<longleftrightarrow> s = 200"
  by (simp add: httpStatusToCode_def)

end
