(* ===== verification/Util.thy ===== *)
theory Util
  imports Frames
begin

text \<open>
  \<^verbatim>\<open>client/grpc-web/src/util.ts\<close>: how a request message is put into a frame.  The
  message class is generated code, so its \<^verbatim>\<open>serializeBinary\<close> is a parameter that may
  throw.
\<close>

definition frame_message :: "bytes \<Rightarrow> bytes" where
  "frame_message bytes =
     (let frame = new_buffer (length bytes + 5);
          frame = setUint32 frame (1 + 0) (of_nat (length bytes))
      in set_bytes frame 5 bytes)"

definition frameRequest :: "('req \<Rightarrow> bytes result) \<Rightarrow> 'req \<Rightarrow> bytes result" where
  "frameRequest serializeBinary request =
     js_bind (serializeBinary request) (\<lambda>bytes. Inr (frame_message bytes))"

lemma frame_message_eq: "frame_message bytes = frame_bytes (0, bytes)"
proof -
  have "new_buffer (length bytes + 5) = [0, 0, 0, 0, 0] @ new_buffer (length bytes)"
    by (simp add: new_buffer_def replicate_add numeral_eq_Suc)
  then show ?thesis
    by (simp add: frame_message_def frame_bytes_def setUint32_def set_bytes_def be32_bytes_def
        new_buffer_def numeral_eq_Suc)
qed

lemma message_frame_plain [simp]: "\<not> is_trailer (0, d)"
  by (simp add: is_trailer_def)

text \<open>The request frames form a codec for the wire format.\<close>

interpretation request_codec:
  frame_codec frame_message next_frame "\<lambda>d. (0, d)" "\<lambda>d. length d < 2 ^ 32"
  by unfold_locales
    (simp add: frame_message_eq grpc_codec.dec_enc short_frame_def)

section \<open>Properties\<close>

text \<open>
  A framed request is read back, in front of any further bytes, as one message frame with
  exactly the serialized bytes; so a stream of framed requests is uniquely decodable.
\<close>

theorem frame_request_round_trip:
  assumes "frameRequest serializeBinary request = Inr frame"
    and "serializeBinary request = Inr b" "length b < 2 ^ 32"
  shows "next_frame (frame @ rest) = Some ((0, b), rest)"
  using assms request_codec.dec_enc [of b rest] by (simp add: frameRequest_def)

theorem frame_request_round_trip_witness:
  "next_frame ([0, 0, 0, 0, 2, 8, 1] @ [9]) = Some ((0, [8, 1]), [9])"
proof -
  have "frameRequest Inr [8, 1] = Inr [0, 0, 0, 0, 2, 8, 1]" by code_simp
  from frame_request_round_trip [OF this, of "[8, 1]" "[9]"] show ?thesis by simp
qed

end
