(* ===== verification/Client.thy ===== *)
theory Client
  imports ChunkParser JsStdlib Codes Util
begin

text \<open>
  \<^verbatim>\<open>client/grpc-web/src/client.ts\<close>: the state of a \<^verbatim>\<open>GrpcClient\<close>, the methods the user
  calls, the handlers the transport calls, and the callbacks the user registers.

  The transport is a state of type \<open>'t\<close> and one function that says what a call on it does.
  A callback is a name; its body, given the event and the user's own state, is a list of
  the calls it makes on the client, which stops at the first that throws.  So a callback
  may close the client, send or register further callbacks while the client is still
  iterating over its callbacks.  The field \<open>trace\<close> records, in order, the calls on the
  transport, the callback invocations and the errors deferred with \<^verbatim>\<open>setTimeout\<close>.
  Console output under \<^verbatim>\<open>props.debug\<close> is not modelled.
\<close>

section \<open>Data\<close>

datatype 'm tcall = TStart 'm | TSend bytes | TFinish | TCancel

datatype ('m, 'res) cb_event = HeadersEv 'm | MessageEv 'res | EndEv js_num js_string 'm

datatype ('m, 'res, 'cb) obs =
    Called "'m tcall"
  | Notified 'cb "('m, 'res) cb_event"
  | Deferred js_error

datatype ('a, 'req, 'cb) action =
    Start "'a option"
  | Send 'req
  | FinishSend
  | Close
  | OnHeaders 'cb
  | OnMessage 'cb
  | OnEnd 'cb
  | Throw js_error

text \<open>\<^verbatim>\<open>service.ts\<close>, \<^verbatim>\<open>message.ts\<close>: a method definition and its generated message classes.\<close>

record ('req, 'res) method_definition =
  methodName :: js_string
  serviceName :: js_string
  requestStream :: bool
  responseStream :: bool
  serializeBinary :: "'req \<Rightarrow> bytes result"
  deserializeBinary :: "bytes \<Rightarrow> 'res result"

record ('m, 'a, 'req, 'res, 'cb, 'u, 't) env =
  metadata :: "('m, 'a) metadata_ops"
  hasSlice :: bool
  methodDefinition :: "('req, 'res) method_definition"
  transportCall :: "'m tcall \<Rightarrow> 't \<Rightarrow> js_error option \<times> 't"
  callback :: "'cb \<Rightarrow> ('m, 'res) cb_event \<Rightarrow> 'u \<Rightarrow> 'u \<times> ('a, 'req, 'cb) action list"

record ('m, 'res, 'cb, 'u, 't) client =
  started :: bool
  sentFirstMessage :: bool
  completed :: bool
  closed :: bool
  finishedSending :: bool
  onHeadersCallbacks :: "'cb list"
  onMessageCallbacks :: "'cb list"
  onEndCallbacks :: "'cb list"
  transport :: 't
  chunkParser :: parser
  responseHeaders :: "'m option"
  responseTrailers :: "'m option"
  trace :: "('m, 'res, 'cb) obs list"
  user :: 'u

section \<open>Construction\<close>

definition request_url :: "js_string \<Rightarrow> ('req, 'res) method_definition \<Rightarrow> js_string" where
  "request_url host md = host @ js ''/'' @ serviceName md @ js ''/'' @ methodName md"

text \<open>
  The transport comes from the factory in the options, or from the default factory that
  \<^verbatim>\<open>setDefaultTransportFactory\<close> of \<^verbatim>\<open>Transport.ts\<close> last stored; either may throw.
\<close>

definition createTransport ::
  "(js_string \<Rightarrow> 't result) option \<Rightarrow> (js_string \<Rightarrow> 't result) \<Rightarrow> js_string
     \<Rightarrow> ('req, 'res) method_definition \<Rightarrow> 't result"
where
  "createTransport transportProp defaultFactory host md =
     (let url = request_url host md in
      case transportProp of Some factory \<Rightarrow> factory url | None \<Rightarrow> defaultFactory url)"

definition new_client :: "'t \<Rightarrow> 'u \<Rightarrow> ('m, 'res, 'cb, 'u, 't) client" where
  "new_client t u =
     \<lparr>started = False, sentFirstMessage = False, completed = False, closed = False,
      finishedSending = False, onHeadersCallbacks = [], onMessageCallbacks = [],
      onEndCallbacks = [], transport = t, chunkParser = new_ChunkParser,
      responseHeaders = None, responseTrailers = None, trace = [], user = u\<rparr>"

definition new_GrpcClient ::
  "(js_string \<Rightarrow> 't result) option \<Rightarrow> (js_string \<Rightarrow> 't result) \<Rightarrow> js_string
     \<Rightarrow> ('req, 'res) method_definition \<Rightarrow> 'u \<Rightarrow> ('m, 'res, 'cb, 'u, 't) client result"
where
  "new_GrpcClient transportProp defaultFactory host md u =
     js_bind (createTransport transportProp defaultFactory host md) (\<lambda>t. Inr (new_client t u))"

section \<open>Status of a response\<close>

definition first :: "'x list \<Rightarrow> 'x option" where
  "first xs = (case xs of [] \<Rightarrow> None | x # _ \<Rightarrow> Some x)"

definition getStatusFromHeaders :: "('m, 'a) metadata_ops \<Rightarrow> 'm \<Rightarrow> js_num option" where
  "getStatusFromHeaders M headers =
     (case md_get M headers (js ''grpc-status'') of
        [] \<Rightarrow> None
      | asString # _ \<Rightarrow> Some (parseInt asString))"

definition decodeGRPCStatus :: "js_string option \<Rightarrow> js_string" where
  "decodeGRPCStatus src =
     (case src of
        None \<Rightarrow> []
      | Some s \<Rightarrow>
          if s \<noteq> [] then (case decodeURIComponent s of Some r \<Rightarrow> r | None \<Rightarrow> s) else [])"

definition code :: "Code \<Rightarrow> js_num" where
  "code c = Num (int (code_num c))"

text \<open>\<^verbatim>\<open>gRPCStatus && gRPCStatus >= 0 ? gRPCStatus : httpStatusToCode(status)\<close>: 0 and NaN are falsy.\<close>

definition headers_code :: "js_num option \<Rightarrow> int \<Rightarrow> js_num" where
  "headers_code gRPCStatus status =
     (case gRPCStatus of
        Some (Num n) \<Rightarrow> if n \<noteq> 0 \<and> n \<ge> 0 then Num n else code (httpStatusToCode status)
      | _ \<Rightarrow> code (httpStatusToCode status))"

section \<open>Methods the user calls\<close>

text \<open>Each returns what it threw, if it did, and the new state.\<close>

definition call_transport ::
  "('m, 'a, 'req, 'res, 'cb, 'u, 't) env \<Rightarrow> 'm tcall \<Rightarrow> ('m, 'res, 'cb, 'u, 't) client
     \<Rightarrow> js_error option \<times> ('m, 'res, 'cb, 'u, 't) client"
where
  "call_transport E x c =
     (case transportCall E x (transport c) of
        (e, t) \<Rightarrow> (e, c\<lparr>transport := t, trace := trace c @ [Called x]\<rparr>))"

definition start ::
  "('m, 'a, 'req, 'res, 'cb, 'u, 't) env \<Rightarrow> 'a option \<Rightarrow> ('m, 'res, 'cb, 'u, 't) client
     \<Rightarrow> js_error option \<times> ('m, 'res, 'cb, 'u, 't) client"
where
  "start E arg c =
     (if started c then (Some (Error (js ''Client already started - cannot .start()'')), c)
      else
        let c = c\<lparr>started := True\<rparr>;
            M = metadata E
        in case (case arg of None \<Rightarrow> Inr (md_of_obj M []) | Some a \<Rightarrow> md_of_arg M a) of
             Inl e \<Rightarrow> (Some e, c)
           | Inr requestHeaders \<Rightarrow>
               let requestHeaders =
                     md_set M requestHeaders (js ''content-type'') (js ''application/grpc-web+proto'');
                   requestHeaders = md_set M requestHeaders (js ''x-grpc-web'') (js ''1'')
               in call_transport E (TStart requestHeaders) c)"

definition send ::
  "('m, 'a, 'req, 'res, 'cb, 'u, 't) env \<Rightarrow> 'req \<Rightarrow> ('m, 'res, 'cb, 'u, 't) client
     \<Rightarrow> js_error option \<times> ('m, 'res, 'cb, 'u, 't) client"
where
  "send E msg c =
     (if \<not> started c
      then (Some (Error (js ''Client not started - .start() must be called before .send()'')), c)
      else if closed c
      then (Some (Error (js ''Client already closed - cannot .send()'')), c)
      else if finishedSending c
      then (Some (Error (js ''Client already finished sending - cannot .send()'')), c)
      else if \<not> requestStream (methodDefinition E) \<and> sentFirstMessage c
      then (Some (Error (js ''Message already sent for non-client-streaming method - cannot .send()'')), c)
      else
        let c = c\<lparr>sentFirstMessage := True\<rparr> in
        case frameRequest (serializeBinary (methodDefinition E)) msg of
          Inl e \<Rightarrow> (Some e, c)
        | Inr msgBytes \<Rightarrow> call_transport E (TSend msgBytes) c)"

definition finishSend ::
  "('m, 'a, 'req, 'res, 'cb, 'u, 't) env \<Rightarrow> ('m, 'res, 'cb, 'u, 't) client
     \<Rightarrow> js_error option \<times> ('m, 'res, 'cb, 'u, 't) client"
where
  "finishSend E c =
     (if \<not> started c
      then (Some (Error (js ''Client not started - .finishSend() must be called before .close()'')), c)
      else if closed c
      then (Some (Error (js ''Client already closed - cannot .send()'')), c)
      else if finishedSending c
      then (Some (Error (js ''Client already finished sending - cannot .finishSend()'')), c)
      else call_transport E TFinish (c\<lparr>finishedSending := True\<rparr>))"

definition close ::
  "('m, 'a, 'req, 'res, 'cb, 'u, 't) env \<Rightarrow> ('m, 'res, 'cb, 'u, 't) client
     \<Rightarrow> js_error option \<times> ('m, 'res, 'cb, 'u, 't) client"
where
  "close E c =
     (if \<not> started c
      then (Some (Error (js ''Client not started - .start() must be called before .close()'')), c)
      else if \<not> closed c then call_transport E TCancel (c\<lparr>closed := True\<rparr>)
      else (Some (Error (js ''Client already closed - cannot .close()'')), c))"

definition onHeaders :: "'cb \<Rightarrow> ('m, 'res, 'cb, 'u, 't) client \<Rightarrow> ('m, 'res, 'cb, 'u, 't) client" where
  "onHeaders cb c = c\<lparr>onHeadersCallbacks := onHeadersCallbacks c @ [cb]\<rparr>"

definition onMessage :: "'cb \<Rightarrow> ('m, 'res, 'cb, 'u, 't) client \<Rightarrow> ('m, 'res, 'cb, 'u, 't) client" where
  "onMessage cb c = c\<lparr>onMessageCallbacks := onMessageCallbacks c @ [cb]\<rparr>"

definition onEnd :: "'cb \<Rightarrow> ('m, 'res, 'cb, 'u, 't) client \<Rightarrow> ('m, 'res, 'cb, 'u, 't) client" where
  "onEnd cb c = c\<lparr>onEndCallbacks := onEndCallbacks c @ [cb]\<rparr>"

fun run_action ::
  "('m, 'a, 'req, 'res, 'cb, 'u, 't) env \<Rightarrow> ('a, 'req, 'cb) action
     \<Rightarrow> ('m, 'res, 'cb, 'u, 't) client \<Rightarrow> js_error option \<times> ('m, 'res, 'cb, 'u, 't) client"
where
  "run_action E (Start arg) c = start E arg c"
| "run_action E (Send msg) c = send E msg c"
| "run_action E FinishSend c = finishSend E c"
| "run_action E Close c = close E c"
| "run_action E (OnHeaders cb) c = (None, onHeaders cb c)"
| "run_action E (OnMessage cb) c = (None, onMessage cb c)"
| "run_action E (OnEnd cb) c = (None, onEnd cb c)"
| "run_action E (Throw e) c = (Some e, c)"

fun run_actions ::
  "('m, 'a, 'req, 'res, 'cb, 'u, 't) env \<Rightarrow> ('a, 'req, 'cb) action list
     \<Rightarrow> ('m, 'res, 'cb, 'u, 't) client \<Rightarrow> js_error option \<times> ('m, 'res, 'cb, 'u, 't) client"
where
  "run_actions E [] c = (None, c)"
| "run_actions E (a # as) c =
     (case run_action E a c of
        (Some e, c') \<Rightarrow> (Some e, c')
      | (None, c') \<Rightarrow> run_actions E as c')"

section \<open>Calling the callbacks\<close>

text \<open>\<^verbatim>\<open>try { callback(...) } catch (e) { setTimeout(() => { throw e; }, 0) }\<close>.\<close>

definition invoke_callback ::
  "('m, 'a, 'req, 'res, 'cb, 'u, 't) env \<Rightarrow> ('m, 'res) cb_event \<Rightarrow> 'cb
     \<Rightarrow> ('m, 'res, 'cb, 'u, 't) client \<Rightarrow> ('m, 'res, 'cb, 'u, 't) client"
where
  "invoke_callback E ev cb c =
     (let (u, as) = callback E cb ev (user c) in
      case run_actions E as (c\<lparr>trace := trace c @ [Notified cb ev], user := u\<rparr>) of
        (None, c') \<Rightarrow> c'
      | (Some e, c') \<Rightarrow> c'\<lparr>trace := trace c' @ [Deferred e]\<rparr>)"

text \<open>
  \<^verbatim>\<open>callbacks.forEach(callback => { if (this.closed) return; try ... })\<close>; callbacks that a
  callback appends are not visited.  \<^verbatim>\<open>rawOnHeaders\<close> has no test of \<^verbatim>\<open>closed\<close>.
\<close>

definition invoke_unless_closed ::
  "('m, 'a, 'req, 'res, 'cb, 'u, 't) env \<Rightarrow> ('m, 'res) cb_event \<Rightarrow> 'cb
     \<Rightarrow> ('m, 'res, 'cb, 'u, 't) client \<Rightarrow> ('m, 'res, 'cb, 'u, 't) client"
where
  "invoke_unless_closed E ev cb c = (if closed c then c else invoke_callback E ev cb c)"

definition rawOnEnd ::
  "('m, 'a, 'req, 'res, 'cb, 'u, 't) env \<Rightarrow> js_num \<Rightarrow> js_string \<Rightarrow> 'm
     \<Rightarrow> ('m, 'res, 'cb, 'u, 't) client \<Rightarrow> ('m, 'res, 'cb, 'u, 't) client"
where
  "rawOnEnd E cd msg trailers c =
     (if completed c then c
      else fold (invoke_unless_closed E (EndEv cd msg trailers)) (onEndCallbacks c)
             (c\<lparr>completed := True\<rparr>))"

definition rawOnHeaders ::
  "('m, 'a, 'req, 'res, 'cb, 'u, 't) env \<Rightarrow> 'm
     \<Rightarrow> ('m, 'res, 'cb, 'u, 't) client \<Rightarrow> ('m, 'res, 'cb, 'u, 't) client"
where
  "rawOnHeaders E headers c =
     (if completed c then c
      else fold (invoke_callback E (HeadersEv headers)) (onHeadersCallbacks c) c)"

definition rawOnError ::
  "('m, 'a, 'req, 'res, 'cb, 'u, 't) env \<Rightarrow> js_num \<Rightarrow> js_string \<Rightarrow> 'm
     \<Rightarrow> ('m, 'res, 'cb, 'u, 't) client \<Rightarrow> ('m, 'res, 'cb, 'u, 't) client"
where
  "rawOnError E cd msg trailers c =
     (if completed c then c
      else fold (invoke_unless_closed E (EndEv cd msg trailers)) (onEndCallbacks c)
             (c\<lparr>completed := True\<rparr>))"

definition rawOnMessage ::
  "('m, 'a, 'req, 'res, 'cb, 'u, 't) env \<Rightarrow> 'res
     \<Rightarrow> ('m, 'res, 'cb, 'u, 't) client \<Rightarrow> ('m, 'res, 'cb, 'u, 't) client"
where
  "rawOnMessage E res c =
     (if completed c \<or> closed c then c
      else fold (invoke_unless_closed E (MessageEv res)) (onMessageCallbacks c) c)"

section \<open>Handlers the transport calls\<close>

definition onTransportHeaders ::
  "('m, 'a, 'req, 'res, 'cb, 'u, 't) env \<Rightarrow> 'm \<Rightarrow> int
     \<Rightarrow> ('m, 'res, 'cb, 'u, 't) client \<Rightarrow> ('m, 'res, 'cb, 'u, 't) client"
where
  "onTransportHeaders E headers status c =
     (if closed c then c
      else if status = 0 then c
      else
        let M = metadata E;
            c = c\<lparr>responseHeaders := Some headers\<rparr>;
            gRPCStatus = getStatusFromHeaders M headers;
            cd = headers_code gRPCStatus status;
            gRPCMessage = md_get M headers (js ''grpc-message'');
            c = rawOnHeaders E headers c
        in if cd \<noteq> code OK
           then rawOnError E cd (decodeGRPCStatus (first gRPCMessage)) headers c
           else c)"

fun handle_chunks ::
  "('m, 'a, 'req, 'res, 'cb, 'u, 't) env \<Rightarrow> 'm chunk list \<Rightarrow> ('m, 'res, 'cb, 'u, 't) client
     \<Rightarrow> js_error option \<times> ('m, 'res, 'cb, 'u, 't) client"
where
  "handle_chunks E [] c = (None, c)"
| "handle_chunks E (MESSAGE d # ds) c =
     (case deserializeBinary (methodDefinition E) d of
        Inl e \<Rightarrow> (Some e, c)
      | Inr deserialized \<Rightarrow> handle_chunks E ds (rawOnMessage E deserialized c))"
| "handle_chunks E (TRAILERS t # ds) c =
     handle_chunks E ds
       (case responseHeaders c of
          None \<Rightarrow>
            (let hs = md_copy (metadata E) t
             in rawOnHeaders E hs (c\<lparr>responseHeaders := Some hs\<rparr>))
        | Some _ \<Rightarrow> c\<lparr>responseTrailers := Some (md_copy (metadata E) t)\<rparr>)"

definition onTransportChunk ::
  "('m, 'a, 'req, 'res, 'cb, 'u, 't) env \<Rightarrow> bytes \<Rightarrow> ('m, 'res, 'cb, 'u, 't) client
     \<Rightarrow> js_error option \<times> ('m, 'res, 'cb, 'u, 't) client"
where
  "onTransportChunk E chunkBytes c =
     (if closed c then (None, c)
      else
        case parse (metadata E) (hasSlice E) chunkBytes False (chunkParser c) of
          (Inl e, p) \<Rightarrow>
            (None, rawOnError E (code Internal) (js ''parsing error: '' @ message e)
                     (md_of_obj (metadata E) []) (c\<lparr>chunkParser := p\<rparr>))
        | (Inr data, p) \<Rightarrow> handle_chunks E data (c\<lparr>chunkParser := p\<rparr>))"

definition onTransportEnd ::
  "('m, 'a, 'req, 'res, 'cb, 'u, 't) env
     \<Rightarrow> ('m, 'res, 'cb, 'u, 't) client \<Rightarrow> ('m, 'res, 'cb, 'u, 't) client"
where
  "onTransportEnd E c =
     (let M = metadata E in
      if closed c then c
      else
        case responseTrailers c of
          None \<Rightarrow>
            (case responseHeaders c of
               None \<Rightarrow>
                 rawOnError E (code Unknown) (js ''Response closed without headers'')
                   (md_of_obj M []) c
             | Some hs \<Rightarrow>
                 (case getStatusFromHeaders M hs of
                    None \<Rightarrow>
                      rawOnEnd E (code Unknown)
                        (js ''Response closed without grpc-status (Headers only)'') hs c
                  | Some grpcStatus \<Rightarrow>
                      rawOnEnd E grpcStatus
                        (decodeGRPCStatus (first (md_get M hs (js ''grpc-message'')))) hs c))
        | Some ts \<Rightarrow>
            (case getStatusFromHeaders M ts of
               None \<Rightarrow>
                 rawOnError E (code Internal)
                   (js ''Response closed without grpc-status (Trailers provided)'')
                   (md_of_obj M []) c
             | Some grpcStatus \<Rightarrow>
                 rawOnEnd E grpcStatus
                   (decodeGRPCStatus (first (md_get M ts (js ''grpc-message'')))) ts c))"

section \<open>Runs\<close>

text \<open>
  The client's inputs in any order: calls of the user from outside any callback, and calls
  of the transport.  A thrown error goes to whoever made the call and is not part of the
  next state.
\<close>

datatype ('m, 'a, 'req, 'cb) input =
    Api "('a, 'req, 'cb) action"
  | TransportHeaders 'm int
  | TransportChunk bytes
  | TransportEnd

fun step ::
  "('m, 'a, 'req, 'res, 'cb, 'u, 't) env \<Rightarrow> ('m, 'a, 'req, 'cb) input
     \<Rightarrow> ('m, 'res, 'cb, 'u, 't) client \<Rightarrow> ('m, 'res, 'cb, 'u, 't) client"
where
  "step E (Api a) c = snd (run_action E a c)"
| "step E (TransportHeaders headers status) c = onTransportHeaders E headers status c"
| "step E (TransportChunk chunkBytes) c = snd (onTransportChunk E chunkBytes c)"
| "step E TransportEnd c = onTransportEnd E c"

definition run ::
  "('m, 'a, 'req, 'res, 'cb, 'u, 't) env \<Rightarrow> ('m, 'a, 'req, 'cb) input list
     \<Rightarrow> ('m, 'res, 'cb, 'u, 't) client \<Rightarrow> ('m, 'res, 'cb, 'u, 't) client"
where
  "run E is c = fold (step E) is c"

end
