(* ===== verification/Client_Steps.thy ===== *)
theory Client_Steps
  imports Client
begin

text \<open>
  Every handler and every method of the client is a sequence of a few kinds of elementary
  steps (\<open>micro\<close>): a method call, one callback invocation, one assignment to a field.  A
  predicate that each elementary step preserves holds after every run, however the
  callbacks call back into the client; that is the locale \<open>client_invariant\<close>, which the
  client's invariants interpret.
\<close>

section \<open>What the methods leave unchanged\<close>

lemmas method_defs =
  start_def send_def finishSend_def close_def onHeaders_def onMessage_def onEnd_def
  call_transport_def

lemma call_transport_fields [flag_simps]:
  "started (snd (call_transport E x c)) = started c"
  "sentFirstMessage (snd (call_transport E x c)) = sentFirstMessage c"
  "completed (snd (call_transport E x c)) = completed c"
  "closed (snd (call_transport E x c)) = closed c"
  "finishedSending (snd (call_transport E x c)) = finishedSending c"
  "onHeadersCallbacks (snd (call_transport E x c)) = onHeadersCallbacks c"
  "onMessageCallbacks (snd (call_transport E x c)) = onMessageCallbacks c"
  "onEndCallbacks (snd (call_transport E x c)) = onEndCallbacks c"
  "chunkParser (snd (call_transport E x c)) = chunkParser c"
  "responseHeaders (snd (call_transport E x c)) = responseHeaders c"
  "responseTrailers (snd (call_transport E x c)) = responseTrailers c"
  "user (snd (call_transport E x c)) = user c"
  "trace (snd (call_transport E x c)) = trace c @ [Called x]"
  "transport (snd (call_transport E x c)) = snd (transportCall E x (transport c))"
  by (simp_all add: call_transport_def split: prod.splits)

text \<open>
  A method either throws one of its guards' errors and changes nothing, or sets its flag
  and makes at most one call on the transport.  The cases of \<open>run_action\<close> that matter to
  the invariants, as one disjunction.
\<close>

lemma start_cases:
  obtains (refused) e where "started c" "start E arg c = (Some e, c)"
  | (bad_metadata) e a where "\<not> started c" "arg = Some a" "md_of_arg (metadata E) a = Inl e"
      "start E arg c = (Some e, c\<lparr>started := True\<rparr>)"
  | (started) m where "\<not> started c"
      "start E arg c = call_transport E (TStart m) (c\<lparr>started := True\<rparr>)"
proof (cases "started c")
  case True
  then show thesis by (intro refused) (simp_all add: start_def)
next
  case False
  show thesis
  proof (cases arg)
    case None
    with False show thesis by (intro started) (simp_all add: start_def Let_def)
  next
    case (Some a)
    with False show thesis
      by (cases "md_of_arg (metadata E) a")
        (auto simp: start_def Let_def intro: bad_metadata started)
  qed
qed

lemma send_cases:
  obtains (refused) e where "send E msg c = (Some e, c)"
    "\<not> started c \<or> closed c \<or> finishedSending c \<or>
     \<not> requestStream (methodDefinition E) \<and> sentFirstMessage c"
  | (unserializable) e where "started c" "\<not> closed c" "\<not> finishedSending c"
      "requestStream (methodDefinition E) \<or> \<not> sentFirstMessage c"
      "send E msg c = (Some e, c\<lparr>sentFirstMessage := True\<rparr>)"
  | (sent) b where "started c" "\<not> closed c" "\<not> finishedSending c"
      "requestStream (methodDefinition E) \<or> \<not> sentFirstMessage c"
      "frameRequest (serializeBinary (methodDefinition E)) msg = Inr b"
      "send E msg c = call_transport E (TSend b) (c\<lparr>sentFirstMessage := True\<rparr>)"
proof -
  let ?unary = "\<not> requestStream (methodDefinition E) \<and> sentFirstMessage c"
  consider "\<not> started c" | "started c" "closed c"
    | "started c" "\<not> closed c" "finishedSending c"
    | "started c" "\<not> closed c" "\<not> finishedSending c" "?unary"
    | "started c" "\<not> closed c" "\<not> finishedSending c" "\<not> ?unary"
    by blast
  then show thesis
  proof cases
    case 5
    then show thesis
      by (cases "frameRequest (serializeBinary (methodDefinition E)) msg")
        (auto simp: send_def Let_def intro: unserializable sent)
  qed (use refused in \<open>simp_all add: send_def\<close>)
qed

lemma finishSend_cases:
  obtains (refused) e where "finishSend E c = (Some e, c)"
    "\<not> started c \<or> closed c \<or> finishedSending c"
  | (finished) "started c" "\<not> closed c" "\<not> finishedSending c"
      "finishSend E c = call_transport E TFinish (c\<lparr>finishedSending := True\<rparr>)"
  by (cases "started c"; cases "closed c"; cases "finishedSending c")
    (use that in \<open>simp_all add: finishSend_def\<close>)

lemma close_cases:
  obtains (refused) e where "close E c = (Some e, c)" "\<not> started c \<or> closed c"
  | (closed) "started c" "\<not> closed c"
      "close E c = call_transport E TCancel (c\<lparr>closed := True\<rparr>)"
  by (cases "started c"; cases "closed c") (use that in \<open>simp_all add: close_def\<close>)

lemma run_action_fields [flag_simps]:
  "completed (snd (run_action E a c)) = completed c"
  "chunkParser (snd (run_action E a c)) = chunkParser c"
  "responseHeaders (snd (run_action E a c)) = responseHeaders c"
  "responseTrailers (snd (run_action E a c)) = responseTrailers c"
  "user (snd (run_action E a c)) = user c"
  by (cases a; simp add: method_defs Let_def split: sum.split prod.split option.split)+

section \<open>Elementary steps\<close>

fun allowed :: "('m, 'res) cb_event \<Rightarrow> ('m, 'res, 'cb, 'u, 't) client \<Rightarrow> bool" where
  "allowed (HeadersEv _) c \<longleftrightarrow> \<not> completed c"
| "allowed (MessageEv _) c \<longleftrightarrow> \<not> completed c \<and> \<not> closed c"
| "allowed (EndEv _ _ _) c \<longleftrightarrow> completed c \<and> \<not> closed c"

text \<open>The calls of a callback's body, from the state in which it is entered.\<close>

definition entered ::
  "('m, 'a, 'req, 'res, 'cb, 'u, 't) env \<Rightarrow> ('m, 'res) cb_event \<Rightarrow> 'cb
     \<Rightarrow> ('m, 'res, 'cb, 'u, 't) client \<Rightarrow> ('m, 'res, 'cb, 'u, 't) client"
where
  "entered E ev cb c =
     c\<lparr>trace := trace c @ [Notified cb ev], user := fst (callback E cb ev (user c))\<rparr>"

lemma entered_fields [flag_simps]:
  "started (entered E ev cb c) = started c"
  "sentFirstMessage (entered E ev cb c) = sentFirstMessage c"
  "completed (entered E ev cb c) = completed c"
  "closed (entered E ev cb c) = closed c"
  "finishedSending (entered E ev cb c) = finishedSending c"
  "onHeadersCallbacks (entered E ev cb c) = onHeadersCallbacks c"
  "onMessageCallbacks (entered E ev cb c) = onMessageCallbacks c"
  "onEndCallbacks (entered E ev cb c) = onEndCallbacks c"
  "transport (entered E ev cb c) = transport c"
  "chunkParser (entered E ev cb c) = chunkParser c"
  "responseHeaders (entered E ev cb c) = responseHeaders c"
  "responseTrailers (entered E ev cb c) = responseTrailers c"
  "trace (entered E ev cb c) = trace c @ [Notified cb ev]"
  "user (entered E ev cb c) = fst (callback E cb ev (user c))"
  by (simp_all add: entered_def)

text \<open>
  \<open>P\<close> says which methods the callbacks of interest call; \<open>callbacks_in\<close> that all the
  registered bodies keep to it.
\<close>

definition callbacks_in ::
  "('m, 'a, 'req, 'res, 'cb, 'u, 't) env \<Rightarrow> (('a, 'req, 'cb) action \<Rightarrow> bool) \<Rightarrow> bool"
where
  "callbacks_in E P \<longleftrightarrow> (\<forall>cb ev u. list_all P (snd (callback E cb ev u)))"

abbreviation any_action :: "('a, 'req, 'cb) action \<Rightarrow> bool" where
  "any_action \<equiv> \<lambda>_. True"

lemma callbacks_in_any [simp]: "callbacks_in E any_action"
  by (simp add: callbacks_in_def list_all_iff)

inductive micro ::
  "('m, 'a, 'req, 'res, 'cb, 'u, 't) env \<Rightarrow> (('a, 'req, 'cb) action \<Rightarrow> bool)
     \<Rightarrow> ('m, 'res, 'cb, 'u, 't) client \<Rightarrow> ('m, 'res, 'cb, 'u, 't) client \<Rightarrow> bool"
  for E P
where
  api: "P a \<Longrightarrow> micro E P c (snd (run_action E a c))"
| notify: "allowed ev c \<Longrightarrow> micro E P c (entered E ev cb c)"
| deferred: "micro E P c (c\<lparr>trace := trace c @ [Deferred e]\<rparr>)"
| complete: "\<not> completed c \<Longrightarrow> micro E P c (c\<lparr>completed := True\<rparr>)"
| headers: "micro E P c (c\<lparr>responseHeaders := h\<rparr>)"
| trailers: "micro E P c (c\<lparr>responseTrailers := t\<rparr>)"
| parsed: "micro E P c (c\<lparr>chunkParser := p\<rparr>)"

lemma run_actions_micro:
  "list_all P as \<Longrightarrow> (micro E P)\<^sup>*\<^sup>* c (snd (run_actions E as c))"
proof (induction as arbitrary: c)
  case Nil
  then show ?case by simp
next
  case (Cons a as)
  obtain r c1 where a: "run_action E a c = (r, c1)" by fastforce
  then have "micro E P c c1" using micro.api [of P a E c] Cons.prems by simp
  with a Cons.IH [of c1] Cons.prems show ?case
    by (cases r) (auto intro: converse_rtranclp_into_rtranclp)
qed

lemma run_actions_completed [flag_simps]: "completed (snd (run_actions E as c)) = completed c"
proof (induction as arbitrary: c)
  case (Cons a as)
  obtain r c1 where a: "run_action E a c = (r, c1)" by fastforce
  then have "completed c1 = completed c" using run_action_fields(1) [of E a c] by simp
  with a Cons.IH [of c1] show ?case by (cases r) simp_all
qed simp

lemma invoke_callback_cases:
  obtains (returned) c' where
      "run_actions E (snd (callback E cb ev (user c))) (entered E ev cb c) = (None, c')"
      "invoke_callback E ev cb c = c'"
  | (thrown) e c' where
      "run_actions E (snd (callback E cb ev (user c))) (entered E ev cb c) = (Some e, c')"
      "invoke_callback E ev cb c = c'\<lparr>trace := trace c' @ [Deferred e]\<rparr>"
proof -
  let ?r = "run_actions E (snd (callback E cb ev (user c))) (entered E ev cb c)"
  have eq: "invoke_callback E ev cb c =
      (case ?r of (None, c') \<Rightarrow> c' | (Some e, c') \<Rightarrow> c'\<lparr>trace := trace c' @ [Deferred e]\<rparr>)"
    by (cases "callback E cb ev (user c)") (simp add: invoke_callback_def entered_def)
  obtain r c' where "?r = (r, c')" by (cases ?r)
  with eq show thesis by (cases r) (simp_all add: returned thrown)
qed

lemma invoke_callback_completed [flag_simps]:
  "completed (invoke_callback E ev cb c) = completed c"
  by (rule invoke_callback_cases [of E cb ev c])
    (use run_actions_completed [of E "snd (callback E cb ev (user c))" "entered E ev cb c"]
      in \<open>simp_all add: flag_simps\<close>)

lemma invoke_unless_closed_completed [flag_simps]:
  "completed (invoke_unless_closed E ev cb c) = completed c"
  by (simp add: invoke_unless_closed_def flag_simps)

lemma invoke_callback_micro:
  assumes "callbacks_in E P" "allowed ev c"
  shows "(micro E P)\<^sup>*\<^sup>* c (invoke_callback E ev cb c)"
proof -
  from assms(2) have "micro E P c (entered E ev cb c)" by (rule micro.notify)
  then have star: "(micro E P)\<^sup>*\<^sup>* c
      (snd (run_actions E (snd (callback E cb ev (user c))) (entered E ev cb c)))"
    by (rule converse_rtranclp_into_rtranclp)
      (rule run_actions_micro, use assms(1) in \<open>simp add: callbacks_in_def\<close>)
  show ?thesis
    by (rule invoke_callback_cases [of E cb ev c])
      (use star in \<open>auto intro: rtranclp.rtrancl_into_rtrancl micro.deferred\<close>)
qed

lemma headers_fold_micro:
  assumes "callbacks_in E P"
  shows "\<not> completed c \<Longrightarrow> (micro E P)\<^sup>*\<^sup>* c (fold (invoke_callback E (HeadersEv m)) cbs c)"
proof (induction cbs arbitrary: c)
  case (Cons cb cbs)
  then have "(micro E P)\<^sup>*\<^sup>* c (invoke_callback E (HeadersEv m) cb c)"
    by (simp add: invoke_callback_micro assms)
  with Cons show ?case by (auto simp: flag_simps intro: rtranclp_trans)
qed simp

lemma guarded_fold_micro:
  assumes "callbacks_in E P"
    and "\<And>c :: ('m, 'res, 'cb, 'u, 't) client. completed c = b \<Longrightarrow> \<not> closed c \<Longrightarrow> allowed ev c"
  shows "completed c = b \<Longrightarrow>
    (micro E P)\<^sup>*\<^sup>* c (fold (invoke_unless_closed E ev) cbs (c :: ('m, 'res, 'cb, 'u, 't) client))"
proof (induction cbs arbitrary: c)
  case (Cons cb cbs)
  from Cons.prems assms have "(micro E P)\<^sup>*\<^sup>* c (invoke_unless_closed E ev cb c)"
    by (simp add: invoke_unless_closed_def invoke_callback_micro)
  with Cons show ?case by (auto simp: flag_simps intro: rtranclp_trans)
qed simp

lemma rawOnEnd_micro:
  assumes "callbacks_in E P"
  shows "(micro E P)\<^sup>*\<^sup>* c (rawOnEnd E cd msg m c)"
proof (cases "completed c")
  case False
  then have "micro E P c (c\<lparr>completed := True\<rparr>)" by (rule micro.complete)
  moreover have "(micro E P)\<^sup>*\<^sup>* (c\<lparr>completed := True\<rparr>)
      (fold (invoke_unless_closed E (EndEv cd msg m)) (onEndCallbacks c) (c\<lparr>completed := True\<rparr>))"
    by (rule guarded_fold_micro [OF assms, where b = True]) simp_all
  ultimately show ?thesis
    using False by (simp add: rawOnEnd_def converse_rtranclp_into_rtranclp)
qed (simp add: rawOnEnd_def)

lemma rawOnError_eq: "rawOnError E cd msg m c = rawOnEnd E cd msg m c"
  by (simp add: rawOnError_def rawOnEnd_def)

lemma rawOnHeaders_micro: "callbacks_in E P \<Longrightarrow> (micro E P)\<^sup>*\<^sup>* c (rawOnHeaders E m c)"
  by (simp add: rawOnHeaders_def headers_fold_micro)

lemma rawOnMessage_micro: "callbacks_in E P \<Longrightarrow> (micro E P)\<^sup>*\<^sup>* c (rawOnMessage E r c)"
  using guarded_fold_micro [of E P False "MessageEv r" c "onMessageCallbacks c"]
  by (auto simp: rawOnMessage_def)

lemma new_headers_micro:
  assumes "callbacks_in E P"
  shows "(micro E P)\<^sup>*\<^sup>* c (rawOnHeaders E h (c\<lparr>responseHeaders := x\<rparr>))"
  by (rule converse_rtranclp_into_rtranclp [OF micro.headers rawOnHeaders_micro [OF assms]])

lemma onTransportHeaders_micro:
  assumes "callbacks_in E P"
  shows "(micro E P)\<^sup>*\<^sup>* c (onTransportHeaders E h status c)"
  using new_headers_micro [OF assms, of c h "Some h"] rawOnEnd_micro [OF assms]
  by (auto simp: onTransportHeaders_def Let_def rawOnError_eq intro: rtranclp_trans)

lemma handle_chunks_micro:
  "callbacks_in E P \<Longrightarrow> (micro E P)\<^sup>*\<^sup>* c (snd (handle_chunks E ds c))"
proof (induction E ds c rule: handle_chunks.induct)
  case (1 E c)
  then show ?case by simp
next
  case (2 E d ds c)
  then show ?case
    by (cases "deserializeBinary (methodDefinition E) d")
      (auto intro: rtranclp_trans rawOnMessage_micro)
next
  case (3 E t ds c)
  have "(micro E P)\<^sup>*\<^sup>* c (c\<lparr>responseTrailers := Some ts\<rparr>)" for ts
    by (rule r_into_rtranclp [of "micro E P", OF micro.trailers])
  with 3 show ?case
    by (cases "responseHeaders c")
      (auto simp: Let_def intro: rtranclp_trans new_headers_micro)
qed

lemma onTransportChunk_micro:
  assumes "callbacks_in E P"
  shows "(micro E P)\<^sup>*\<^sup>* c (snd (onTransportChunk E b c))"
proof (cases "closed c")
  case False
  obtain r p where p: "parse (metadata E) (hasSlice E) b False (chunkParser c) = (r, p)"
    by fastforce
  have "micro E P c (c\<lparr>chunkParser := p\<rparr>)" by (rule micro.parsed)
  then have "(micro E P)\<^sup>*\<^sup>* c c'" if "(micro E P)\<^sup>*\<^sup>* (c\<lparr>chunkParser := p\<rparr>) c'" for c'
    using that by (rule converse_rtranclp_into_rtranclp)
  with False p show ?thesis
    by (cases r)
      (simp_all add: onTransportChunk_def rawOnError_eq rawOnEnd_micro handle_chunks_micro assms)
qed (simp add: onTransportChunk_def)

lemma onTransportEnd_micro:
  "callbacks_in E P \<Longrightarrow> (micro E P)\<^sup>*\<^sup>* c (onTransportEnd E c)"
  by (auto simp: onTransportEnd_def Let_def rawOnError_eq rawOnEnd_micro split: option.splits)

text \<open>The inputs whose method calls, if they are method calls, keep to \<open>P\<close>.\<close>

fun admissible ::
  "(('a, 'req, 'cb) action \<Rightarrow> bool) \<Rightarrow> ('m, 'a, 'req, 'cb) input \<Rightarrow> bool"
where
  "admissible P (Api a) = P a"
| "admissible P _ = True"

lemma admissible_any [simp]: "admissible any_action i"
  by (cases i) simp_all

lemma step_micro:
  "callbacks_in E P \<Longrightarrow> admissible P i \<Longrightarrow> (micro E P)\<^sup>*\<^sup>* c (step E i c)"
  by (cases i)
    (auto simp: onTransportHeaders_micro onTransportChunk_micro onTransportEnd_micro micro.api
      intro: r_into_rtranclp [of "micro E P"])

section \<open>Invariants\<close>

locale client_invariant =
  fixes E :: "('m, 'a, 'req, 'res, 'cb, 'u, 't) env"
    and P :: "('a, 'req, 'cb) action \<Rightarrow> bool"
    and inv :: "('m, 'res, 'cb, 'u, 't) client \<Rightarrow> bool"
  assumes micro_keeps: "micro E P c c' \<Longrightarrow> inv c \<Longrightarrow> inv c'"
begin

lemma star_keeps: "(micro E P)\<^sup>*\<^sup>* c c' \<Longrightarrow> inv c \<Longrightarrow> inv c'"
  by (induction rule: rtranclp_induct) (auto intro: micro_keeps)

sublocale step_invariant "step E" "admissible P" "\<lambda>c. callbacks_in E P \<longrightarrow> inv c"
  by unfold_locales (auto intro: star_keeps [OF step_micro])

lemma run_inv:
  "callbacks_in E P \<Longrightarrow> list_all (admissible P) is \<Longrightarrow> inv c \<Longrightarrow> inv (run E is c)"
  unfolding run_def using run_keeps by blast

end

lemma admissible_any_list [simp]: "list_all (admissible any_action) is"
  by (simp add: list_all_iff)

section \<open>Reading a trace\<close>

fun notified :: "('m, 'res, 'cb) obs list \<Rightarrow> ('cb \<times> ('m, 'res) cb_event) list" where
  "notified [] = []"
| "notified (Notified cb ev # tr) = (cb, ev) # notified tr"
| "notified (Called _ # tr) = notified tr"
| "notified (Deferred _ # tr) = notified tr"

fun transport_calls :: "('m, 'res, 'cb) obs list \<Rightarrow> 'm tcall list" where
  "transport_calls [] = []"
| "transport_calls (Notified _ _ # tr) = transport_calls tr"
| "transport_calls (Called x # tr) = x # transport_calls tr"
| "transport_calls (Deferred _ # tr) = transport_calls tr"

lemma notified_append [trace_simps]: "notified (xs @ ys) = notified xs @ notified ys"
  by (induction xs rule: notified.induct) simp_all

lemma transport_calls_append [trace_simps]:
  "transport_calls (xs @ ys) = transport_calls xs @ transport_calls ys"
  by (induction xs rule: transport_calls.induct) simp_all

text \<open>
  A method adds at most one entry to the trace: the call it makes on the transport, which
  is also the only way it changes the transport's state.  A started client never starts
  its transport again.
\<close>

fun is_start :: "'m tcall \<Rightarrow> bool" where
  "is_start (TStart _) = True"
| "is_start _ = False"

lemma run_action_trace:
  obtains "trace (snd (run_action E a c)) = trace c"
      "transport (snd (run_action E a c)) = transport c"
  | x where "trace (snd (run_action E a c)) = trace c @ [Called x]"
      "transport (snd (run_action E a c)) = snd (transportCall E x (transport c))"
      "is_start x \<Longrightarrow> \<not> started c"
proof (cases a)
  case (Start arg)
  then show thesis
    by (cases rule: start_cases [of c E arg]) (use that in \<open>auto simp: flag_simps\<close>)
next
  case (Send msg)
  then show thesis
    by (cases rule: send_cases [of E msg c]) (use that in \<open>auto simp: flag_simps\<close>)
next
  case FinishSend
  then show thesis
    by (cases rule: finishSend_cases [of E c]) (use that in \<open>auto simp: flag_simps\<close>)
next
  case Close
  then show thesis
    by (cases rule: close_cases [of E c]) (use that in \<open>auto simp: flag_simps\<close>)
qed (use that in \<open>simp_all add: onHeaders_def onMessage_def onEnd_def\<close>)

lemma run_action_notified [trace_simps]:
  "notified (trace (snd (run_action E a c))) = notified (trace c)"
  by (rule run_action_trace [of E a c]) (simp_all add: trace_simps)

lemma run_action_onEndCallbacks:
  "\<exists>cbs. onEndCallbacks (snd (run_action E a c)) = onEndCallbacks c @ cbs"
proof (cases a)
  case (Start arg)
  then show ?thesis by (cases rule: start_cases [of c E arg]) (auto simp: flag_simps)
next
  case (Send msg)
  then show ?thesis by (cases rule: send_cases [of E msg c]) (auto simp: flag_simps)
next
  case FinishSend
  then show ?thesis by (cases rule: finishSend_cases [of E c]) (auto simp: flag_simps)
next
  case Close
  then show ?thesis by (cases rule: close_cases [of E c]) (auto simp: flag_simps)
qed (simp_all add: onHeaders_def onMessage_def onEnd_def)

end
