(* ===== verification/Client_Invariants.thy ===== *)
theory Client_Invariants
  imports Client_Steps
begin

text \<open>
  What holds of a client after any run, whatever the callbacks do: its flags only go up,
  the order of callback invocations, the silence after \<^verbatim>\<open>close\<close>, the order of the calls
  on the transport.
\<close>

section \<open>Flags\<close>

lemma run_action_mono [flag_simps]:
  "closed c \<Longrightarrow> closed (snd (run_action E a c))"
  "started c \<Longrightarrow> started (snd (run_action E a c))"
  "finishedSending c \<Longrightarrow> finishedSending (snd (run_action E a c))"
  "sentFirstMessage c \<Longrightarrow> sentFirstMessage (snd (run_action E a c))"
  by (cases a; auto simp: start_def send_def finishSend_def close_def onHeaders_def onMessage_def
        onEnd_def Let_def flag_simps split: option.split sum.split; fail)+

interpretation completed_latch: client_invariant E any_action completed for E
  by unfold_locales (erule micro.cases, simp_all add: flag_simps)

interpretation closed_latch: client_invariant E any_action closed for E
  by unfold_locales (erule micro.cases, simp_all add: flag_simps)

interpretation started_latch: client_invariant E any_action started for E
  by unfold_locales (erule micro.cases, simp_all add: flag_simps)

interpretation finished_latch: client_invariant E any_action finishedSending for E
  by unfold_locales (erule micro.cases, simp_all add: flag_simps)

section \<open>What callback invocations add to the trace\<close>

lemma run_actions_notified [trace_simps]:
  "notified (trace (snd (run_actions E as c))) = notified (trace c)"
proof (induction as arbitrary: c)
  case (Cons a as)
  obtain r c1 where a: "run_action E a c = (r, c1)" by fastforce
  then have "notified (trace c1) = notified (trace c)"
    using run_action_notified [of E a c] by simp
  with a Cons.IH [of c1] show ?case by (cases r) simp_all
qed simp

lemma invoke_callback_notified [trace_simps]:
  "notified (trace (invoke_callback E ev cb c)) = notified (trace c) @ [(cb, ev)]"
  by (rule invoke_callback_cases [of E cb ev c])
    (use run_actions_notified [of E "snd (callback E cb ev (user c))" "entered E ev cb c"]
      in \<open>simp_all add: entered_def trace_simps\<close>)

lemma headers_fold_notified [trace_simps]:
  "notified (trace (fold (invoke_callback E ev) cbs c)) =
     notified (trace c) @ map (\<lambda>cb. (cb, ev)) cbs"
  by (induction cbs arbitrary: c) (simp_all add: trace_simps)

text \<open>
  A loop that tests \<^verbatim>\<open>closed\<close> reaches the callbacks registered first, up to the one that
  closes the client.
\<close>

lemma closed_fold: "closed c \<Longrightarrow> fold (invoke_unless_closed E ev) cbs c = c"
  by (induction cbs) (simp_all add: invoke_unless_closed_def)

lemma invoke_open: "\<not> closed c \<Longrightarrow> invoke_unless_closed E ev cb c = invoke_callback E ev cb c"
  by (simp add: invoke_unless_closed_def)

lemma guarded_fold_notified:
  "\<exists>cbs'. prefix cbs' cbs \<and>
     notified (trace (fold (invoke_unless_closed E ev) cbs c)) =
       notified (trace c) @ map (\<lambda>cb. (cb, ev)) cbs'"
proof (induction cbs arbitrary: c)
  case (Cons cb cbs)
  show ?case
  proof (cases "closed c")
    case True
    then show ?thesis
      by (intro exI [of _ "[]"]) (simp only: closed_fold, simp)
  next
    case False
    from Cons.IH [of "invoke_callback E ev cb c"] obtain cbs' where
      "prefix cbs' cbs"
      "notified (trace (fold (invoke_unless_closed E ev) cbs (invoke_callback E ev cb c))) =
         notified (trace c) @ [(cb, ev)] @ map (\<lambda>cb. (cb, ev)) cbs'"
      by (auto simp: trace_simps)
    with False show ?thesis
      by (intro exI [of _ "cb # cbs'"]) (simp add: invoke_open)
  qed
qed simp

section \<open>The end of a request\<close>

fun is_end :: "('m, 'res) cb_event \<Rightarrow> bool" where
  "is_end (EndEv _ _ _) = True"
| "is_end _ = False"

fun ends_last :: "('m, 'res) cb_event list \<Rightarrow> bool" where
  "ends_last [] = True"
| "ends_last (ev # evs) = (if is_end ev then list_all is_end evs else ends_last evs)"

lemma ends_last_snoc:
  "ends_last (evs @ [ev]) \<longleftrightarrow> ends_last evs \<and> (is_end ev \<or> list_all (\<lambda>e. \<not> is_end e) evs)"
  by (induction evs) (auto simp: list_all_iff)

abbreviation events :: "('m, 'res, 'cb, 'u, 't) client \<Rightarrow> ('m, 'res) cb_event list" where
  "events c \<equiv> map snd (notified (trace c))"

definition end_order :: "('m, 'res, 'cb, 'u, 't) client \<Rightarrow> bool" where
  "end_order c \<longleftrightarrow>
     ends_last (events c) \<and> (\<not> completed c \<longrightarrow> list_all (\<lambda>e. \<not> is_end e) (events c))"

lemma allowed_end: "allowed ev c \<Longrightarrow> is_end ev \<longleftrightarrow> completed c"
  by (cases ev) simp_all

interpretation end_order: client_invariant E any_action end_order for E
proof unfold_locales
  fix c c' assume "micro E any_action c c'" "end_order c"
  then show "end_order c'"
    by (induction rule: micro.induct)
      (auto simp: end_order_def trace_simps flag_simps ends_last_snoc allowed_end)
qed

definition ends :: "('m, 'res, 'cb, 'u, 't) client \<Rightarrow> ('cb \<times> ('m, 'res) cb_event) list" where
  "ends c = filter (\<lambda>(cb, ev). is_end ev) (notified (trace c))"

definition end_batch :: "('m, 'res, 'cb, 'u, 't) client \<Rightarrow> bool" where
  "end_batch c \<longleftrightarrow>
     (\<not> completed c \<longrightarrow> ends c = []) \<and>
     (\<exists>cd msg m cbs. prefix cbs (onEndCallbacks c) \<and> ends c = map (\<lambda>cb. (cb, EndEv cd msg m)) cbs)"

lemma micro_onEndCallbacks: "micro E P c c' \<Longrightarrow> prefix (onEndCallbacks c) (onEndCallbacks c')"
  by (erule micro.cases)
    (use run_action_onEndCallbacks in \<open>fastforce simp: prefix_def flag_simps\<close>)+

lemma star_onEndCallbacks: "(micro E P)\<^sup>*\<^sup>* c c' \<Longrightarrow> prefix (onEndCallbacks c) (onEndCallbacks c')"
  by (induction rule: rtranclp_induct) (auto dest: micro_onEndCallbacks)

lemma end_batch_frame:
  assumes "end_batch c" "(micro E P)\<^sup>*\<^sup>* c c'" "ends c' = ends c" "completed c' = completed c"
  shows "end_batch c'"
proof -
  from assms(1) obtain cd msg m cbs where
    "prefix cbs (onEndCallbacks c)" "ends c = map (\<lambda>cb. (cb, EndEv cd msg m)) cbs"
    unfolding end_batch_def by blast
  with assms star_onEndCallbacks [OF assms(2)] show ?thesis
    unfolding end_batch_def by (metis prefix_order.trans)
qed

lemma fold_completed [flag_simps]:
  "completed (fold (invoke_callback E ev) cbs c) = completed c"
  "completed (fold (invoke_unless_closed E ev) cbs c) = completed c"
  by (induction cbs arbitrary: c) (simp_all add: flag_simps)

lemma end_batch_rawOnEnd:
  assumes "end_batch c"
  shows "end_batch (rawOnEnd E cd msg m c)"
proof (cases "completed c")
  case False
  let ?ev = "EndEv cd msg m" and ?d = "c\<lparr>completed := True\<rparr>"
  let ?c' = "fold (invoke_unless_closed E ?ev) (onEndCallbacks c) ?d"
  from False have eq: "rawOnEnd E cd msg m c = ?c'" by (simp add: rawOnEnd_def)
  from guarded_fold_notified [of "onEndCallbacks c" E ?ev ?d] obtain cbs where
    pre: "prefix cbs (onEndCallbacks c)" and
    n: "notified (trace ?c') = notified (trace ?d) @ map (\<lambda>cb. (cb, ?ev)) cbs" by blast
  have "prefix (onEndCallbacks c) (onEndCallbacks ?c')"
    using star_onEndCallbacks [OF rawOnEnd_micro [OF callbacks_in_any, of E c cd msg m]] by (simp add: eq)
  with pre have "prefix cbs (onEndCallbacks ?c')" by (rule prefix_order.trans)
  moreover have "ends ?c' = map (\<lambda>cb. (cb, ?ev)) cbs"
    using assms False by (simp add: ends_def n end_batch_def filter_map comp_def)
  ultimately show ?thesis
    unfolding eq end_batch_def by (fastforce simp: flag_simps)
qed (use assms in \<open>simp add: rawOnEnd_def\<close>)

lemma rawOnHeaders_frame [trace_simps, flag_simps]:
  "ends (rawOnHeaders E m c) = ends c"
  "completed (rawOnHeaders E m c) = completed c"
  by (simp_all add: rawOnHeaders_def ends_def trace_simps flag_simps filter_map comp_def)

lemma rawOnMessage_frame [trace_simps, flag_simps]:
  "ends (rawOnMessage E r c) = ends c"
  "completed (rawOnMessage E r c) = completed c"
proof -
  from guarded_fold_notified [of "onMessageCallbacks c" E "MessageEv r" c] obtain cbs where
    "notified (trace (fold (invoke_unless_closed E (MessageEv r)) (onMessageCallbacks c) c)) =
       notified (trace c) @ map (\<lambda>cb. (cb, MessageEv r)) cbs" by blast
  then show "ends (rawOnMessage E r c) = ends c" "completed (rawOnMessage E r c) = completed c"
    by (simp_all add: rawOnMessage_def ends_def flag_simps filter_map comp_def)
qed

lemma handle_chunks_frame [trace_simps, flag_simps]:
  "ends (snd (handle_chunks E ds c)) = ends c \<and> completed (snd (handle_chunks E ds c)) = completed c"
proof (induction E ds c rule: handle_chunks.induct)
  case (3 E t ds c)
  have "ends (c\<lparr>responseTrailers := x\<rparr>) = ends c" "ends (c\<lparr>responseHeaders := x\<rparr>) = ends c" for x
    by (simp_all add: ends_def)
  with 3 show ?case
    by (cases "responseHeaders c") (simp_all add: Let_def trace_simps flag_simps)
qed (auto simp: trace_simps flag_simps split: sum.split)

lemma run_action_end_batch: "end_batch c \<Longrightarrow> end_batch (snd (run_action E a c))"
  by (erule end_batch_frame [OF _ r_into_rtranclp [of "micro E any_action", OF micro.api]])
    (simp_all add: ends_def trace_simps flag_simps)

lemma end_batch_fields [simp]:
  "end_batch (c\<lparr>chunkParser := p\<rparr>) = end_batch c"
  "end_batch (c\<lparr>responseHeaders := h\<rparr>) = end_batch c"
  "end_batch (c\<lparr>transport := t\<rparr>) = end_batch c"
  by (simp_all add: end_batch_def ends_def)

lemma step_end_batch: "end_batch c \<Longrightarrow> end_batch (step E i c)"
proof (cases i)
  case (TransportHeaders h status)
  assume b: "end_batch c"
  have "end_batch (rawOnHeaders E h (c\<lparr>responseHeaders := Some h\<rparr>))"
    by (rule end_batch_frame [OF _ rawOnHeaders_micro [OF callbacks_in_any]]) (simp_all add: b trace_simps flag_simps)
  with b TransportHeaders show ?thesis
    by (simp add: onTransportHeaders_def Let_def rawOnError_eq end_batch_rawOnEnd)
next
  case (TransportChunk b)
  assume c: "end_batch c"
  have "end_batch (snd (handle_chunks E ds (c\<lparr>chunkParser := p\<rparr>)))" for ds p
    by (rule end_batch_frame [OF _ handle_chunks_micro [OF callbacks_in_any]])
      (simp_all add: c handle_chunks_frame)
  with c TransportChunk show ?thesis
    by (auto simp: onTransportChunk_def rawOnError_eq end_batch_rawOnEnd split: prod.split sum.split)
next
  case TransportEnd
  assume "end_batch c"
  with TransportEnd show ?thesis
    by (auto simp: onTransportEnd_def Let_def rawOnError_eq end_batch_rawOnEnd split: option.split)
qed (simp add: run_action_end_batch)

interpretation end_batch: step_invariant "step E" "\<lambda>_. True" end_batch for E
  by unfold_locales (rule step_end_batch)

lemma new_client_end_batch: "end_batch (new_client t u)"
  by (auto simp: end_batch_def ends_def new_client_def)

section \<open>Silence after close\<close>

lemma closed_step: "closed c \<Longrightarrow> notified (trace (step E i c)) = notified (trace c)"
  by (cases i)
    (simp_all add: trace_simps onTransportHeaders_def onTransportChunk_def onTransportEnd_def)

lemma closed_run: "closed c \<Longrightarrow> notified (trace (run E is c)) = notified (trace c)"
proof (induction "is" arbitrary: c)
  case (Cons i "is")
  from Cons.prems have "closed (step E i c)"
    using closed_latch.run_inv [of E "[i]" c] by (simp add: run_def)
  with Cons show ?case by (simp add: run_def closed_step)
qed (simp add: run_def)

text \<open>After the \<^verbatim>\<open>cancel\<close> that \<^verbatim>\<open>close\<close> sends, only header callbacks can still be invoked.\<close>

fun is_headers :: "('m, 'res) cb_event \<Rightarrow> bool" where
  "is_headers (HeadersEv _) = True"
| "is_headers _ = False"

definition cancelled :: "('m, 'res, 'cb) obs list \<Rightarrow> bool" where
  "cancelled tr \<longleftrightarrow> Called TCancel \<in> set tr"

fun quiet_after_cancel :: "('m, 'res, 'cb) obs list \<Rightarrow> bool" where
  "quiet_after_cancel [] = True"
| "quiet_after_cancel (ob # tr) =
     ((ob = Called TCancel \<longrightarrow> list_all is_headers (map snd (notified tr))) \<and> quiet_after_cancel tr)"

lemma quiet_append:
  "quiet_after_cancel (tr @ [ob]) \<longleftrightarrow>
     quiet_after_cancel tr \<and> (cancelled tr \<longrightarrow> list_all is_headers (map snd (notified [ob])))"
  by (induction tr) (auto simp: cancelled_def trace_simps)

lemma cancelled_append: "cancelled (tr @ [ob]) \<longleftrightarrow> cancelled tr \<or> ob = Called TCancel"
  by (auto simp: cancelled_def)

lemma run_action_cancelled:
  "(cancelled (trace c) \<longrightarrow> closed c) \<Longrightarrow>
     cancelled (trace (snd (run_action E a c))) \<longrightarrow> closed (snd (run_action E a c))"
proof (cases a)
  case (Start arg)
  assume "cancelled (trace c) \<longrightarrow> closed c"
  with Start show ?thesis
    by (cases rule: start_cases [of c E arg]) (auto simp: flag_simps cancelled_append)
next
  case (Send msg)
  assume "cancelled (trace c) \<longrightarrow> closed c"
  with Send show ?thesis
    by (cases rule: send_cases [of E msg c]) (auto simp: flag_simps cancelled_append)
next
  case FinishSend
  assume "cancelled (trace c) \<longrightarrow> closed c"
  with FinishSend show ?thesis
    by (cases rule: finishSend_cases [of E c]) (auto simp: flag_simps cancelled_append)
next
  case Close
  assume "cancelled (trace c) \<longrightarrow> closed c"
  with Close show ?thesis
    by (cases rule: close_cases [of E c]) (auto simp: flag_simps cancelled_append)
qed (simp_all add: onHeaders_def onMessage_def onEnd_def)

definition silent :: "('m, 'res, 'cb, 'u, 't) client \<Rightarrow> bool" where
  "silent c \<longleftrightarrow> quiet_after_cancel (trace c) \<and> (cancelled (trace c) \<longrightarrow> closed c)"

lemma run_action_silent: "silent c \<Longrightarrow> silent (snd (run_action E a c))"
  using run_action_cancelled [of c E a]
  by (cases rule: run_action_trace [of E a c])
    (auto simp: silent_def quiet_append)

lemma allowed_quiet: "allowed ev c \<Longrightarrow> closed c \<Longrightarrow> is_headers ev"
  by (cases ev) simp_all

interpretation silent: client_invariant E any_action silent for E
proof unfold_locales
  fix c c' assume "micro E any_action c c'" "silent c"
  then show "silent c'"
  proof (induction rule: micro.induct)
    case (api a c)
    from api(2) show ?case by (rule run_action_silent)
  qed (auto simp: silent_def flag_simps quiet_append cancelled_append dest: allowed_quiet)
qed

section \<open>The callbacks registered, and their own state\<close>

text \<open>
  Only the registration methods change the lists of callbacks; and the state of the user's
  callbacks is what their bodies make of the sequence of invocations, nothing else.
\<close>

fun registers :: "('a, 'req, 'cb) action \<Rightarrow> bool" where
  "registers (OnHeaders _) = True"
| "registers (OnMessage _) = True"
| "registers (OnEnd _) = True"
| "registers _ = False"

definition callback_lists ::
  "('m, 'res, 'cb, 'u, 't) client \<Rightarrow> 'cb list \<times> 'cb list \<times> 'cb list"
where
  "callback_lists c = (onHeadersCallbacks c, onMessageCallbacks c, onEndCallbacks c)"

lemma run_action_lists:
  "\<not> registers a \<Longrightarrow> callback_lists (snd (run_action E a c)) = callback_lists c"
  by (cases a; simp add: callback_lists_def method_defs Let_def split: sum.split prod.split option.split)

interpretation same_lists:
  client_invariant E "\<lambda>a. \<not> registers a" "\<lambda>c. callback_lists c = l" for E l
  by unfold_locales
    (erule micro.cases, simp_all add: run_action_lists, simp_all add: callback_lists_def flag_simps)

definition replay ::
  "('m, 'a, 'req, 'res, 'cb, 'u, 't) env \<Rightarrow> ('cb \<times> ('m, 'res) cb_event) list \<Rightarrow> 'u \<Rightarrow> 'u"
where
  "replay E evs u = fold (\<lambda>(cb, ev) u. fst (callback E cb ev u)) evs u"

lemma replay_append: "replay E (xs @ ys) u = replay E ys (replay E xs u)"
  by (simp add: replay_def)

interpretation user_state:
  client_invariant E any_action "\<lambda>c. user c = replay E (notified (trace c)) u" for E u
  by unfold_locales
    (erule micro.cases, simp_all add: flag_simps trace_simps replay_append, simp_all add: replay_def)

end
