(* ===== verification/Client_Protocol.thy ===== *)
theory Client_Protocol
  imports Client_Invariants
begin

text \<open>
  The order in which the client uses its transport, as an automaton, and the simulation
  between the client's flags and the automaton's states.
\<close>

section \<open>The transport protocol\<close>

datatype phase = Idle | Open | HalfClosed | Cancelled

fun next_phase :: "phase \<Rightarrow> 'm tcall \<Rightarrow> phase option" where
  "next_phase Idle (TStart _) = Some Open"
| "next_phase Open (TSend _) = Some Open"
| "next_phase Open TFinish = Some HalfClosed"
| "next_phase Open TCancel = Some Cancelled"
| "next_phase HalfClosed TCancel = Some Cancelled"
| "next_phase _ _ = None"

fun phase_after :: "phase \<Rightarrow> 'm tcall list \<Rightarrow> phase option" where
  "phase_after p [] = Some p"
| "phase_after p (x # xs) =
     (case next_phase p x of None \<Rightarrow> None | Some q \<Rightarrow> phase_after q xs)"

fun_cases next_phase_SomeE: "next_phase p x = Some q"

lemma phase_after_append:
  "phase_after p (xs @ ys) =
     (case phase_after p xs of None \<Rightarrow> None | Some q \<Rightarrow> phase_after q ys)"
  by (induction p xs rule: phase_after.induct) (simp_all split: option.split)

lemma phase_after_snoc:
  "phase_after p xs = Some q \<Longrightarrow> phase_after p (xs @ [x]) = next_phase q x"
  by (simp add: phase_after_append split: option.split)

text \<open>The abstraction: the state of the protocol that the client's flags stand for.\<close>

definition phase_of :: "('m, 'res, 'cb, 'u, 't) client \<Rightarrow> phase" where
  "phase_of c =
     (if \<not> started c then Idle
      else if closed c then Cancelled
      else if finishedSending c then HalfClosed
      else Open)"

text \<open>
  The metadata constructor accepts what the user passes to \<^verbatim>\<open>start\<close>.  When it throws,
  \<^verbatim>\<open>started\<close> is already set and the transport has not been started.
\<close>

definition metadata_accepted :: "('m, 'a, 'req, 'res, 'cb, 'u, 't) env \<Rightarrow> bool" where
  "metadata_accepted E \<longleftrightarrow> (\<forall>a. \<exists>m. md_of_arg (metadata E) a = Inr m)"

definition in_protocol ::
  "('m, 'a, 'req, 'res, 'cb, 'u, 't) env \<Rightarrow> ('m, 'res, 'cb, 'u, 't) client \<Rightarrow> bool"
where
  "in_protocol E c \<longleftrightarrow>
     (\<not> started c \<longrightarrow> \<not> closed c \<and> \<not> finishedSending c) \<and>
     (metadata_accepted E \<longrightarrow>
       phase_after Idle (transport_calls (trace c)) = Some (phase_of c))"

lemma transport_calls_single [simp]: "transport_calls [Called x] = [x]"
  by simp

lemma in_protocol_call:
  assumes "in_protocol E c" "started d" "next_phase (phase_of c) x = Some (phase_of d)"
    and "transport_calls (trace d) = transport_calls (trace c) @ [x]"
  shows "in_protocol E d"
  using assms by (simp add: in_protocol_def phase_after_snoc)

lemma in_protocol_same:
  assumes "in_protocol E c" "phase_of d = phase_of c" "started d = started c"
    and "closed d = closed c" "finishedSending d = finishedSending c"
    and "transport_calls (trace d) = transport_calls (trace c)"
  shows "in_protocol E d"
  using assms by (simp add: in_protocol_def)

lemma run_action_in_protocol:
  assumes "in_protocol E c"
  shows "in_protocol E (snd (run_action E a c))"
proof (cases a)
  case (Start arg)
  show ?thesis
  proof (cases rule: start_cases [of c E arg])
    case (bad_metadata e x)
    then have "\<not> metadata_accepted E"
      by (metis Inl_Inr_False metadata_accepted_def)
    with Start bad_metadata(4) show ?thesis by (simp add: in_protocol_def)
  next
    case (started m)
    with assms have "\<not> closed c" "\<not> finishedSending c"
      by (simp_all add: in_protocol_def)
    with assms Start started show ?thesis
      by (auto simp: flag_simps trace_simps phase_of_def elim!: in_protocol_call)
  qed (use assms Start in simp)
next
  case (Send msg)
  show ?thesis
  proof (cases rule: send_cases [of E msg c])
    case unserializable
    then have "in_protocol E (c\<lparr>sentFirstMessage := True\<rparr>)"
      by (intro in_protocol_same [OF assms]) (simp_all add: phase_of_def)
    with Send unserializable(5) show ?thesis by simp
  next
    case (sent b)
    with assms Send show ?thesis
      by (auto simp: flag_simps trace_simps phase_of_def elim!: in_protocol_call)
  qed (use assms Send in simp)
next
  case FinishSend
  show ?thesis
    by (cases rule: finishSend_cases [of E c])
      (use assms FinishSend in \<open>auto simp: flag_simps trace_simps phase_of_def
        elim!: in_protocol_call\<close>)
next
  case Close
  show ?thesis
    by (cases rule: close_cases [of E c])
      (use assms Close in \<open>auto simp: flag_simps trace_simps phase_of_def
        elim!: in_protocol_call\<close>)
qed (use assms in \<open>simp_all add: onHeaders_def onMessage_def onEnd_def phase_of_def
    in_protocol_def\<close>)

interpretation in_protocol: client_invariant E any_action "in_protocol E" for E
proof unfold_locales
  fix c c' assume "micro E any_action c c'" "in_protocol E c"
  then show "in_protocol E c'"
  proof (induction rule: micro.induct)
    case (api a c)
    from api(2) show ?case by (rule run_action_in_protocol)
  qed (auto simp: in_protocol_def trace_simps flag_simps phase_of_def)
qed

lemma new_client_in_protocol: "in_protocol E (new_client t u)"
  by (simp add: in_protocol_def new_client_def phase_of_def)

section \<open>One request message for a unary method\<close>

fun is_send :: "'m tcall \<Rightarrow> bool" where
  "is_send (TSend _) = True"
| "is_send _ = False"

definition sends :: "('m, 'res, 'cb, 'u, 't) client \<Rightarrow> nat" where
  "sends c = length (filter is_send (transport_calls (trace c)))"

definition single_send ::
  "('m, 'a, 'req, 'res, 'cb, 'u, 't) env \<Rightarrow> ('m, 'res, 'cb, 'u, 't) client \<Rightarrow> bool"
where
  "single_send E c \<longleftrightarrow>
     \<not> requestStream (methodDefinition E) \<longrightarrow>
       sends c \<le> 1 \<and> (\<not> sentFirstMessage c \<longrightarrow> sends c = 0)"

lemma sends_call:
  "sends (snd (call_transport E x c)) = sends c + (if is_send x then 1 else 0)"
  by (simp add: sends_def flag_simps trace_simps)

lemma sends_fields [simp]:
  "sends (c\<lparr>started := b\<rparr>) = sends c" "sends (c\<lparr>sentFirstMessage := b\<rparr>) = sends c"
  "sends (c\<lparr>finishedSending := b\<rparr>) = sends c" "sends (c\<lparr>closed := b\<rparr>) = sends c"
  by (simp_all add: sends_def)

lemma run_action_single_send: "single_send E c \<Longrightarrow> single_send E (snd (run_action E a c))"
proof (cases a)
  case (Start arg)
  assume "single_send E c"
  with Start show ?thesis
    by (cases rule: start_cases [of c E arg]) (auto simp: single_send_def sends_call flag_simps)
next
  case (Send msg)
  assume "single_send E c"
  with Send show ?thesis
    by (cases rule: send_cases [of E msg c]) (auto simp: single_send_def sends_call flag_simps)
next
  case FinishSend
  assume "single_send E c"
  with FinishSend show ?thesis
    by (cases rule: finishSend_cases [of E c]) (auto simp: single_send_def sends_call flag_simps)
next
  case Close
  assume "single_send E c"
  with Close show ?thesis
    by (cases rule: close_cases [of E c]) (auto simp: single_send_def sends_call flag_simps)
qed (simp_all add: onHeaders_def onMessage_def onEnd_def single_send_def sends_def)

interpretation single_send: client_invariant E any_action "single_send E" for E
proof unfold_locales
  fix c c' assume "micro E any_action c c'" "single_send E c"
  then show "single_send E c'"
  proof (induction rule: micro.induct)
    case (api a c)
    from api(2) show ?case by (rule run_action_single_send)
  qed (auto simp: single_send_def sends_def trace_simps flag_simps)
qed

lemma new_client_single_send: "single_send E (new_client t u)"
  by (simp add: single_send_def sends_def new_client_def)

section \<open>One start\<close>

definition starts :: "'m tcall list \<Rightarrow> nat" where
  "starts xs = length (filter is_start xs)"

lemma starts_snoc [simp]: "starts (xs @ [x]) = starts xs + (if is_start x then 1 else 0)"
  by (simp add: starts_def)

definition single_start :: "('m, 'res, 'cb, 'u, 't) client \<Rightarrow> bool" where
  "single_start c \<longleftrightarrow> starts (transport_calls (trace c)) \<le> (if started c then 1 else 0)"

lemma run_action_single_start: "single_start c \<Longrightarrow> single_start (snd (run_action E a c))"
proof (cases a)
  case (Start arg)
  assume "single_start c"
  with Start show ?thesis
    by (cases rule: start_cases [of c E arg]) (auto simp: single_start_def flag_simps trace_simps)
next
  case (Send msg)
  assume "single_start c"
  with Send show ?thesis
    by (cases rule: send_cases [of E msg c]) (auto simp: single_start_def flag_simps trace_simps)
next
  case FinishSend
  assume "single_start c"
  with FinishSend show ?thesis
    by (cases rule: finishSend_cases [of E c]) (auto simp: single_start_def flag_simps trace_simps)
next
  case Close
  assume "single_start c"
  with Close show ?thesis
    by (cases rule: close_cases [of E c]) (auto simp: single_start_def flag_simps trace_simps)
qed (simp_all add: onHeaders_def onMessage_def onEnd_def single_start_def)

interpretation single_start: client_invariant E any_action single_start for E
proof unfold_locales
  fix c c' assume "micro E any_action c c'" "single_start c"
  then show "single_start c'"
  proof (induction rule: micro.induct)
    case (api a c)
    from api(2) show ?case by (rule run_action_single_start)
  qed (auto simp: single_start_def trace_simps flag_simps)
qed

section \<open>The transport's state as a function of the calls on it\<close>

text \<open>
  The contract by which a transport model is verified under its client: a relation between
  the calls made so far and the transport's state that each further call keeps, as long as
  it is started once.  The client's part is proved here: only its calls change the
  transport, and it starts it once.
\<close>

locale transport_log =
  fixes call :: "'m tcall \<Rightarrow> 't \<Rightarrow> js_error option \<times> 't"
    and ok :: "'m tcall list \<Rightarrow> 't \<Rightarrow> bool"
  assumes call_ok: "ok xs t \<Longrightarrow> starts (xs @ [x]) \<le> 1 \<Longrightarrow> ok (xs @ [x]) (snd (call x t))"
begin

definition tracked :: "('m, 'res, 'cb, 'u, 't) client \<Rightarrow> bool" where
  "tracked c \<longleftrightarrow> single_start c \<and> ok (transport_calls (trace c)) (transport c)"

lemma run_action_tracked:
  assumes "transportCall E = call" "tracked c"
  shows "tracked (snd (run_action E a c))"
proof -
  have s: "single_start (snd (run_action E a c))"
    using assms(2) by (simp add: tracked_def run_action_single_start)
  show ?thesis
  proof (cases rule: run_action_trace [of E a c])
    case 1
    with assms(2) s show ?thesis by (simp add: tracked_def)
  next
    case (2 x)
    with s have "starts (transport_calls (trace c) @ [x]) \<le> 1"
      by (auto simp: single_start_def trace_simps split: if_splits)
    with assms 2 s call_ok show ?thesis by (simp add: tracked_def trace_simps)
  qed
qed

sublocale tracked: client_invariant E any_action "\<lambda>c. transportCall E = call \<longrightarrow> tracked c" for E
proof unfold_locales
  fix c c' assume "micro E any_action c c'" "transportCall E = call \<longrightarrow> tracked c"
  then show "transportCall E = call \<longrightarrow> tracked c'"
  proof (induction rule: micro.induct)
    case (api a c)
    then show ?case by (simp add: run_action_tracked)
  qed (auto simp: tracked_def single_start_def trace_simps flag_simps)
qed

end

text \<open>
  The part of a transport's state that only its start and its own events change: whatever
  the client does once it is started leaves it as it is.
\<close>

locale transport_view =
  fixes call :: "'m tcall \<Rightarrow> 't \<Rightarrow> js_error option \<times> 't"
    and view :: "'t \<Rightarrow> 'v"
  assumes view_call: "\<not> is_start x \<Longrightarrow> view (snd (call x t)) = view t"
begin

sublocale same_view:
  client_invariant E any_action
    "\<lambda>c. transportCall E = call \<longrightarrow> started c \<and> view (transport c) = v" for E v
proof unfold_locales
  fix c c' assume "micro E any_action c c'"
    "transportCall E = call \<longrightarrow> started c \<and> view (transport c) = v"
  then show "transportCall E = call \<longrightarrow> started c' \<and> view (transport c') = v"
  proof (induction rule: micro.induct)
    case (api a c)
    show ?case
    proof (cases rule: run_action_trace [of E a c])
      case 1
      with api show ?thesis by (simp add: run_action_mono)
    next
      case (2 x)
      with api view_call [of x "transport c"] show ?thesis by (auto simp: run_action_mono)
    qed
  qed (simp_all add: flag_simps)
qed

lemma star_view:
  "(micro E any_action)\<^sup>*\<^sup>* c c' \<Longrightarrow> transportCall E = call \<Longrightarrow> started c \<Longrightarrow>
     started c' \<and> view (transport c') = view (transport c)"
  using same_view.star_keeps [of E c c' "view (transport c)"] by blast

end

text \<open>
  A transport that, once up, stays up until the client cancels it: then a client whose
  transport is up is closed, or its transport is still up, whatever the callbacks do.
\<close>

locale transport_live =
  fixes call :: "'m tcall \<Rightarrow> 't \<Rightarrow> js_error option \<times> 't"
    and live :: "'t \<Rightarrow> bool"
  assumes live_call: "live t \<Longrightarrow> \<not> is_start x \<Longrightarrow> x \<noteq> TCancel \<Longrightarrow> live (snd (call x t))"
begin

definition attached :: "('m, 'res, 'cb, 'u, 't) client \<Rightarrow> bool" where
  "attached c \<longleftrightarrow> started c \<and> (closed c \<or> live (transport c))"

lemma run_action_attached:
  assumes E: "transportCall E = call" and c: "attached c"
  shows "attached (snd (run_action E a c))"
proof (cases "closed c")
  case True
  with c show ?thesis by (simp add: attached_def run_action_mono)
next
  case False
  with c have w: "started c" "live (transport c)" by (auto simp: attached_def)
  show ?thesis
  proof (cases a)
    case (Send msg)
    with w c show ?thesis
      by (cases rule: send_cases [of E msg c])
        (use live_call [OF w(2), of "TSend b" for b] in \<open>auto simp: attached_def flag_simps E\<close>)
  next
    case FinishSend
    with w c show ?thesis
      by (cases rule: finishSend_cases [of E c])
        (use live_call [OF w(2), of TFinish] in \<open>auto simp: attached_def flag_simps E\<close>)
  next
    case Close
    with w c show ?thesis
      by (cases rule: close_cases [of E c]) (auto simp: attached_def flag_simps)
  qed (use w c in \<open>simp_all add: start_def onHeaders_def onMessage_def onEnd_def attached_def\<close>)
qed

sublocale attached:
  client_invariant E any_action "\<lambda>c. transportCall E = call \<longrightarrow> attached c" for E
proof unfold_locales
  fix c c' assume "micro E any_action c c'" "transportCall E = call \<longrightarrow> attached c"
  then show "transportCall E = call \<longrightarrow> attached c'"
  proof (induction rule: micro.induct)
    case (api a c)
    then show ?case by (simp add: run_action_attached)
  qed (auto simp: attached_def flag_simps)
qed

lemma step_attached: "transportCall E = call \<Longrightarrow> attached c \<Longrightarrow> attached (step E i c)"
  using attached.run_inv [of E "[i]" c] by (simp add: run_def)

end

text \<open>
  What every call on a transport changes of its state, as a preorder: then everything a
  client does changes it no more than that.
\<close>

locale transport_change =
  fixes call :: "'m tcall \<Rightarrow> 't \<Rightarrow> js_error option \<times> 't"
    and R :: "'t \<Rightarrow> 't \<Rightarrow> bool"
  assumes R_refl: "R t t"
    and R_trans: "R s t \<Longrightarrow> R t u \<Longrightarrow> R s u"
    and R_call: "R t (snd (call x t))"
begin

sublocale changed:
  client_invariant E any_action "\<lambda>c. transportCall E = call \<longrightarrow> R t (transport c)" for E t
proof unfold_locales
  fix c c' assume "micro E any_action c c'" "transportCall E = call \<longrightarrow> R t (transport c)"
  then show "transportCall E = call \<longrightarrow> R t (transport c')"
  proof (induction rule: micro.induct)
    case (api a c)
    then show ?case
      by (cases rule: run_action_trace [of E a c]) (simp_all add: R_trans [OF _ R_call])
  qed (simp_all add: flag_simps)
qed

lemma run_changes: "transportCall E = call \<Longrightarrow> R (transport c) (transport (run E is c))"
  using changed.run_inv [where c = c and t = "transport c" and E = E and ?is = "is"] by (simp add: R_refl)

end

section \<open>A transport that does not throw\<close>

text \<open>
  What the client relies on from a transport that works asynchronously: once started, no
  call on it throws.  Then the only errors the user sees from the client's methods are the
  errors of their own guards, of the metadata constructor and of the message's serializer.
\<close>

locale quiet_transport =
  fixes call :: "'m tcall \<Rightarrow> 't \<Rightarrow> js_error option \<times> 't"
    and up :: "'t \<Rightarrow> bool"
  assumes start_quiet: "\<exists>t'. call (TStart m) t = (None, t') \<and> up t'"
    and call_quiet: "up t \<Longrightarrow> \<exists>t'. call x t = (None, t') \<and> up t'"
begin

lemma send_quiet:
  assumes "transportCall E = call" "up (transport c)"
    and "started c" "\<not> closed c" "\<not> finishedSending c"
      "requestStream (methodDefinition E) \<or> \<not> sentFirstMessage c"
    and "frameRequest (serializeBinary (methodDefinition E)) msg = Inr b"
  shows "fst (send E msg c) = None \<and> up (transport (snd (send E msg c)))"
  using assms call_quiet [of "transport c" "TSend b"]
  by (auto simp: send_def Let_def call_transport_def split: prod.split)

lemma finishSend_quiet:
  assumes "transportCall E = call" "up (transport c)"
    and "started c" "\<not> closed c" "\<not> finishedSending c"
  shows "fst (finishSend E c) = None \<and> up (transport (snd (finishSend E c)))"
  using assms call_quiet [of "transport c" TFinish]
  by (auto simp: finishSend_def call_transport_def split: prod.split)

lemma close_quiet:
  assumes "transportCall E = call" "up (transport c)" "started c" "\<not> closed c"
  shows "fst (close E c) = None \<and> up (transport (snd (close E c)))"
  using assms call_quiet [of "transport c" TCancel]
  by (auto simp: close_def call_transport_def split: prod.split)

end

end
