(* ===== verification/Client_Delivery.thy ===== *)
theory Client_Delivery
  imports Client_Protocol
begin

text \<open>
  What the callbacks are told of a response: the outcome computed from headers and
  trailers, and the whole sequence of invocations for a response that arrives in any
  number of chunks.
\<close>

section \<open>Callbacks that only observe\<close>

text \<open>
  A callback observes when it neither closes the client nor registers callbacks; it may
  throw, and it may send.
\<close>

fun observing :: "('a, 'req, 'cb) action \<Rightarrow> bool" where
  "observing Close = False"
| "observing (OnHeaders _) = False"
| "observing (OnMessage _) = False"
| "observing (OnEnd _) = False"
| "observing _ = True"

definition observers :: "('m, 'a, 'req, 'res, 'cb, 'u, 't) env \<Rightarrow> bool" where
  "observers E \<longleftrightarrow> (\<forall>cb ev u. list_all observing (snd (callback E cb ev u)))"

text \<open>The fields that the delivery of a response depends on.\<close>

definition face ::
  "('m, 'res, 'cb, 'u, 't) client \<Rightarrow>
     bool \<times> bool \<times> 'cb list \<times> 'cb list \<times> 'cb list \<times> parser \<times> 'm option \<times> 'm option"
where
  "face c =
     (completed c, closed c, onHeadersCallbacks c, onMessageCallbacks c, onEndCallbacks c,
      chunkParser c, responseHeaders c, responseTrailers c)"

lemma face_fields:
  "face c' = face c \<longleftrightarrow>
     completed c' = completed c \<and> closed c' = closed c \<and>
     onHeadersCallbacks c' = onHeadersCallbacks c \<and> onMessageCallbacks c' = onMessageCallbacks c \<and>
     onEndCallbacks c' = onEndCallbacks c \<and> chunkParser c' = chunkParser c \<and>
     responseHeaders c' = responseHeaders c \<and> responseTrailers c' = responseTrailers c"
  by (simp add: face_def)

lemma run_action_face: "observing a \<Longrightarrow> face (snd (run_action E a c)) = face c"
proof (cases a)
  case (Start arg)
  then show ?thesis by (cases rule: start_cases [of c E arg]) (auto simp: flag_simps face_def)
next
  case (Send msg)
  then show ?thesis by (cases rule: send_cases [of E msg c]) (auto simp: flag_simps face_def)
next
  case FinishSend
  then show ?thesis by (cases rule: finishSend_cases [of E c]) (auto simp: flag_simps face_def)
qed simp_all

lemma run_actions_face: "list_all observing as \<Longrightarrow> face (snd (run_actions E as c)) = face c"
proof (induction as arbitrary: c)
  case (Cons a as)
  obtain r c1 where a: "run_action E a c = (r, c1)" by fastforce
  then have "face c1 = face c" using run_action_face [of a E c] Cons.prems by simp
  with a Cons.IH [of c1] Cons.prems show ?case by (cases r) simp_all
qed simp

lemma invoke_callback_face: "observers E \<Longrightarrow> face (invoke_callback E ev cb c) = face c"
proof -
  assume "observers E"
  then have f: "face (snd (run_actions E (snd (callback E cb ev (user c))) (entered E ev cb c))) =
      face (entered E ev cb c)"
    by (intro run_actions_face) (simp add: observers_def)
  have g: "face (entered E ev cb c) = face c" by (simp add: face_def entered_def)
  show ?thesis
    by (rule invoke_callback_cases [of E cb ev c]) (use f g in \<open>simp_all add: face_def\<close>)
qed

lemma invoke_fold_face:
  assumes "observers E"
  shows "face (fold (invoke_callback E ev) cbs c) = face c"
  by (rule fold_keeps) (rule invoke_callback_face [OF assms])

text \<open>With callbacks that only observe, the transport stays as it was.\<close>

context transport_live begin

sublocale steady:
  client_invariant E observing
    "\<lambda>c. transportCall E = call \<longrightarrow> started c \<and> \<not> closed c \<and> live (transport c)" for E
proof unfold_locales
  fix c c' assume "micro E observing c c'"
    "transportCall E = call \<longrightarrow> started c \<and> \<not> closed c \<and> live (transport c)"
  then show "transportCall E = call \<longrightarrow> started c' \<and> \<not> closed c' \<and> live (transport c')"
  proof (induction rule: micro.induct)
    case (api a c)
    then have "closed (snd (run_action E a c)) = closed c"
      using run_action_face [of a E c] by (simp add: face_fields)
    with api run_action_attached [of E c a] show ?case by (auto simp: attached_def)
  qed (simp_all add: flag_simps)
qed

lemma run_steady:
  "transportCall E = call \<Longrightarrow> observers E \<Longrightarrow> list_all (admissible observing) is \<Longrightarrow>
     started c \<Longrightarrow> \<not> closed c \<Longrightarrow> live (transport c) \<Longrightarrow>
     started (run E is c) \<and> \<not> closed (run E is c) \<and> live (transport (run E is c))"
  using steady.run_inv [of E "is" c] by (simp add: observers_def callbacks_in_def)

end

text \<open>With observing callbacks the test of \<^verbatim>\<open>closed\<close> in the loops never fires.\<close>

lemma guarded_fold_observers:
  assumes "observers E"
  shows "\<not> closed c \<Longrightarrow> fold (invoke_unless_closed E ev) cbs c = fold (invoke_callback E ev) cbs c"
proof (induction cbs arbitrary: c)
  case (Cons cb cbs)
  have "closed (invoke_callback E ev cb c) = closed c"
    using invoke_callback_face [OF assms, of ev cb c] by (simp add: face_fields)
  with Cons show ?case by (simp add: invoke_open)
qed simp

abbreviation to_all :: "('m, 'res) cb_event \<Rightarrow> 'cb list \<Rightarrow> ('cb \<times> ('m, 'res) cb_event) list" where
  "to_all ev cbs \<equiv> map (\<lambda>cb. (cb, ev)) cbs"

lemma rawOnHeaders_delivers:
  assumes "observers E" "\<not> completed c"
  shows "face (rawOnHeaders E m c) = face c"
    and "notified (trace (rawOnHeaders E m c)) =
      notified (trace c) @ to_all (HeadersEv m) (onHeadersCallbacks c)"
  using assms by (simp_all add: rawOnHeaders_def invoke_fold_face trace_simps)

lemma rawOnMessage_delivers:
  assumes "observers E" "\<not> completed c" "\<not> closed c"
  shows "face (rawOnMessage E r c) = face c"
    and "notified (trace (rawOnMessage E r c)) =
      notified (trace c) @ to_all (MessageEv r) (onMessageCallbacks c)"
  using assms
  by (simp_all add: rawOnMessage_def guarded_fold_observers invoke_fold_face trace_simps)

lemma rawOnEnd_delivers:
  assumes "observers E" "\<not> completed c" "\<not> closed c"
  shows "face (rawOnEnd E cd msg m c) = face (c\<lparr>completed := True\<rparr>)"
    and "notified (trace (rawOnEnd E cd msg m c)) =
      notified (trace c) @ to_all (EndEv cd msg m) (onEndCallbacks c)"
  using assms
  by (simp_all add: rawOnEnd_def guarded_fold_observers invoke_fold_face trace_simps)

section \<open>The outcome of a response\<close>

text \<open>
  The status, message and metadata that \<^verbatim>\<open>onTransportEnd\<close> must report, as a function of
  the headers and trailers received: trailers win over headers, and a missing status is
  reported as such.
\<close>

definition status_of ::
  "('m, 'a) metadata_ops \<Rightarrow> 'm \<Rightarrow> (js_num \<times> js_string) option"
where
  "status_of M m =
     map_option (\<lambda>s. (s, decodeGRPCStatus (first (md_get M m (js ''grpc-message'')))))
       (getStatusFromHeaders M m)"

definition outcome ::
  "('m, 'a) metadata_ops \<Rightarrow> 'm option \<Rightarrow> 'm option \<Rightarrow> js_num \<times> js_string \<times> 'm"
where
  "outcome M hs ts =
     (case (ts, hs) of
        (Some t, _) \<Rightarrow>
          (case status_of M t of
             Some (s, msg) \<Rightarrow> (s, msg, t)
           | None \<Rightarrow> (code Internal,
               js ''Response closed without grpc-status (Trailers provided)'', md_of_obj M []))
      | (None, Some h) \<Rightarrow>
          (case status_of M h of
             Some (s, msg) \<Rightarrow> (s, msg, h)
           | None \<Rightarrow> (code Unknown,
               js ''Response closed without grpc-status (Headers only)'', h))
      | (None, None) \<Rightarrow>
          (code Unknown, js ''Response closed without headers'', md_of_obj M []))"

lemma onTransportEnd_outcome:
  assumes "\<not> closed c"
    and "outcome (metadata E) (responseHeaders c) (responseTrailers c) = (cd, msg, m)"
  shows "onTransportEnd E c = rawOnEnd E cd msg m c"
  using assms
  by (auto simp: onTransportEnd_def outcome_def status_of_def rawOnError_eq Let_def
      split: option.splits)

lemma onTransportEnd_delivers:
  assumes "observers E" "\<not> completed c" "\<not> closed c"
    and "outcome (metadata E) (responseHeaders c) (responseTrailers c) = (cd, msg, m)"
  shows "notified (trace (onTransportEnd E c)) =
      notified (trace c) @ to_all (EndEv cd msg m) (onEndCallbacks c)"
    and "completed (onTransportEnd E c)"
  using assms rawOnEnd_delivers(1) [OF assms(1-3), of cd msg m]
  by (simp_all add: onTransportEnd_outcome rawOnEnd_delivers(2) face_fields)

lemma onTransportEnd_completes: "\<not> closed c \<Longrightarrow> completed (onTransportEnd E c)"
  by (cases "outcome (metadata E) (responseHeaders c) (responseTrailers c)")
    (simp add: onTransportEnd_outcome rawOnEnd_def flag_simps)

section \<open>A response in chunks\<close>

fun payloads :: "'m chunk list \<Rightarrow> bytes list" where
  "payloads [] = []"
| "payloads (MESSAGE d # ds) = d # payloads ds"
| "payloads (TRAILERS _ # ds) = payloads ds"

fun trailers_after :: "('m, 'a) metadata_ops \<Rightarrow> 'm chunk list \<Rightarrow> 'm option \<Rightarrow> 'm option" where
  "trailers_after M [] ts = ts"
| "trailers_after M (MESSAGE _ # ds) ts = trailers_after M ds ts"
| "trailers_after M (TRAILERS t # ds) ts = trailers_after M ds (Some (md_copy M t))"

lemma payloads_append: "payloads (xs @ ys) = payloads xs @ payloads ys"
  by (induction xs rule: payloads.induct) simp_all

lemma payloads_messages [simp]: "payloads (map MESSAGE ds) = ds"
  by (induction ds) simp_all

lemma trailers_after_append:
  "trailers_after M (xs @ ys) ts = trailers_after M ys (trailers_after M xs ts)"
  by (induction M xs ts rule: trailers_after.induct) simp_all

lemma trailers_after_messages [simp]: "trailers_after M (map MESSAGE ds) ts = ts"
  by (induction ds) simp_all

definition deserialized ::
  "('m, 'a, 'req, 'res, 'cb, 'u, 't) env \<Rightarrow> bytes list \<Rightarrow> 'res list \<Rightarrow> bool"
where
  "deserialized E = list_all2 (\<lambda>d r. deserializeBinary (methodDefinition E) d = Inr r)"

definition message_events ::
  "'cb list \<Rightarrow> 'res list \<Rightarrow> ('cb \<times> ('m, 'res) cb_event) list"
where
  "message_events cbs rs = concat (map (\<lambda>r. to_all (MessageEv r) cbs) rs)"

lemma message_events_simps [simp]:
  "message_events cbs [] = []"
  "message_events cbs (r # rs) = to_all (MessageEv r) cbs @ message_events cbs rs"
  "message_events cbs (rs @ rs') = message_events cbs rs @ message_events cbs rs'"
  by (simp_all add: message_events_def)

text \<open>
  The state after chunks have been handled while headers are known: only \<^verbatim>\<open>responseTrailers\<close>
  may have changed among the fields of \<open>face\<close>, and each message was announced in order.
\<close>

lemma handle_chunks_delivers:
  assumes "observers E"
  shows "\<not> completed c \<Longrightarrow> \<not> closed c \<Longrightarrow> responseHeaders c \<noteq> None \<Longrightarrow>
     deserialized E (payloads data) rs \<Longrightarrow>
     fst (handle_chunks E data c) = None \<and>
     face (snd (handle_chunks E data c)) =
       face (c\<lparr>responseTrailers := trailers_after (metadata E) data (responseTrailers c)\<rparr>) \<and>
     notified (trace (snd (handle_chunks E data c))) =
       notified (trace c) @ message_events (onMessageCallbacks c) rs"
proof (induction data arbitrary: c rs rule: payloads.induct)
  case 1
  then show ?case by (simp add: deserialized_def)
next
  case (2 d ds)
  then obtain r rs' where rs: "rs = r # rs'"
    and r: "deserializeBinary (methodDefinition E) d = Inr r" and rs': "deserialized E (payloads ds) rs'"
    by (auto simp: deserialized_def list_all2_Cons1)
  note m = rawOnMessage_delivers [OF assms "2.prems"(1,2), of r]
  from m(1) have f: "completed (rawOnMessage E r c) = completed c"
      "closed (rawOnMessage E r c) = closed c"
      "responseHeaders (rawOnMessage E r c) = responseHeaders c"
      "responseTrailers (rawOnMessage E r c) = responseTrailers c"
      "onMessageCallbacks (rawOnMessage E r c) = onMessageCallbacks c"
    by (simp_all add: face_fields)
  from "2.IH" [of "rawOnMessage E r c" rs'] "2.prems" f rs' m show ?case
    by (simp add: r rs face_def)
next
  case (3 t ds)
  let ?c = "c\<lparr>responseTrailers := Some (md_copy (metadata E) t)\<rparr>"
  from "3.prems"(3) have h: "handle_chunks E (TRAILERS t # ds) c = handle_chunks E ds ?c"
    by (cases "responseHeaders c") simp_all
  from "3.IH" [of ?c rs] "3.prems" show ?case
    unfolding h by (simp add: face_def)
qed

lemma onTransportChunk_delivers:
  assumes "observers E" "\<not> completed c" "\<not> closed c" "responseHeaders c \<noteq> None"
    and "parse (metadata E) (hasSlice E) b False (chunkParser c) = (Inr data, p)"
    and "deserialized E (payloads data) rs"
  shows "face (snd (onTransportChunk E b c)) =
       face (c\<lparr>chunkParser := p,
               responseTrailers := trailers_after (metadata E) data (responseTrailers c)\<rparr>)"
    and "notified (trace (snd (onTransportChunk E b c))) =
       notified (trace c) @ message_events (onMessageCallbacks c) rs"
  using handle_chunks_delivers [OF assms(1), of "c\<lparr>chunkParser := p\<rparr>" data rs] assms
  by (simp_all add: onTransportChunk_def)

section \<open>A client driven by its transport\<close>

text \<open>
  Between two calls on the client its transport may change state by itself (a socket opens,
  a response grows).  \<open>driven E is c d\<close>: from \<open>c\<close> the inputs \<open>is\<close>, in this order and with
  any such changes, lead to \<open>d\<close>.  What a transport's event handlers do to its client is
  an instance.
\<close>

inductive driven ::
  "('m, 'a, 'req, 'res, 'cb, 'u, 't) env \<Rightarrow> ('m, 'a, 'req, 'cb) input list
     \<Rightarrow> ('m, 'res, 'cb, 'u, 't) client \<Rightarrow> ('m, 'res, 'cb, 'u, 't) client \<Rightarrow> bool"
  for E
where
  rest: "driven E [] c (c\<lparr>transport := t\<rparr>)"
| input: "driven E is (step E i (c\<lparr>transport := t\<rparr>)) d \<Longrightarrow> driven E (i # is) c d"

inductive_cases driven_NilE: "driven E [] c d"
inductive_cases driven_ConsE: "driven E (i # is) c d"

lemma driven_changed: "driven E is (c\<lparr>transport := t\<rparr>) d \<Longrightarrow> driven E is c d"
  by (erule driven.cases) (auto intro: driven.rest driven.input [where t = t for t])

lemma driven_append: "driven E xs c d \<Longrightarrow> driven E ys d e \<Longrightarrow> driven E (xs @ ys) c e"
  by (induction rule: driven.induct) (auto intro: driven_changed driven.input)

lemma driven_idle: "driven E [] c c"
  using driven.rest [where E = E and c = c and t = "transport c"] by simp

lemma driven_step: "driven E [i] c (step E i (c\<lparr>transport := t\<rparr>))"
  by (rule driven.input [OF driven_idle])

lemma driven_run: "driven E is c (run E is c)"
proof (induction "is" arbitrary: c)
  case Nil
  show ?case by (simp add: run_def driven_idle)
next
  case (Cons i "is")
  from Cons [of "step E i c"]
  have "driven E is (step E i (c\<lparr>transport := transport c\<rparr>)) (run E is (step E i c))" by simp
  from driven.input [OF this] show ?case by (simp add: run_def)
qed

lemma driven_then_change: "driven E is c d \<Longrightarrow> driven E is c (d\<lparr>transport := t\<rparr>)"
  using driven_append [OF _ driven.rest] by fastforce

text \<open>An invariant that says nothing of the transport's state survives being driven.\<close>

lemma driven_keeps:
  assumes "driven E is c d" "P c" "list_all Q is"
    and "\<And>i c. Q i \<Longrightarrow> P c \<Longrightarrow> P (step E i c)" "\<And>c t. P c \<Longrightarrow> P (c\<lparr>transport := t\<rparr>)"
  shows "P d"
  using assms(1-3) by (induction rule: driven.induct) (auto intro: assms(4,5))

text \<open>Chunk after chunk, the client announces what \<open>feed\<close> reads.\<close>

lemma chunks_deliver:
  assumes "observers E"
  shows "driven E (map TransportChunk bs @ is) c d \<Longrightarrow>
     \<not> completed c \<Longrightarrow> \<not> closed c \<Longrightarrow> responseHeaders c \<noteq> None \<Longrightarrow>
     feed (metadata E) (hasSlice E) bs (chunkParser c) = (Inr data, p) \<Longrightarrow>
     deserialized E (payloads data) rs \<Longrightarrow>
     \<exists>c'. driven E is c' d \<and>
     face c' = face (c\<lparr>chunkParser := p,
               responseTrailers := trailers_after (metadata E) data (responseTrailers c)\<rparr>) \<and>
     notified (trace c') = notified (trace c) @ message_events (onMessageCallbacks c) rs"
proof (induction bs arbitrary: c data rs)
  case Nil
  then show ?case by (intro exI [of _ c]) (simp add: face_def deserialized_def)
next
  case (Cons b bs)
  from Cons.prems(1) obtain t where
    d: "driven E (map TransportChunk bs @ is) (snd (onTransportChunk E b (c\<lparr>transport := t\<rparr>))) d"
    by (auto elim: driven_ConsE)
  let ?c = "snd (onTransportChunk E b (c\<lparr>transport := t\<rparr>))"
  from Cons.prems(5) obtain cs q ds where
    b: "parse (metadata E) (hasSlice E) b False (chunkParser c) = (Inr cs, q)" and
    bs: "feed (metadata E) (hasSlice E) bs q = (Inr ds, p)" and data: "data = cs @ ds"
    by (auto split: prod.splits sum.splits)
  from Cons.prems(6) obtain rs1 rs2 where
    rs: "rs = rs1 @ rs2" "deserialized E (payloads cs) rs1" "deserialized E (payloads ds) rs2"
    by (auto simp: data payloads_append deserialized_def list_all2_append1)
  have cd: "face ?c = face (c\<lparr>chunkParser := q,
        responseTrailers := trailers_after (metadata E) cs (responseTrailers c)\<rparr>)"
    "notified (trace ?c) = notified (trace c) @ message_events (onMessageCallbacks c) rs1"
    using onTransportChunk_delivers [OF assms, of "c\<lparr>transport := t\<rparr>"] Cons.prems(2-4) b rs(2)
    by (simp_all add: face_def)
  from cd(1) have f: "completed ?c = completed c" "closed ?c = closed c"
      "responseHeaders ?c = responseHeaders c" "chunkParser ?c = q"
      "onMessageCallbacks ?c = onMessageCallbacks c"
      "responseTrailers ?c = trailers_after (metadata E) cs (responseTrailers c)"
    by (simp_all add: face_def)
  from Cons.IH [OF d, of ds rs2] Cons.prems f bs rs(3) obtain c' where
    "driven E is c' d"
    "face c' = face (?c\<lparr>chunkParser := p,
        responseTrailers := trailers_after (metadata E) ds (responseTrailers ?c)\<rparr>)"
    "notified (trace c') = notified (trace ?c) @ message_events (onMessageCallbacks ?c) rs2"
    by auto
  then show ?case
    using cd f rs(1) by (intro exI [of _ c']) (simp add: face_def data trailers_after_append)
qed

section \<open>A whole response\<close>

lemma run_append: "run E (xs @ ys) c = run E ys (run E xs c)"
  by (simp add: run_def)

lemma run_Nil: "run E [] c = c"
  by (simp add: run_def)

lemma run_Cons: "run E (i # is) c = run E is (step E i c)"
  by (simp add: run_def)

text \<open>Headers with status 200 and no \<^verbatim>\<open>grpc-status\<close> only announce themselves.\<close>

lemma onTransportHeaders_delivers:
  assumes "observers E" "\<not> completed c" "\<not> closed c"
    and "status \<noteq> 0" "headers_code (getStatusFromHeaders (metadata E) h) status = code OK"
  shows "face (onTransportHeaders E h status c) = face (c\<lparr>responseHeaders := Some h\<rparr>)"
    and "notified (trace (onTransportHeaders E h status c)) =
      notified (trace c) @ to_all (HeadersEv h) (onHeadersCallbacks c)"
  using assms rawOnHeaders_delivers [OF assms(1), of "c\<lparr>responseHeaders := Some h\<rparr>" h]
  by (simp_all add: onTransportHeaders_def Let_def)

text \<open>Headers that carry an error end the request at once.\<close>

lemma onTransportHeaders_error:
  assumes "observers E" "\<not> completed c" "\<not> closed c"
    and "status \<noteq> 0" "headers_code (getStatusFromHeaders (metadata E) h) status = cd" "cd \<noteq> code OK"
  shows "notified (trace (onTransportHeaders E h status c)) =
      notified (trace c) @ to_all (HeadersEv h) (onHeadersCallbacks c) @
      to_all (EndEv cd (decodeGRPCStatus (first (md_get (metadata E) h (js ''grpc-message'')))) h)
        (onEndCallbacks c)"
    and "completed (onTransportHeaders E h status c)"
proof -
  let ?d = "rawOnHeaders E h (c\<lparr>responseHeaders := Some h\<rparr>)"
  let ?msg = "decodeGRPCStatus (first (md_get (metadata E) h (js ''grpc-message'')))"
  note hs = rawOnHeaders_delivers [OF assms(1), of "c\<lparr>responseHeaders := Some h\<rparr>" h]
  have eq: "onTransportHeaders E h status c = rawOnEnd E cd ?msg h ?d"
    using assms by (simp add: onTransportHeaders_def Let_def rawOnError_eq)
  from hs(1) assms have d: "\<not> completed ?d" "\<not> closed ?d" "onEndCallbacks ?d = onEndCallbacks c"
    by (simp_all add: face_fields)
  note e = rawOnEnd_delivers [OF assms(1) d(1,2), of cd ?msg h]
  show "notified (trace (onTransportHeaders E h status c)) =
      notified (trace c) @ to_all (HeadersEv h) (onHeadersCallbacks c) @
      to_all (EndEv cd ?msg h) (onEndCallbacks c)"
    using e(2) hs(2) d(3) assms(2) unfolding eq by simp
  show "completed (onTransportHeaders E h status c)"
    using e(1) unfolding eq by (simp add: face_def)
qed

text \<open>
  The stream the server sends: a message frame per payload and, at its end, a trailer
  frame, cut into chunks anywhere.
\<close>

definition response_stream :: "bytes list \<Rightarrow> bytes \<Rightarrow> bytes" where
  "response_stream ds t = concat (map (\<lambda>d. frame_bytes (0, d)) ds) @ frame_bytes (0x80, t)"

definition at_frame :: "parser \<Rightarrow> bool" where
  "at_frame p \<longleftrightarrow> parser_inv p \<and> pending p = []"

lemma new_at_frame [simp]: "at_frame new_ChunkParser"
  by (simp add: at_frame_def)

lemma feed_response:
  assumes "at_frame p" "list_all (\<lambda>d. length d < 2 ^ 32) ds" "length t < 2 ^ 32"
    and "concat bs = response_stream ds t" "parseTrailerData M t = Inr m"
  shows "\<exists>q. feed M sl bs p = (Inr (map MESSAGE ds @ [TRAILERS m]), q)"
proof -
  let ?fs = "map (Pair 0) ds" and ?t = "(0x80, t)"
  have fs: "list_all short_frame ?fs" "list_all (\<lambda>f. \<not> is_trailer f) ?fs"
    using assms(2) by (simp_all add: list_all_iff short_frame_def)
  have t: "short_frame ?t" "is_trailer ?t"
    using assms(3) by (simp_all add: short_frame_def is_trailer_def)
  have scan: "scan (pending p @ concat bs) = (?fs @ [?t], [])"
    using scan_frames_trailer [OF fs t, of "[]"] assms(1)
    by (simp add: assms(4) response_stream_def comp_def at_frame_def)
  have "read_frames M (?fs @ [?t]) = Inr (map MESSAGE ds @ [TRAILERS m])"
    using fs(2) t(2) assms(5)
    by (simp add: read_frames_append read_frames_messages list_all_iff comp_def)
  with feed_scan [of p bs M sl] scan assms(1) show ?thesis
    by (simp add: next_frame_def at_frame_def) blast
qed

text \<open>
  From the state in which headers are known: the rest of a response, its messages, its
  trailers and its end.
\<close>

lemma body_delivered:
  assumes obs: "observers E"
    and driven: "driven E (map TransportChunk bs @ [TransportEnd]) c d"
    and live: "\<not> completed c" "\<not> closed c" "at_frame (chunkParser c)" "responseHeaders c \<noteq> None"
    and frames: "list_all (\<lambda>d. length d < 2 ^ 32) ds" "length t < 2 ^ 32"
      "concat bs = response_stream ds t"
    and ok: "deserialized E ds rs" "parseTrailerData (metadata E) t = Inr m"
    and stat: "status_of (metadata E) (md_copy (metadata E) m) = Some (s, msg)"
  shows "notified (trace d) =
      notified (trace c) @ message_events (onMessageCallbacks c) rs @
      to_all (EndEv s msg (md_copy (metadata E) m)) (onEndCallbacks c)"
proof -
  from feed_response [OF live(3) frames ok(2)] obtain p where
    feed: "feed (metadata E) (hasSlice E) bs (chunkParser c) =
      (Inr (map MESSAGE ds @ [TRAILERS m]), p)" by blast
  have "deserialized E (payloads (map MESSAGE ds @ [TRAILERS m])) rs"
    using ok(1) by (simp add: payloads_append)
  with chunks_deliver [OF obs driven live(1,2,4) feed] obtain c2 where
    e: "driven E [TransportEnd] c2 d"
    and f2: "face c2 = face (c\<lparr>chunkParser := p, responseTrailers := Some (md_copy (metadata E) m)\<rparr>)"
    and n2: "notified (trace c2) = notified (trace c) @ message_events (onMessageCallbacks c) rs"
    by (fastforce simp: trailers_after_append)
  from f2 live have c2: "\<not> completed c2" "\<not> closed c2"
      "responseTrailers c2 = Some (md_copy (metadata E) m)" "onEndCallbacks c2 = onEndCallbacks c"
    by (simp_all add: face_def)
  have out: "outcome (metadata E) (responseHeaders c2) (responseTrailers c2) =
      (s, msg, md_copy (metadata E) m)"
    using stat by (simp add: outcome_def c2(3))
  from e obtain t1 t2 where "d = onTransportEnd E (c2\<lparr>transport := t1\<rparr>)\<lparr>transport := t2\<rparr>"
    by (auto elim!: driven_ConsE driven_NilE)
  with onTransportEnd_delivers(1) [OF obs, of "c2\<lparr>transport := t1\<rparr>"] c2 out show ?thesis
    by (simp add: n2)
qed

text \<open>Headers by HTTP, and a body.\<close>

lemma response_delivered:
  assumes obs: "observers E"
    and driven: "driven E (TransportHeaders h status # map TransportChunk bs @ [TransportEnd]) c d"
    and fresh: "\<not> completed c" "\<not> closed c" "at_frame (chunkParser c)"
    and hdrs: "status \<noteq> 0"
      "headers_code (getStatusFromHeaders (metadata E) h) status = code OK"
    and frames: "list_all (\<lambda>d. length d < 2 ^ 32) ds" "length t < 2 ^ 32"
      "concat bs = response_stream ds t"
    and ok: "deserialized E ds rs" "parseTrailerData (metadata E) t = Inr m"
    and stat: "status_of (metadata E) (md_copy (metadata E) m) = Some (s, msg)"
  shows "notified (trace d) =
      notified (trace c) @ to_all (HeadersEv h) (onHeadersCallbacks c) @
      message_events (onMessageCallbacks c) rs @
      to_all (EndEv s msg (md_copy (metadata E) m)) (onEndCallbacks c)"
proof -
  from driven obtain t0 where d0:
    "driven E (map TransportChunk bs @ [TransportEnd])
       (onTransportHeaders E h status (c\<lparr>transport := t0\<rparr>)) d"
    by (auto elim: driven_ConsE)
  let ?c1 = "onTransportHeaders E h status (c\<lparr>transport := t0\<rparr>)"
  have d1: "face ?c1 = face (c\<lparr>responseHeaders := Some h\<rparr>)"
    "notified (trace ?c1) = notified (trace c) @ to_all (HeadersEv h) (onHeadersCallbacks c)"
    using onTransportHeaders_delivers [OF obs _ _ hdrs, of "c\<lparr>transport := t0\<rparr>"] fresh
    by (simp_all add: face_def)
  from d1(1) have f1: "completed ?c1 = completed c" "closed ?c1 = closed c"
      "responseHeaders ?c1 = Some h" "chunkParser ?c1 = chunkParser c"
      "onMessageCallbacks ?c1 = onMessageCallbacks c" "onEndCallbacks ?c1 = onEndCallbacks c"
    by (simp_all add: face_def)
  from body_delivered [OF obs d0 _ _ _ _ frames ok stat] f1 fresh d1(2) show ?thesis by simp
qed

text \<open>
  Headers in a frame of their own, before anything else (a WebSocket has no other way to
  carry them): they are announced as headers, and are not looked at for a status.
\<close>

lemma onTransportChunk_partial:
  assumes c: "\<not> completed c" "\<not> closed c" "parser_inv (chunkParser c)"
    and part: "next_frame (pending (chunkParser c) @ b) = None"
  shows "\<exists>p. parser_inv p \<and> pending p = pending (chunkParser c) @ b \<and>
    snd (onTransportChunk E b c) = c\<lparr>chunkParser := p\<rparr>"
proof -
  have "scan (pending (chunkParser c) @ b) = ([], pending (chunkParser c) @ b)"
    using part by (rule grpc_frames.greedy_none)
  with c(3) parse_refines_scan [of "chunkParser c" b False "metadata E" "hasSlice E"] obtain p where
    "parse (metadata E) (hasSlice E) b False (chunkParser c) = (Inr [], p)"
    "parser_inv p" "pending p = pending (chunkParser c) @ b"
    by auto
  with c(2) show ?thesis by (auto simp: onTransportChunk_def Let_def)
qed

lemma onTransportChunk_headers:
  assumes obs: "observers E"
    and c: "\<not> completed c" "\<not> closed c" "parser_inv (chunkParser c)" "responseHeaders c = None"
    and frame: "pending (chunkParser c) @ b = frame_bytes (0x80, th)"
    and th: "length th < 2 ^ 32" "parseTrailerData (metadata E) th = Inr mh"
  shows "\<exists>p. at_frame p \<and>
      face (snd (onTransportChunk E b c)) =
        face (c\<lparr>chunkParser := p, responseHeaders := Some (md_copy (metadata E) mh)\<rparr>) \<and>
      notified (trace (snd (onTransportChunk E b c))) =
        notified (trace c) @ to_all (HeadersEv (md_copy (metadata E) mh)) (onHeadersCallbacks c)"
proof -
  let ?h = "md_copy (metadata E) mh"
  have t: "is_trailer (0x80, th)" by (simp add: is_trailer_def)
  have "scan (frame_bytes (0x80, th)) = ([(0x80, th)], [])"
    using scan_frames_trailer [of "[]" "(0x80, th)" "[]"] th(1) t by (simp add: short_frame_def)
  with c(3) frame parse_refines_scan [of "chunkParser c" b False "metadata E" "hasSlice E"]
  obtain p where p: "parse (metadata E) (hasSlice E) b False (chunkParser c) = (Inr [TRAILERS mh], p)"
    "at_frame p"
    using th(2) t by (auto simp: at_frame_def)
  have "snd (onTransportChunk E b c) =
      rawOnHeaders E ?h (c\<lparr>chunkParser := p, responseHeaders := Some ?h\<rparr>)"
    using c p(1) by (simp add: onTransportChunk_def Let_def)
  with rawOnHeaders_delivers [OF obs, of "c\<lparr>chunkParser := p, responseHeaders := Some ?h\<rparr>" ?h] c p(2)
  show ?thesis by auto
qed

text \<open>
  The chunks that make up the frame, up to the one that completes it; what is left of them is
  empty.
\<close>

lemma framed_headers_delivered:
  assumes obs: "observers E"
    and driven: "driven E (map TransportChunk hs @ is) c d"
    and c: "\<not> completed c" "\<not> closed c" "parser_inv (chunkParser c)" "responseHeaders c = None"
    and frame: "next_frame (pending (chunkParser c)) = None"
      "pending (chunkParser c) @ concat hs = frame_bytes (0x80, th)"
    and th: "length th < 2 ^ 32" "parseTrailerData (metadata E) th = Inr mh"
  shows "\<exists>es p c'. concat es = [] \<and> driven E (map TransportChunk es @ is) c' d \<and> at_frame p \<and>
      face c' = face (c\<lparr>chunkParser := p, responseHeaders := Some (md_copy (metadata E) mh)\<rparr>) \<and>
      notified (trace c') =
        notified (trace c) @ to_all (HeadersEv (md_copy (metadata E) mh)) (onHeadersCallbacks c)"
  using driven c frame
proof (induction hs arbitrary: c)
  case Nil
  have "short_frame (0x80, th)" using th(1) by (simp add: short_frame_def)
  with Nil.prems(6,7) next_frame_frame_bytes [of "(0x80, th)" "[]"] show ?case by simp
next
  case (Cons b hs)
  from Cons.prems(1) obtain t where d: "driven E (map TransportChunk hs @ is)
      (snd (onTransportChunk E b (c\<lparr>transport := t\<rparr>))) d"
    by (auto elim: driven_ConsE)
  let ?c = "c\<lparr>transport := t\<rparr>"
  have c: "\<not> completed ?c" "\<not> closed ?c" "parser_inv (chunkParser ?c)" "responseHeaders ?c = None"
    using Cons.prems(2-5) by simp_all
  show ?case
  proof (cases "next_frame (pending (chunkParser c) @ b)")
    case None
    then obtain p where p: "parser_inv p" "pending p = pending (chunkParser c) @ b"
      "snd (onTransportChunk E b ?c) = ?c\<lparr>chunkParser := p\<rparr>"
      using onTransportChunk_partial [OF c(1-3), of b E] by auto
    have IH: "\<exists>es p' c'. concat es = [] \<and> driven E (map TransportChunk es @ is) c' d \<and> at_frame p' \<and>
      face c' = face (?c\<lparr>chunkParser := p, chunkParser := p', responseHeaders := Some (md_copy (metadata E) mh)\<rparr>) \<and>
      notified (trace c') = notified (trace (?c\<lparr>chunkParser := p\<rparr>)) @
        to_all (HeadersEv (md_copy (metadata E) mh)) (onHeadersCallbacks (?c\<lparr>chunkParser := p\<rparr>))"
      using Cons.IH [OF d [unfolded p(3)]] c Cons.prems(7) None p by simp
    then show ?thesis by (simp add: face_def)
  next
    case (Some fr)
    obtain f r where fr: "next_frame (pending (chunkParser c) @ b) = Some (f, r)"
      using Some by (cases fr) simp
    have "next_frame (frame_bytes (0x80, th)) = Some ((0x80, th), [])"
      using next_frame_frame_bytes [of "(0x80, th)" "[]"] th(1) by (simp add: short_frame_def)
    with next_frame_extend [OF fr, of "concat hs"] Cons.prems(7) have e: "concat hs = []" by simp
    with onTransportChunk_headers [OF obs c _ th, of b] Cons.prems(7) obtain p where
      "at_frame p" "face (snd (onTransportChunk E b ?c)) =
        face (?c\<lparr>chunkParser := p, responseHeaders := Some (md_copy (metadata E) mh)\<rparr>)"
      "notified (trace (snd (onTransportChunk E b ?c))) =
        notified (trace c) @ to_all (HeadersEv (md_copy (metadata E) mh)) (onHeadersCallbacks c)"
      by auto
    with d e show ?thesis
      by (intro exI [of _ hs] exI [of _ p] exI [of _ "snd (onTransportChunk E b ?c)"]) (simp add: face_def)
  qed
qed

lemma framed_response_delivered:
  assumes obs: "observers E"
    and driven: "driven E (map TransportChunk (hs @ bs) @ [TransportEnd]) c d"
    and fresh: "\<not> completed c" "\<not> closed c" "at_frame (chunkParser c)" "responseHeaders c = None"
    and th: "concat hs = frame_bytes (0x80, th)" "length th < 2 ^ 32" "parseTrailerData (metadata E) th = Inr mh"
    and frames: "list_all (\<lambda>d. length d < 2 ^ 32) ds" "length t < 2 ^ 32"
      "concat bs = response_stream ds t"
    and ok: "deserialized E ds rs" "parseTrailerData (metadata E) t = Inr m"
    and stat: "status_of (metadata E) (md_copy (metadata E) m) = Some (s, msg)"
  shows "notified (trace d) =
      notified (trace c) @ to_all (HeadersEv (md_copy (metadata E) mh)) (onHeadersCallbacks c) @
      message_events (onMessageCallbacks c) rs @
      to_all (EndEv s msg (md_copy (metadata E) m)) (onEndCallbacks c)"
proof -
  have "driven E (map TransportChunk hs @ map TransportChunk bs @ [TransportEnd]) c d"
    using driven by simp
  from framed_headers_delivered [OF obs this _ _ _ _ _ _ th(2,3)] fresh th(1) obtain es p c1 where
    c1: "concat es = []" "driven E (map TransportChunk es @ map TransportChunk bs @ [TransportEnd]) c1 d"
      "at_frame p"
      "face c1 = face (c\<lparr>chunkParser := p, responseHeaders := Some (md_copy (metadata E) mh)\<rparr>)"
      "notified (trace c1) =
        notified (trace c) @ to_all (HeadersEv (md_copy (metadata E) mh)) (onHeadersCallbacks c)"
    by (auto simp: at_frame_def next_frame_def)
  then have d: "driven E (map TransportChunk (es @ bs) @ [TransportEnd]) c1 d"
    "concat (es @ bs) = response_stream ds t"
    using frames(3) by simp_all
  from c1(4) have f1: "completed c1 = completed c" "closed c1 = closed c"
      "responseHeaders c1 = Some (md_copy (metadata E) mh)" "chunkParser c1 = p"
      "onMessageCallbacks c1 = onMessageCallbacks c" "onEndCallbacks c1 = onEndCallbacks c"
    by (simp_all add: face_def)
  from body_delivered [OF obs d(1) _ _ _ _ frames(1,2) d(2) ok stat] f1 fresh c1(3,5) show ?thesis by simp
qed

section \<open>A response that cannot be read\<close>

lemma parse_error_delivers:
  assumes "observers E" "\<not> completed c" "\<not> closed c"
    and "parse (metadata E) (hasSlice E) b False (chunkParser c) = (Inl e, p)"
  shows "notified (trace (snd (onTransportChunk E b c))) =
      notified (trace c) @
      to_all (EndEv (code Internal) (js ''parsing error: '' @ message e) (md_of_obj (metadata E) []))
        (onEndCallbacks c)"
    and "completed (snd (onTransportChunk E b c))"
proof -
  let ?c = "c\<lparr>chunkParser := p\<rparr>"
  have eq: "snd (onTransportChunk E b c) =
      rawOnEnd E (code Internal) (js ''parsing error: '' @ message e) (md_of_obj (metadata E) []) ?c"
    using assms(3,4) by (simp add: onTransportChunk_def rawOnError_eq del: js_Cons)
  have "\<not> completed ?c" "\<not> closed ?c" using assms(2,3) by simp_all
  note d = rawOnEnd_delivers [OF assms(1) this]
  show "completed (snd (onTransportChunk E b c))"
    unfolding eq using d(1) by (simp add: face_def)
  show "notified (trace (snd (onTransportChunk E b c))) =
      notified (trace c) @
      to_all (EndEv (code Internal) (js ''parsing error: '' @ message e) (md_of_obj (metadata E) []))
        (onEndCallbacks c)"
    unfolding eq d(2) by simp
qed

end
