(* ===== verification/Client_Properties.thy ===== *)
theory Client_Properties
  imports Client_Delivery
begin

text \<open>
  The properties of the client, stated over its model alone, each on the lemmas of the
  preceding theories; and the small environment on which their witnesses run.
\<close>

section \<open>An environment for the witnesses\<close>

text \<open>
  Callbacks are numbers and count their invocations, callback 9 throws, callback 8 closes the client; messages are
  byte strings; every call on the transport returns.
\<close>

definition demo_method :: "(bytes, bytes) method_definition" where
  "demo_method =
     \<lparr>methodName = js ''m'', serviceName = js ''s'', requestStream = False, responseStream = True,
      serializeBinary = Inr, deserializeBinary = Inr\<rparr>"

definition demo_callback ::
  "nat \<Rightarrow> (assoc, bytes) cb_event \<Rightarrow> nat \<Rightarrow> nat \<times> (assoc, bytes, nat) action list"
where
  "demo_callback cb ev n =
     (n + 1, if cb = 9 then [Throw (Error [])] else if cb = 8 then [Close] else [])"

definition demo :: "(assoc, assoc, bytes, bytes, nat, nat, unit) env" where
  "demo =
     \<lparr>metadata = assoc_metadata, hasSlice = True, methodDefinition = demo_method,
      transportCall = (\<lambda>_ t. (None, t)), callback = demo_callback\<rparr>"

text \<open>The same with callbacks that only observe.\<close>

definition quiet_demo :: "(assoc, assoc, bytes, bytes, nat, nat, unit) env" where
  "quiet_demo = demo\<lparr>callback := (\<lambda>cb ev n. (n + 1, []))\<rparr>"

definition demo_client :: "nat list \<Rightarrow> (assoc, bytes, nat, nat, unit) client" where
  "demo_client cbs =
     (new_client () 0)\<lparr>onHeadersCallbacks := cbs, onMessageCallbacks := cbs, onEndCallbacks := cbs\<rparr>"

lemma demo_fields [simp]:
  "metadata demo = assoc_metadata" "hasSlice demo = True" "methodDefinition demo = demo_method"
  "transportCall demo x t = (None, t)" "callback demo = demo_callback"
  "metadata quiet_demo = assoc_metadata" "hasSlice quiet_demo = True"
  "methodDefinition quiet_demo = demo_method" "transportCall quiet_demo x t = (None, t)"
  "requestStream demo_method = False" "deserializeBinary demo_method b = Inr b"
  "serializeBinary demo_method b = Inr b"
  by (simp_all add: demo_def quiet_demo_def demo_method_def)

lemma quiet_demo_observers [simp]: "observers quiet_demo"
  by (simp add: observers_def quiet_demo_def)

lemma demo_client_fields [simp]:
  "completed (demo_client cbs) = False" "closed (demo_client cbs) = False"
  "started (demo_client cbs) = False"
  "chunkParser (demo_client cbs) = new_ChunkParser"
  "responseHeaders (demo_client cbs) = None" "responseTrailers (demo_client cbs) = None"
  "onHeadersCallbacks (demo_client cbs) = cbs" "onMessageCallbacks (demo_client cbs) = cbs"
  "onEndCallbacks (demo_client cbs) = cbs" "trace (demo_client cbs) = []"
  by (simp_all add: demo_client_def new_client_def)

text \<open>The trailer block \<^verbatim>\<open>grpc-status:0\<close> and what it is read as.\<close>

definition status_block :: bytes where
  "status_block = [103, 114, 112, 99, 45, 115, 116, 97, 116, 117, 115, 58, 48, 13, 10]"

definition status_md :: assoc where
  "status_md = [(js ''grpc-status'', [js ''0''])]"

lemma status_block_read: "parseTrailerData assoc_metadata status_block = Inr status_md"
  by code_simp

lemma status_md_status: "status_of assoc_metadata status_md = Some (Num 0, [])"
  by code_simp

lemma length_status_block: "length status_block = 15"
  by (simp add: status_block_def)

section \<open>Status\<close>

text \<open>
  The status of the response headers is OK exactly when HTTP says 200 and there is no
  \<^verbatim>\<open>grpc-status\<close> above zero: a zero, a negative and an unreadable \<^verbatim>\<open>grpc-status\<close> are ignored in
  favour of the HTTP status.
\<close>

theorem headers_code_OK:
  "headers_code g status = code OK \<longleftrightarrow> status = 200 \<and> (\<nexists>n. g = Some (Num n) \<and> n > 0)"
proof -
  have http: "code (httpStatusToCode status) = code OK \<longleftrightarrow> status = 200"
  proof -
    have "code a = code b \<longleftrightarrow> a = b" for a b by (simp add: code_def)
    then show ?thesis by (simp add: httpStatusToCode_OK)
  qed
  show ?thesis
  proof (cases g)
    case None
    with http show ?thesis by (simp add: headers_code_def)
  next
    case (Some v)
    then show ?thesis
      by (cases v) (use http in \<open>auto simp: headers_code_def code_def\<close>)
  qed
qed

text \<open>
  A server's \<^verbatim>\<open>grpc-status\<close> is read back as the number it wrote, for every status in
  decimal, when it is the first value of the header.
\<close>

theorem grpc_status_round_trip:
  assumes "md_get M headers (js ''grpc-status'') = nat_digits n # vs"
  shows "getStatusFromHeaders M headers = Some (Num (int n))"
  using assms by (simp add: getStatusFromHeaders_def parseInt_nat_digits)

theorem grpc_status_round_trip_witness:
  "getStatusFromHeaders assoc_metadata [(js ''grpc-status'', [nat_digits 13])] = Some (Num (int 13))"
  by (rule grpc_status_round_trip) (simp add: assoc_get_def)

text \<open>
  A \<^verbatim>\<open>grpc-message\<close> that the server percent-encoded, as gRPC prescribes, from any sequence of
  Unicode scalar values is decoded to exactly that text in UTF-16, in all four lengths of UTF-8.
\<close>

theorem grpc_message_round_trip:
  assumes "list_all scalar vs"
  shows "decodeGRPCStatus (Some (percent_encode vs)) = utf16 vs"
proof (cases "percent_encode vs = []")
  case True
  then have "vs = []" by (simp add: percent_encode_empty)
  then show ?thesis by (simp add: decodeGRPCStatus_def percent_encode_def utf16_def)
next
  case False
  with assms show ?thesis by (simp add: decodeGRPCStatus_def decodeURIComponent_percent_encode)
qed

theorem grpc_message_round_trip_witness:
  "decodeGRPCStatus (Some (percent_encode [0x61, 0x25, 0xE9, 0x1F600])) = utf16 [0x61, 0x25, 0xE9, 0x1F600]"
  by (rule grpc_message_round_trip) (simp add: scalar_def)

section \<open>The order of callbacks\<close>

text \<open>
  C4. Whatever the user, the callbacks and the transport do, no callback is told anything after
  the end of the request: in every run the events announced are headers and messages first, and
  from the first end on only that end.
\<close>

theorem nothing_after_end: "ends_last (events (run E is (new_client t u)))"
proof -
  have "end_order (new_client t u)" by (simp add: end_order_def new_client_def)
  from end_order.run_inv [OF callbacks_in_any admissible_any_list this, of E "is"]
  show ?thesis by (simp add: end_order_def)
qed

text \<open>
  C3. A request ends at most once: in every run the callbacks told of an end are a prefix of the
  registered end callbacks, each told once, and all are told the same status, message and trailers.
\<close>

theorem ends_once:
  "\<exists>cd msg m cbs. prefix cbs (onEndCallbacks (run E is (new_client t u))) \<and>
     ends (run E is (new_client t u)) = map (\<lambda>cb. (cb, EndEv cd msg m)) cbs"
proof -
  have "end_batch (run E is (new_client t u))"
    unfolding run_def
    by (rule end_batch.run_keeps) (simp_all add: list_all_iff new_client_end_batch)
  then show ?thesis by (simp add: end_batch_def)
qed

text \<open>
  Closing silences the client: once it is closed, no further input, whatever it is, leads to a
  callback invocation.
\<close>

theorem silent_once_closed:
  assumes "closed c"
  shows "notified (trace (run E is c)) = notified (trace c)"
  by (rule closed_run [OF assms])

theorem silent_once_closed_witness:
  "notified (trace (run demo [TransportHeaders [] 200, TransportEnd] ((demo_client [1])\<lparr>closed := True\<rparr>))) = []"
  by (subst silent_once_closed) simp_all

text \<open>
  C26. A callback that closes the client in the middle of a run is respected: in every run, after
  the cancellation is sent to the transport, no message and no end is announced any more (the
  loop over the headers callbacks alone does not look at \<^verbatim>\<open>closed\<close>).
\<close>

theorem quiet_after_close: "quiet_after_cancel (trace (run E is (new_client t u)))"
proof -
  have "silent (new_client t u)" by (simp add: silent_def new_client_def cancelled_def)
  from silent.run_inv [OF callbacks_in_any admissible_any_list this, of E "is"]
  show ?thesis by (simp add: silent_def)
qed

text \<open>
  Headers callbacks are isolated from one another: all of those registered when headers arrive
  are told, once and in order, even if some of them throw or close the client.
\<close>

theorem headers_callbacks_isolated:
  assumes "\<not> completed c"
  shows "notified (trace (rawOnHeaders E h c)) =
    notified (trace c) @ map (\<lambda>cb. (cb, HeadersEv h)) (onHeadersCallbacks c)"
  using assms by (simp add: rawOnHeaders_def headers_fold_notified)

theorem headers_callbacks_isolated_witness:
  "notified (trace (rawOnHeaders demo [] (demo_client [9, 8, 1]))) =
     [(9, HeadersEv []), (8, HeadersEv []), (1, HeadersEv [])]"
  by (subst headers_callbacks_isolated) simp_all

section \<open>The transport's side\<close>

text \<open>
  C20. The client keeps to the transport protocol: as long as the metadata constructor accepts what
  the user passes, the calls on the transport in any run follow start, sends, finish, with a cancel
  as the last call, and the client's flags tell exactly the protocol's state.
\<close>

theorem transport_protocol:
  assumes "metadata_accepted E"
  shows "phase_after Idle (transport_calls (trace (run E is (new_client t u)))) =
    Some (phase_of (run E is (new_client t u)))"
  using in_protocol.run_inv [of E "is" "new_client t u"] assms
  by (simp add: new_client_in_protocol) (simp add: in_protocol_def)

theorem transport_protocol_witness:
  "phase_after Idle (transport_calls (trace (run demo [Api (Start None), Api Close] (new_client () 0)))) =
     Some (phase_of (run demo [Api (Start None), Api Close] (new_client () 0)))"
  by (rule transport_protocol) (simp add: metadata_accepted_def)

text \<open>
  The transport is started at most once, and for a method without a request stream at most one
  message is sent on it, in every run, even with callbacks that call \<^verbatim>\<open>start\<close> and \<^verbatim>\<open>send\<close>.
\<close>

theorem starts_and_sends_once:
  "starts (transport_calls (trace (run E is (new_client t u)))) \<le> 1 \<and>
   (requestStream (methodDefinition E) \<or> sends (run E is (new_client t u)) \<le> 1)"
proof -
  have "single_start (new_client t u)" by (simp add: single_start_def starts_def new_client_def)
  then have "single_start (run E is (new_client t u))"
    using single_start.run_inv [of E "is" "new_client t u"] by simp
  moreover have "single_send E (run E is (new_client t u))"
    using single_send.run_inv [of E "is" "new_client t u"] by (simp add: new_client_single_send)
  ultimately show ?thesis by (auto simp: single_start_def single_send_def split: if_splits)
qed

text \<open>
  The guards of the methods: a call out of turn throws and changes nothing at all.  Before
  \<^verbatim>\<open>start\<close> nothing else is accepted, after it no second \<^verbatim>\<open>start\<close>; after \<^verbatim>\<open>close\<close> neither
  sending nor closing; after \<^verbatim>\<open>finishSend\<close> no sending.
\<close>

theorem guards_refuse:
  assumes "case a of
      Start _ \<Rightarrow> started c
    | Send _ \<Rightarrow> \<not> started c \<or> closed c \<or> finishedSending c \<or>
        \<not> requestStream (methodDefinition E) \<and> sentFirstMessage c
    | FinishSend \<Rightarrow> \<not> started c \<or> closed c \<or> finishedSending c
    | Close \<Rightarrow> \<not> started c \<or> closed c
    | _ \<Rightarrow> False"
  shows "\<exists>msg. run_action E a c = (Some (Error msg), c)"
  using assms
  by (cases a)
    (auto simp: start_def send_def finishSend_def close_def)

theorem guards_refuse_witness:
  "\<exists>msg. run_action demo FinishSend (demo_client []) = (Some (Error msg), demo_client [])"
  by (rule guards_refuse) simp

section \<open>The end of a request\<close>

text \<open>Which callbacks an announcement reaches: all, up to one that closes the client.\<close>

lemma guarded_fold_told:
  "\<exists>told. prefix told cbs \<and>
     notified (trace (fold (invoke_unless_closed E ev) cbs c)) = notified (trace c) @ map (\<lambda>cb. (cb, ev)) told \<and>
     (\<not> closed (fold (invoke_unless_closed E ev) cbs c) \<longrightarrow> told = cbs) \<and>
     (\<not> closed c \<and> cbs \<noteq> [] \<longrightarrow> told \<noteq> [])"
proof (induction cbs arbitrary: c)
  case (Cons cb cbs)
  show ?case
  proof (cases "closed c")
    case True
    then show ?thesis
      by (intro exI [of _ "[]"]) (simp only: closed_fold, simp)
  next
    case False
    from Cons.IH [of "invoke_callback E ev cb c"] obtain told where
      "prefix told cbs"
      "notified (trace (fold (invoke_unless_closed E ev) cbs (invoke_callback E ev cb c))) =
         notified (trace c) @ [(cb, ev)] @ map (\<lambda>cb. (cb, ev)) told"
      "\<not> closed (fold (invoke_unless_closed E ev) cbs (invoke_callback E ev cb c)) \<longrightarrow> told = cbs"
      by (auto simp: trace_simps)
    with False show ?thesis
      by (intro exI [of _ "cb # told"]) (simp add: invoke_open)
  qed
qed simp

text \<open>
  C27. When the transport ends, an open request completes, whatever was received and whatever the
  callbacks do.  If it was not complete before, the end callbacks are told, in order and each
  once, all of them or all up to one that closes the client, at least the first; they are told the
  status, message and metadata of the trailers if trailers were received, else of the headers, and
  without a \<^verbatim>\<open>grpc-status\<close> there the client's own: Internal for trailers, Unknown for headers
  only or for no response.  A request that was complete before is left alone.
\<close>

theorem transport_end_completes:
  assumes "\<not> closed c" "d = onTransportEnd E c"
    and "(cd, msg, m) =
      (case responseTrailers c of
         Some ts \<Rightarrow>
           (case getStatusFromHeaders (metadata E) ts of
              Some st \<Rightarrow> (st, decodeGRPCStatus (first (md_get (metadata E) ts (js ''grpc-message''))), ts)
            | None \<Rightarrow> (Num 13, js ''Response closed without grpc-status (Trailers provided)'', md_of_obj (metadata E) []))
       | None \<Rightarrow>
           (case responseHeaders c of
              Some hs \<Rightarrow>
                (case getStatusFromHeaders (metadata E) hs of
                   Some st \<Rightarrow> (st, decodeGRPCStatus (first (md_get (metadata E) hs (js ''grpc-message''))), hs)
                 | None \<Rightarrow> (Num 2, js ''Response closed without grpc-status (Headers only)'', hs))
            | None \<Rightarrow> (Num 2, js ''Response closed without headers'', md_of_obj (metadata E) [])))"
  shows "completed d \<and> (completed c \<longrightarrow> d = c) \<and>
    (\<not> completed c \<longrightarrow>
      (\<exists>told. prefix told (onEndCallbacks c) \<and> (\<not> closed d \<longrightarrow> told = onEndCallbacks c) \<and>
         (onEndCallbacks c \<noteq> [] \<longrightarrow> told \<noteq> []) \<and>
         notified (trace d) = notified (trace c) @ map (\<lambda>cb. (cb, EndEv cd msg m)) told))"
proof -
  have "outcome (metadata E) (responseHeaders c) (responseTrailers c) = (cd, msg, m)"
    using assms(3) by (simp add: outcome_def status_of_def code_def split: option.splits)
  from onTransportEnd_outcome [OF assms(1) this] have d: "d = rawOnEnd E cd msg m c" by (simp add: assms(2))
  moreover have "completed d" using onTransportEnd_completes [OF assms(1)] by (simp add: assms(2))
  ultimately show ?thesis
    using guarded_fold_told [of "onEndCallbacks c" E "EndEv cd msg m" "c\<lparr>completed := True\<rparr>"] assms(1)
    by (cases "completed c") (auto simp: rawOnEnd_def)
qed

theorem transport_end_completes_witness:
  "\<exists>told. prefix told [9, 8, 1] \<and> told \<noteq> [] \<and>
     notified (trace (onTransportEnd demo (demo_client [9, 8, 1]))) =
       map (\<lambda>cb. (cb, EndEv (Num 2) (js ''Response closed without headers'') [])) told"
  using transport_end_completes [of "demo_client [9, 8, 1]" _ demo "Num 2"
      "js ''Response closed without headers''" "[]", OF _ refl]
  by (simp del: js_Cons) blast

text \<open>
  The outcome announced at the end of the transport is the one the headers and trailers
  received determine: the trailers' status if there are trailers, else the headers', and
  an error status of the client's own when there is none.
\<close>

theorem transport_end_outcome:
  assumes "observers E" "\<not> completed c" "\<not> closed c"
    and "outcome (metadata E) (responseHeaders c) (responseTrailers c) = (cd, msg, m)"
  shows "notified (trace (onTransportEnd E c)) =
    notified (trace c) @ map (\<lambda>cb. (cb, EndEv cd msg m)) (onEndCallbacks c)"
  by (rule onTransportEnd_delivers(1) [OF assms])

theorem transport_end_outcome_witness:
  "notified (trace (onTransportEnd quiet_demo (demo_client [1, 2]))) =
     [(1, EndEv (Num 2) (js ''Response closed without headers'') []),
      (2, EndEv (Num 2) (js ''Response closed without headers'') [])]"
  by (subst transport_end_outcome) (simp_all add: outcome_def code_def)

text \<open>
  C30. Headers that carry an error end the request at once: the headers callbacks are told of the
  headers, then the end callbacks of the status (the \<^verbatim>\<open>grpc-status\<close> or the one standing for
  the HTTP status) with the decoded message.
\<close>

theorem error_headers_end_request:
  assumes "observers E" "\<not> completed c" "\<not> closed c" "status \<noteq> 0"
    and "headers_code (getStatusFromHeaders (metadata E) h) status = cd" "cd \<noteq> code OK"
  shows "notified (trace (onTransportHeaders E h status c)) =
      notified (trace c) @ map (\<lambda>cb. (cb, HeadersEv h)) (onHeadersCallbacks c) @
      map (\<lambda>cb. (cb, EndEv cd (decodeGRPCStatus (first (md_get (metadata E) h (js ''grpc-message'')))) h))
        (onEndCallbacks c) \<and>
    completed (onTransportHeaders E h status c)"
  using onTransportHeaders_error [OF assms] by blast

theorem error_headers_end_request_witness:
  "completed (onTransportHeaders quiet_demo [] 404 (demo_client [1]))"
  using error_headers_end_request [of quiet_demo "demo_client [1]" 404 "[]" "Num 5"]
  by (simp add: getStatusFromHeaders_def assoc_get_def headers_code_def code_def httpStatusToCode_def)

text \<open>
  C31. A response that does not parse ends the request with the status Internal and the parser's
  error in the message.
\<close>

theorem parse_error_ends_request:
  assumes "observers E" "\<not> completed c" "\<not> closed c"
    and "parse (metadata E) (hasSlice E) b False (chunkParser c) = (Inl e, p)"
  shows "notified (trace (snd (onTransportChunk E b c))) =
      notified (trace c) @
      map (\<lambda>cb. (cb, EndEv (code Internal) (js ''parsing error: '' @ message e) (md_of_obj (metadata E) [])))
        (onEndCallbacks c) \<and>
    completed (snd (onTransportChunk E b c))"
  using parse_error_delivers [OF assms] by blast

theorem parse_error_ends_request_witness:
  "completed (snd (onTransportChunk quiet_demo [0x80, 0, 0, 0, 1, 200] (demo_client [1])))"
proof -
  have "parse assoc_metadata True [0x80, 0, 0, 0, 1, 200] False new_ChunkParser =
      (Inl (Error (js ''Metadata is not valid (printable) ASCII'')),
       \<lparr>buffer = Some [0x80, 0, 0, 0, 1, 200], position = 6\<rparr>)"
    by code_simp
  then show ?thesis
    using parse_error_ends_request [of quiet_demo "demo_client [1]" "[0x80, 0, 0, 0, 1, 200]"] by simp
qed

section \<open>A whole response\<close>

text \<open>
  Reading a response does not depend on where the network cut it: from any split of the byte
  stream into chunks the parser returns every message, in order, and then the trailers.
\<close>

theorem split_independent:
  assumes "list_all (\<lambda>d. length d < 2 ^ 32) ds" "length t < 2 ^ 32"
    and "concat bs = response_stream ds t" "parseTrailerData M t = Inr m"
  shows "fst (feed M sl bs new_ChunkParser) = Inr (map MESSAGE ds @ [TRAILERS m])"
  using feed_response [OF new_at_frame assms, of sl] by auto

theorem split_independent_witness:
  "fst (feed assoc_metadata True (map (\<lambda>b. [b]) (response_stream [[1], [2, 3]] status_block)) new_ChunkParser) =
     Inr [MESSAGE [1], MESSAGE [2, 3], TRAILERS status_md]"
proof -
  have "concat (map (\<lambda>b. [b]) bs) = bs" for bs :: bytes by (induction bs) simp_all
  then show ?thesis
    using split_independent [of "[[1], [2, 3]]" status_block
        "map (\<lambda>b. [b]) (response_stream [[1], [2, 3]] status_block)" assoc_metadata status_md True]
    by (simp add: status_block_read length_status_block)
qed

text \<open>
  C1. A response over HTTP, from the bytes to the callbacks: whatever the transport does in
  between, and however the body is cut, the headers callbacks get the headers, the message
  callbacks every message once and in order, and then the end callbacks the trailers' status.
\<close>

theorem response_reaches_callbacks:
  assumes "observers E"
    and "driven E (TransportHeaders h status # map TransportChunk bs @ [TransportEnd]) c d"
    and "\<not> completed c" "\<not> closed c" "at_frame (chunkParser c)" "status \<noteq> 0"
    and "headers_code (getStatusFromHeaders (metadata E) h) status = code OK"
    and "list_all (\<lambda>d. length d < 2 ^ 32) ds" "length t < 2 ^ 32" "concat bs = response_stream ds t"
    and "deserialized E ds rs" "parseTrailerData (metadata E) t = Inr m"
    and "status_of (metadata E) (md_copy (metadata E) m) = Some (s, msg)"
  shows "notified (trace d) =
      notified (trace c) @ map (\<lambda>cb. (cb, HeadersEv h)) (onHeadersCallbacks c) @
      message_events (onMessageCallbacks c) rs @
      map (\<lambda>cb. (cb, EndEv s msg (md_copy (metadata E) m))) (onEndCallbacks c)"
  by (rule response_delivered [OF assms])

theorem response_reaches_callbacks_witness:
  "notified (trace (run quiet_demo
       [TransportHeaders [] 200, TransportChunk (response_stream [[7]] status_block), TransportEnd]
       (demo_client [1]))) =
     [(1, HeadersEv []), (1, MessageEv [7]), (1, EndEv (Num 0) [] status_md)]"
  by (subst response_reaches_callbacks [where h = "[]" and status = 200 and ds = "[[7]]" and rs = "[[7]]"
        and bs = "[response_stream [[7]] status_block]" and t = status_block and m = status_md
        and s = "Num 0" and msg = "[]" and c = "demo_client [1]" and E = quiet_demo])
    (use driven_run [of quiet_demo "[TransportHeaders [] 200, TransportChunk (response_stream [[7]] status_block),
        TransportEnd]" "demo_client [1]"] in
      \<open>simp_all add: status_block_read status_md_status length_status_block deserialized_def
        getStatusFromHeaders_def assoc_get_def headers_code_def httpStatusToCode_def\<close>)

text \<open>
  A response whose headers come in a frame of their own, as over a WebSocket: the first frame
  is announced as headers, the messages follow in order, and the last frame gives the status.
\<close>

theorem framed_response_reaches_callbacks:
  assumes "observers E"
    and "driven E (map TransportChunk (hs @ bs) @ [TransportEnd]) c d"
    and "\<not> completed c" "\<not> closed c" "at_frame (chunkParser c)" "responseHeaders c = None"
    and "concat hs = frame_bytes (0x80, th)" "length th < 2 ^ 32" "parseTrailerData (metadata E) th = Inr mh"
    and "list_all (\<lambda>d. length d < 2 ^ 32) ds" "length t < 2 ^ 32" "concat bs = response_stream ds t"
    and "deserialized E ds rs" "parseTrailerData (metadata E) t = Inr m"
    and "status_of (metadata E) (md_copy (metadata E) m) = Some (s, msg)"
  shows "notified (trace d) =
      notified (trace c) @
      map (\<lambda>cb. (cb, HeadersEv (md_copy (metadata E) mh))) (onHeadersCallbacks c) @
      message_events (onMessageCallbacks c) rs @
      map (\<lambda>cb. (cb, EndEv s msg (md_copy (metadata E) m))) (onEndCallbacks c)"
  by (rule framed_response_delivered [OF assms])

theorem framed_response_reaches_callbacks_witness:
  "notified (trace (run quiet_demo
       [TransportChunk (frame_bytes (0x80, status_block)),
        TransportChunk (response_stream [[7]] status_block), TransportEnd] (demo_client [1]))) =
     [(1, HeadersEv status_md), (1, MessageEv [7]), (1, EndEv (Num 0) [] status_md)]"
  by (subst framed_response_reaches_callbacks [where hs = "[frame_bytes (0x80, status_block)]"
        and th = status_block and mh = status_md
        and ds = "[[7]]" and rs = "[[7]]" and bs = "[response_stream [[7]] status_block]"
        and t = status_block and m = status_md and s = "Num 0" and msg = "[]"
        and c = "demo_client [1]" and E = quiet_demo])
    (use driven_run [of quiet_demo "[TransportChunk (frame_bytes (0x80, status_block)),
        TransportChunk (response_stream [[7]] status_block), TransportEnd]" "demo_client [1]"] in
      \<open>simp_all add: status_block_read status_md_status length_status_block deserialized_def\<close>)

end
