(* ===== verification/Requests.thy ===== *)
theory Requests
  imports Client_Delivery
begin

text \<open>
  \<^verbatim>\<open>client/grpc-web/src/invoke.ts\<close> and \<^verbatim>\<open>unary.ts\<close>: the two convenience functions over a
  client.  Both return the error they throw, if any, and the client they created, if they
  got that far; the returned \<^verbatim>\<open>Request\<close> gives the user no more than \<^verbatim>\<open>close\<close>.
\<close>

section \<open>invoke\<close>

record ('a, 'req, 'cb) invoke_options =
  requestProp :: 'req
  metadataProp :: "'a option"
  onHeadersProp :: "'cb option"
  onMessageProp :: "'cb option"
  onEndProp :: "'cb option"

definition register :: "('cb \<Rightarrow> 'c \<Rightarrow> 'c) \<Rightarrow> 'cb option \<Rightarrow> 'c \<Rightarrow> 'c" where
  "register method prop c = (case prop of None \<Rightarrow> c | Some cb \<Rightarrow> method cb c)"

definition invoke ::
  "('m, 'a, 'req, 'res, 'cb, 'u, 't) env \<Rightarrow> (js_string \<Rightarrow> 't result) option
     \<Rightarrow> (js_string \<Rightarrow> 't result) \<Rightarrow> js_string \<Rightarrow> ('a, 'req, 'cb) invoke_options \<Rightarrow> 'u
     \<Rightarrow> js_error option \<times> ('m, 'res, 'cb, 'u, 't) client option"
where
  "invoke E transportProp defaultFactory host props u =
     (if requestStream (methodDefinition E)
      then (Some (Error (js ''.invoke cannot be used with client-streaming methods. Use .client instead.'')), None)
      else
        case new_GrpcClient transportProp defaultFactory host (methodDefinition E) u of
          Inl e \<Rightarrow> (Some e, None)
        | Inr grpcClient \<Rightarrow>
            (let c = register onHeaders (onHeadersProp props) grpcClient;
                 c = register onMessage (onMessageProp props) c;
                 c = register onEnd (onEndProp props) c;
                 (e, c) = run_actions E
                   [Start (metadataProp props), Send (requestProp props), FinishSend] c
             in (e, Some c)))"

section \<open>unary\<close>

record ('m, 'res) unary_output =
  out_status :: js_num
  out_statusMessage :: js_string
  out_headers :: 'm
  out_message :: "'res option"
  out_trailers :: 'm

text \<open>The variables the three closures share, and a log of what \<^verbatim>\<open>props.onEnd\<close> was given.\<close>

record ('m, 'res, 'u) unary_state =
  responseHeadersVar :: "'m option"
  responseMessageVar :: "'res option"
  outputs :: "('m, 'res) unary_output list"
  outer :: 'u

datatype unary_callback = UnaryOnHeaders | UnaryOnMessage | UnaryOnEnd

fun unary_closure ::
  "('m, 'a) metadata_ops
     \<Rightarrow> (('m, 'res) unary_output \<Rightarrow> 'u \<Rightarrow> 'u \<times> ('a, 'req, unary_callback) action list)
     \<Rightarrow> unary_callback \<Rightarrow> ('m, 'res) cb_event \<Rightarrow> ('m, 'res, 'u) unary_state
     \<Rightarrow> ('m, 'res, 'u) unary_state \<times> ('a, 'req, unary_callback) action list"
where
  "unary_closure M onEndBody UnaryOnHeaders (HeadersEv headers) s =
     (s\<lparr>responseHeadersVar := Some headers\<rparr>, [])"
| "unary_closure M onEndBody UnaryOnMessage (MessageEv res) s =
     (s\<lparr>responseMessageVar := Some res\<rparr>, [])"
| "unary_closure M onEndBody UnaryOnEnd (EndEv status statusMessage trailers) s =
     (let out = \<lparr>out_status = status, out_statusMessage = statusMessage,
                 out_headers =
                   (case responseHeadersVar s of Some h \<Rightarrow> h | None \<Rightarrow> md_of_obj M []),
                 out_message = responseMessageVar s, out_trailers = trailers\<rparr>;
          (u, as) = onEndBody out (outer s)
      in (s\<lparr>outputs := outputs s @ [out], outer := u\<rparr>, as))"
| "unary_closure M onEndBody _ _ s = (s, [])"

definition unary_env ::
  "('m, 'a) metadata_ops \<Rightarrow> bool \<Rightarrow> ('req, 'res) method_definition
     \<Rightarrow> ('m tcall \<Rightarrow> 't \<Rightarrow> js_error option \<times> 't)
     \<Rightarrow> (('m, 'res) unary_output \<Rightarrow> 'u \<Rightarrow> 'u \<times> ('a, 'req, unary_callback) action list)
     \<Rightarrow> ('m, 'a, 'req, 'res, unary_callback, ('m, 'res, 'u) unary_state, 't) env"
where
  "unary_env M sl md tc onEndBody =
     \<lparr>metadata = M, hasSlice = sl, methodDefinition = md, transportCall = tc,
      callback = unary_closure M onEndBody\<rparr>"

definition new_unary_state :: "'u \<Rightarrow> ('m, 'res, 'u) unary_state" where
  "new_unary_state u =
     \<lparr>responseHeadersVar = None, responseMessageVar = None, outputs = [], outer = u\<rparr>"

definition unary ::
  "('m, 'a, 'req, 'res, unary_callback, ('m, 'res, 'u) unary_state, 't) env
     \<Rightarrow> (js_string \<Rightarrow> 't result) option \<Rightarrow> (js_string \<Rightarrow> 't result) \<Rightarrow> js_string
     \<Rightarrow> 'req \<Rightarrow> 'a option \<Rightarrow> 'u
     \<Rightarrow> js_error option \<times> ('m, 'res, unary_callback, ('m, 'res, 'u) unary_state, 't) client option"
where
  "unary E transportProp defaultFactory host request md u =
     (if responseStream (methodDefinition E)
      then (Some (Error (js ''.unary cannot be used with server-streaming methods. Use .invoke or .client instead.'')), None)
      else if requestStream (methodDefinition E)
      then (Some (Error (js ''.unary cannot be used with client-streaming methods. Use .client instead.'')), None)
      else
        case new_GrpcClient transportProp defaultFactory host (methodDefinition E) (new_unary_state u) of
          Inl e \<Rightarrow> (Some e, None)
        | Inr grpcClient \<Rightarrow>
            (let c = onHeaders UnaryOnHeaders grpcClient;
                 c = onMessage UnaryOnMessage c;
                 c = onEnd UnaryOnEnd c;
                 (e, c) = run_actions E [Start md, Send request, FinishSend] c
             in (e, Some c)))"

section \<open>The state in which a request function leaves its client\<close>

definition issue :: "'a option \<Rightarrow> 'req \<Rightarrow> ('a, 'req, 'cb) action list" where
  "issue md request = [Start md, Send request, FinishSend]"

lemma issue_observing: "list_all observing (issue md request)"
  by (simp add: issue_def)

lemma run_actions_user [flag_simps]: "user (snd (run_actions E as c)) = user c"
proof (induction as arbitrary: c)
  case (Cons a as)
  obtain r c1 where a: "run_action E a c = (r, c1)" by fastforce
  then have "user c1 = user c" using run_action_fields(5) [of E a c] by simp
  with a Cons.IH [of c1] show ?case by (cases r) simp_all
qed simp

definition fresh_with ::
  "'cb list \<Rightarrow> 'cb list \<Rightarrow> 'cb list \<Rightarrow> 'u \<Rightarrow> ('m, 'res, 'cb, 'u, 't) client \<Rightarrow> bool"
where
  "fresh_with hs ms es u c \<longleftrightarrow>
     face c = (False, False, hs, ms, es, new_ChunkParser, None, None) \<and>
     user c = u \<and> notified (trace c) = []"

lemma fresh_actions:
  "list_all observing as \<Longrightarrow> fresh_with hs ms es u c \<Longrightarrow> fresh_with hs ms es u (snd (run_actions E as c))"
  by (simp add: fresh_with_def run_actions_face flag_simps trace_simps)

lemmas fresh_issue = fresh_actions [OF issue_observing]

lemma unary_fresh:
  assumes "unary E tp df host request md u = (e, Some c)"
  shows "fresh_with [UnaryOnHeaders] [UnaryOnMessage] [UnaryOnEnd] (new_unary_state u) c"
proof -
  from assms obtain t where
    "run_actions E (issue md request)
       (onEnd UnaryOnEnd (onMessage UnaryOnMessage
         (onHeaders UnaryOnHeaders (new_client t (new_unary_state u))))) = (e, c)"
    unfolding unary_def issue_def [symmetric]
    by (auto simp: new_GrpcClient_def js_bind_def Let_def split: if_splits sum.splits prod.splits)
  then have t: "snd (run_actions E (issue md request)
       (onEnd UnaryOnEnd (onMessage UnaryOnMessage
         (onHeaders UnaryOnHeaders (new_client t (new_unary_state u)))))) = c" by simp
  have "fresh_with [UnaryOnHeaders] [UnaryOnMessage] [UnaryOnEnd] (new_unary_state u)
      (onEnd UnaryOnEnd (onMessage UnaryOnMessage
         (onHeaders UnaryOnHeaders (new_client t (new_unary_state u)))))"
    by (simp add: fresh_with_def face_def onEnd_def onMessage_def onHeaders_def new_client_def)
  from fresh_issue [OF this, of E md request] show ?thesis unfolding t .
qed

definition option_list :: "'x option \<Rightarrow> 'x list" where
  "option_list x = (case x of None \<Rightarrow> [] | Some y \<Rightarrow> [y])"

lemma invoke_fresh:
  assumes "invoke E tp df host props u = (e, Some c)"
  shows "fresh_with (option_list (onHeadersProp props)) (option_list (onMessageProp props))
      (option_list (onEndProp props)) u c"
proof -
  let ?reg = "\<lambda>t. register onEnd (onEndProp props) (register onMessage (onMessageProp props)
      (register onHeaders (onHeadersProp props) (new_client t u)))"
  from assms obtain t where
    "run_actions E (issue (metadataProp props) (requestProp props)) (?reg t) = (e, c)"
    unfolding invoke_def issue_def [symmetric]
    by (auto simp: new_GrpcClient_def js_bind_def Let_def split: if_splits sum.splits prod.splits)
  then have t: "snd (run_actions E (issue (metadataProp props) (requestProp props)) (?reg t)) = c"
    by simp
  have "fresh_with (option_list (onHeadersProp props)) (option_list (onMessageProp props))
      (option_list (onEndProp props)) u (?reg t)"
    by (auto simp: fresh_with_def face_def register_def option_list_def onEnd_def onMessage_def
        onHeaders_def new_client_def split: option.split)
  from fresh_issue [OF this, of E "metadataProp props" "requestProp props"] show ?thesis
    unfolding t .
qed

section \<open>What a request puts on its transport\<close>

text \<open>On a transport whose calls do not throw, the three calls of a request reach it in order.\<close>

definition requestHeaders_of ::
  "('m, 'a) metadata_ops \<Rightarrow> 'a option \<Rightarrow> 'm result"
where
  "requestHeaders_of M md =
     js_bind (case md of None \<Rightarrow> Inr (md_of_obj M []) | Some a \<Rightarrow> md_of_arg M a)
       (\<lambda>h. Inr (md_set M
          (md_set M h (js ''content-type'') (js ''application/grpc-web+proto''))
          (js ''x-grpc-web'') (js ''1'')))"

lemma start_fresh:
  assumes "\<not> started c" "requestHeaders_of (metadata E) md = Inr h"
  shows "start E md c = call_transport E (TStart h) (c\<lparr>started := True\<rparr>)"
  using assms
  by (auto simp: start_def requestHeaders_of_def js_bind_def Let_def split: option.splits sum.splits)

lemma send_first:
  assumes "started c" "\<not> closed c" "\<not> finishedSending c" "\<not> sentFirstMessage c"
    and "serializeBinary (methodDefinition E) request = Inr b"
  shows "send E request c =
    call_transport E (TSend (frame_message b)) (c\<lparr>sentFirstMessage := True\<rparr>)"
  using assms by (simp add: send_def frameRequest_def Let_def)

lemma finishSend_first:
  "started c \<Longrightarrow> \<not> closed c \<Longrightarrow> \<not> finishedSending c \<Longrightarrow>
     finishSend E c = call_transport E TFinish (c\<lparr>finishedSending := True\<rparr>)"
  by (simp add: finishSend_def)

context quiet_transport begin

lemma start_call:
  assumes "transportCall E = call"
  obtains d where "call_transport E (TStart m) c = (None, d)" "up (transport d)"
  using start_quiet [of m "transport c"] that assms by (auto simp: call_transport_def)

lemma up_call:
  assumes "transportCall E = call" "up (transport c)"
  obtains d where "call_transport E x c = (None, d)" "up (transport d)"
  using call_quiet [of "transport c" x] that assms by (auto simp: call_transport_def)

lemma issue_calls:
  assumes E: "transportCall E = call"
    and "\<not> started c" "\<not> closed c" "\<not> finishedSending c" "\<not> sentFirstMessage c"
    and h: "requestHeaders_of (metadata E) md = Inr h"
    and b: "serializeBinary (methodDefinition E) request = Inr b"
  shows "fst (run_actions E (issue md request) c) = None \<and>
    trace (snd (run_actions E (issue md request) c)) =
      trace c @ [Called (TStart h), Called (TSend (frame_message b)), Called TFinish]"
proof -
  let ?c1 = "c\<lparr>started := True\<rparr>"
  obtain d1 where d1: "call_transport E (TStart h) ?c1 = (None, d1)" "up (transport d1)"
    by (rule start_call [OF E])
  note f1 = call_transport_fields [of E "TStart h" ?c1, unfolded d1, simplified]
  obtain d2 where d2:
    "call_transport E (TSend (frame_message b)) (d1\<lparr>sentFirstMessage := True\<rparr>) = (None, d2)"
    "up (transport d2)"
    by (rule up_call [OF E, of "d1\<lparr>sentFirstMessage := True\<rparr>"]) (use d1 in simp)
  note f2 = call_transport_fields [of E "TSend (frame_message b)" "d1\<lparr>sentFirstMessage := True\<rparr>",
      unfolded d2, simplified]
  obtain d3 where d3: "call_transport E TFinish (d2\<lparr>finishedSending := True\<rparr>) = (None, d3)"
    by (rule up_call [OF E, of "d2\<lparr>finishedSending := True\<rparr>"]) (use d2 in simp)
  note f3 = call_transport_fields [of E TFinish "d2\<lparr>finishedSending := True\<rparr>", unfolded d3, simplified]
  have "send E request d1 = (None, d2)" "finishSend E d2 = (None, d3)"
    using send_first [OF _ _ _ _ b, of d1] finishSend_first [of d2 E] f1 f2 d2 d3 assms by simp_all
  then show ?thesis
    using f1 f2 f3 start_fresh [OF assms(2) h] d1 by (simp add: issue_def)
qed

end

text \<open>The same with the state in which the three calls leave the transport.\<close>

lemma issue_transport:
  assumes c: "\<not> started c" "\<not> closed c" "\<not> finishedSending c" "\<not> sentFirstMessage c"
    and h: "requestHeaders_of (metadata E) md = Inr h"
    and b: "serializeBinary (methodDefinition E) request = Inr b"
    and calls: "transportCall E (TStart h) (transport c) = (None, t1)"
      "transportCall E (TSend (frame_message b)) t1 = (None, t2)"
      "transportCall E TFinish t2 = (None, t3)"
  shows "\<exists>d. run_actions E (issue md request) c = (None, d) \<and> started d \<and> \<not> closed d \<and> transport d = t3"
proof -
  obtain c1 where c1: "start E md c = (None, c1)" "transport c1 = t1" "started c1" "\<not> closed c1"
    "\<not> finishedSending c1" "\<not> sentFirstMessage c1"
    using start_fresh [OF c(1) h] c calls(1) by (simp add: call_transport_def)
  obtain c2 where c2: "send E request c1 = (None, c2)" "transport c2 = t2" "started c2" "\<not> closed c2"
    "\<not> finishedSending c2"
    using send_first [OF c1(3-6) b] c1 calls(2) by (simp add: call_transport_def)
  obtain c3 where "finishSend E c2 = (None, c3)" "transport c3 = t3" "started c3" "\<not> closed c3"
    using finishSend_first [OF c2(3-5), of E] c2 calls(3) by (simp add: call_transport_def)
  with c1(1) c2(1) show ?thesis by (simp add: issue_def)
qed

lemma unary_transport:
  assumes "unary E (Some factory) df host request arg u = (e, Some c)"
    and "factory (request_url host (methodDefinition E)) = Inr t0"
    and "requestHeaders_of (metadata E) arg = Inr h" "serializeBinary (methodDefinition E) request = Inr b"
    and "transportCall E (TStart h) t0 = (None, t1)" "transportCall E (TSend (frame_message b)) t1 = (None, t2)"
      "transportCall E TFinish t2 = (None, t3)"
  shows "e = None \<and> started c \<and> \<not> closed c \<and> transport c = t3"
proof -
  let ?c = "onEnd UnaryOnEnd (onMessage UnaryOnMessage
        (onHeaders UnaryOnHeaders (new_client t0 (new_unary_state u))))"
  have "run_actions E (issue arg request) ?c = (e, c)"
    using assms(1,2) unfolding unary_def issue_def [symmetric]
    by (auto simp: new_GrpcClient_def createTransport_def js_bind_def Let_def
        split: if_splits prod.splits)
  with issue_transport [of ?c E arg h request b t1 t2 t3] assms(3-7) show ?thesis
    by (auto simp: onEnd_def onMessage_def onHeaders_def new_client_def)
qed

text \<open>
  A request that was issued without an error started its transport; what came after is
  sending.  \<open>started_with t c\<close>: the transport's start left it in state \<open>t\<close>.
\<close>

definition started_with ::
  "('m, 'a, 'req, 'res, 'cb, 'u, 't) env \<Rightarrow> 't \<Rightarrow> ('m, 'res, 'cb, 'u, 't) client \<Rightarrow> bool"
where
  "started_with E t c \<longleftrightarrow>
     (\<exists>c1. started c1 \<and> transport c1 = t \<and> (micro E any_action)\<^sup>*\<^sup>* c1 c)"

lemma issue_started:
  assumes "run_actions E (issue md request) c = (None, d)"
  obtains m t where "transportCall E (TStart m) (transport c) = (None, t)" "started_with E t d"
proof -
  from assms obtain c1 where c1: "start E md c = (None, c1)"
    and d: "run_actions E [Send request, FinishSend] c1 = (None, d)"
    by (auto simp: issue_def split: prod.splits option.splits)
  from c1 obtain m where m: "call_transport E (TStart m) (c\<lparr>started := True\<rparr>) = (None, c1)"
    by (cases rule: start_cases [of c E md]) auto
  then have "transportCall E (TStart m) (transport c) = (None, transport c1)" "started c1"
    by (auto simp: call_transport_def split: prod.splits)
  moreover have "(micro E any_action)\<^sup>*\<^sup>* c1 d"
    using run_actions_micro [of any_action "[Send request, FinishSend]" E c1] d by simp
  ultimately show thesis using that by (auto simp: started_with_def)
qed

lemma unary_started:
  assumes "unary E (Some factory) df host request md u = (None, Some c)"
  obtains t0 m t where "factory (request_url host (methodDefinition E)) = Inr t0"
    "transportCall E (TStart m) t0 = (None, t)" "started_with E t c"
proof -
  from assms obtain t0 where t0: "factory (request_url host (methodDefinition E)) = Inr t0"
    and c: "run_actions E (issue md request)
      (onEnd UnaryOnEnd (onMessage UnaryOnMessage
        (onHeaders UnaryOnHeaders (new_client t0 (new_unary_state u))))) = (None, c)"
    unfolding unary_def issue_def [symmetric]
    by (auto simp: new_GrpcClient_def createTransport_def js_bind_def Let_def
        split: if_splits sum.splits prod.splits)
  show thesis
    by (rule issue_started [OF c])
      (use t0 that in \<open>simp add: onEnd_def onMessage_def onHeaders_def new_client_def\<close>)
qed

lemma invoke_started:
  assumes "invoke E (Some factory) df host props u = (None, Some c)"
  obtains t0 m t where "factory (request_url host (methodDefinition E)) = Inr t0"
    "transportCall E (TStart m) t0 = (None, t)" "started_with E t c"
proof -
  let ?reg = "\<lambda>t. register onEnd (onEndProp props) (register onMessage (onMessageProp props)
      (register onHeaders (onHeadersProp props) (new_client t u)))"
  from assms obtain t0 where t0: "factory (request_url host (methodDefinition E)) = Inr t0"
    and c: "run_actions E (issue (metadataProp props) (requestProp props)) (?reg t0) = (None, c)"
    unfolding invoke_def issue_def [symmetric]
    by (auto simp: new_GrpcClient_def createTransport_def js_bind_def Let_def
        split: if_splits sum.splits prod.splits)
  have "transport (?reg t0) = t0"
    by (simp add: register_def onEnd_def onMessage_def onHeaders_def new_client_def split: option.split)
  with t0 that show thesis by (metis issue_started [OF c])
qed

context transport_view begin

lemma started_view:
  "started_with E t c \<Longrightarrow> transportCall E = call \<Longrightarrow> started c \<and> view (transport c) = view t"
  using star_view by (fastforce simp: started_with_def)

end

section \<open>What unary reports\<close>

lemma unary_env_fields [simp]:
  "metadata (unary_env M sl md tc body) = M"
  "hasSlice (unary_env M sl md tc body) = sl"
  "methodDefinition (unary_env M sl md tc body) = md"
  "transportCall (unary_env M sl md tc body) = tc"
  "callback (unary_env M sl md tc body) = unary_closure M body"
  by (simp_all add: unary_env_def)

definition bodies_in ::
  "(('a, 'req, unary_callback) action \<Rightarrow> bool)
     \<Rightarrow> (('m, 'res) unary_output \<Rightarrow> 'u \<Rightarrow> 'u \<times> ('a, 'req, unary_callback) action list) \<Rightarrow> bool"
where
  "bodies_in P body \<longleftrightarrow> (\<forall>out u. list_all P (snd (body out u)))"

lemma unary_closure_in:
  "bodies_in P body \<Longrightarrow> list_all P (snd (unary_closure M body cb ev s))"
  by (cases cb; cases ev) (auto simp: bodies_in_def Let_def case_prod_beta)

lemma unary_callbacks_in:
  "bodies_in P body \<Longrightarrow> callbacks_in (unary_env M sl md tc body) P"
  by (simp add: callbacks_in_def unary_closure_in)

lemma unary_observers: "bodies_in observing body \<Longrightarrow> observers (unary_env M sl md tc body)"
  by (simp add: observers_def unary_closure_in)

text \<open>The invocations that reach \<^verbatim>\<open>props.onEnd\<close> are counted by \<open>outputs\<close>.\<close>

fun reports :: "unary_callback \<times> ('m, 'res) cb_event \<Rightarrow> bool" where
  "reports (UnaryOnEnd, EndEv _ _ _) = True"
| "reports _ = False"

lemma unary_closure_outputs:
  "length (outputs (fst (unary_closure M body cb ev s))) =
     length (outputs s) + (if reports (cb, ev) then 1 else 0)"
  by (cases cb; cases ev) (auto simp: Let_def case_prod_beta)

lemma replay_outputs:
  "length (outputs (replay (unary_env M sl md tc body) evs s)) =
     length (outputs s) + length (filter reports evs)"
proof (induction evs arbitrary: s)
  case (Cons e evs)
  obtain cb ev where "e = (cb, ev)" by fastforce
  with Cons.IH [of "fst (unary_closure M body cb ev s)"] show ?case
    by (simp add: replay_def unary_closure_outputs)
qed (simp add: replay_def)

lemma reports_end: "reports (cb, ev) \<Longrightarrow> is_end ev"
  by (cases cb; cases ev) simp_all

lemma filter_reports_ends: "length (filter reports evs) \<le> length (filter (\<lambda>(cb, ev). is_end ev) evs)"
  by (induction evs) (auto dest: reports_end)

lemma fresh_with_end_batch: "fresh_with hs ms es u c \<Longrightarrow> end_batch c"
  by (auto simp: fresh_with_def end_batch_def ends_def)

lemma unary_user:
  assumes "driven E is c d" "fresh_with hs ms es s c"
  shows "user d = replay E (notified (trace d)) s"
proof (rule driven_keeps [OF assms(1), where Q = "\<lambda>_. True"])
  show "user (step E i c) = replay E (notified (trace (step E i c))) s"
    if "user c = replay E (notified (trace c)) s" for i c
    using user_state.run_inv [of E "[i]" c s] that by (simp add: run_def)
qed (use assms(2) in \<open>simp_all add: fresh_with_def replay_def list_all_iff\<close>)

text \<open>The user's own state is what \<^verbatim>\<open>props.onEnd\<close> made of the outputs it was given.\<close>

lemma unary_closure_outer:
  assumes "outer s = fold (\<lambda>out u. fst (body out u)) (outputs s) u"
  shows "outer (fst (unary_closure M body cb ev s)) =
    fold (\<lambda>out u. fst (body out u)) (outputs (fst (unary_closure M body cb ev s))) u"
  using assms by (cases cb; cases ev) (auto simp: Let_def case_prod_beta)

lemma replay_outer:
  "outer s = fold (\<lambda>out u. fst (body out u)) (outputs s) u \<Longrightarrow>
     outer (replay (unary_env M sl md tc body) evs s) =
       fold (\<lambda>out u. fst (body out u)) (outputs (replay (unary_env M sl md tc body) evs s)) u"
proof (induction evs arbitrary: s)
  case (Cons e evs)
  obtain cb ev where "e = (cb, ev)" by fastforce
  with Cons.IH [OF unary_closure_outer [OF Cons.prems, of M cb ev]] show ?case
    by (simp add: replay_def)
qed (simp add: replay_def)

lemma unary_outer:
  assumes "unary (unary_env M sl md tc body) tp df host request arg u = (e, Some c)"
    and "driven (unary_env M sl md tc body) is c d"
  shows "outer (user d) = fold (\<lambda>out u. fst (body out u)) (outputs (user d)) u"
  unfolding unary_user [OF assms(2) unary_fresh [OF assms(1)]]
  by (rule replay_outer) (simp add: new_unary_state_def)

lemma driven_end_batch:
  assumes "driven E is c d" "end_batch c"
  shows "end_batch d"
  by (rule driven_keeps [where Q = "\<lambda>_. True" and P = end_batch, OF assms])
    (simp_all add: step_end_batch list_all_iff)

lemma driven_lists:
  assumes "driven E is c d" "callbacks_in E (\<lambda>a. \<not> registers a)"
    and "list_all (admissible (\<lambda>a. \<not> registers a)) is"
  shows "callback_lists d = callback_lists c"
proof (rule driven_keeps [OF assms(1) _ assms(3), where P = "\<lambda>d. callback_lists d = callback_lists c"])
  show "callback_lists (step E i c') = callback_lists c"
    if "admissible (\<lambda>a. \<not> registers a) i" "callback_lists c' = callback_lists c" for i c'
    using same_lists.run_inv [OF assms(2), of "[i]" c' "callback_lists c"] that by (simp add: run_def)
qed (simp_all add: callback_lists_def)

lemma unary_reports_once:
  assumes "unary (unary_env M sl md tc body) tp df host request arg u = (e, Some c)"
    and "driven (unary_env M sl md tc body) is c d"
    and "bodies_in (\<lambda>a. \<not> registers a) body" "list_all (admissible (\<lambda>a. \<not> registers a)) is"
  shows "length (outputs (user d)) \<le> 1"
proof -
  note fresh = unary_fresh [OF assms(1)]
  have "onEndCallbacks d = [UnaryOnEnd]"
    using driven_lists [OF assms(2) unary_callbacks_in [OF assms(3)] assms(4)] fresh
    by (simp add: callback_lists_def fresh_with_def face_def)
  moreover have "end_batch d"
    by (rule driven_end_batch [OF assms(2) fresh_with_end_batch [OF fresh]])
  ultimately have "length (ends d) \<le> 1"
    by (auto simp: end_batch_def dest: prefix_length_le)
  then show ?thesis
    using filter_reports_ends [of "notified (trace d)"]
    by (simp add: unary_user [OF assms(2) fresh] replay_outputs ends_def new_unary_state_def)
qed

lemma message_events_single: "message_events [cb] rs = map (\<lambda>r. (cb, MessageEv r)) rs"
  by (induction rs) simp_all

lemma replay_messages:
  "replay (unary_env M sl md tc body) (map (\<lambda>r. (UnaryOnMessage, MessageEv r)) rs) s =
     (if rs = [] then s else s\<lparr>responseMessageVar := Some (last rs)\<rparr>)"
  by (induction rs arbitrary: s) (auto simp: replay_def)

lemma replay_unary:
  "replay (unary_env M sl md tc body)
     ((UnaryOnHeaders, HeadersEv h) # map (\<lambda>r. (UnaryOnMessage, MessageEv r)) rs @
      [(UnaryOnEnd, EndEv s msg m)]) (new_unary_state u) =
   fst (unary_closure M body UnaryOnEnd (EndEv s msg m)
     \<lparr>responseHeadersVar = Some h, responseMessageVar = (if rs = [] then None else Some (last rs)),
      outputs = [], outer = u\<rparr>)"
proof -
  let ?E = "unary_env M sl md tc body"
  have "replay ?E ((UnaryOnHeaders, HeadersEv h) # evs @ [(UnaryOnEnd, ev)]) v =
      fst (unary_closure M body UnaryOnEnd ev
        (replay ?E evs (v\<lparr>responseHeadersVar := Some h\<rparr>)))" for evs ev v
    by (simp add: replay_def)
  then show ?thesis by (simp add: replay_messages new_unary_state_def)
qed

lemma unary_delivers:
  assumes "unary (unary_env M sl md tc body) tp df host request arg u = (e, Some c)"
    and "driven (unary_env M sl md tc body)
      (TransportHeaders h status # map TransportChunk bs @ [TransportEnd]) c d"
    and "bodies_in observing body"
    and "status \<noteq> 0" "headers_code (getStatusFromHeaders M h) status = code OK"
    and "list_all (\<lambda>d. length d < 2 ^ 32) ds" "length t < 2 ^ 32" "concat bs = response_stream ds t"
    and "deserialized (unary_env M sl md tc body) ds rs" "parseTrailerData M t = Inr m"
    and "status_of M (md_copy M m) = Some (s, msg)"
  shows "outputs (user d) =
     [\<lparr>out_status = s, out_statusMessage = msg, out_headers = h,
       out_message = (if rs = [] then None else Some (last rs)), out_trailers = md_copy M m\<rparr>]"
proof -
  let ?E = "unary_env M sl md tc body"
  note fresh = unary_fresh [OF assms(1)]
  have f: "\<not> completed c" "\<not> closed c" "at_frame (chunkParser c)"
    "onHeadersCallbacks c = [UnaryOnHeaders]" "onMessageCallbacks c = [UnaryOnMessage]"
    "onEndCallbacks c = [UnaryOnEnd]" "notified (trace c) = []"
    using fresh by (simp_all add: fresh_with_def face_def)
  have "notified (trace d) =
      (UnaryOnHeaders, HeadersEv h) # map (\<lambda>r. (UnaryOnMessage, MessageEv r)) rs @
      [(UnaryOnEnd, EndEv s msg (md_copy M m))]"
    using response_delivered [OF unary_observers [OF assms(3)] assms(2) f(1-3), where
        ds = ds and t = t and rs = rs and m = m and s = s and msg = msg] assms f
    by (simp add: message_events_single)
  then show ?thesis
    unfolding unary_user [OF assms(2) fresh]
    by (simp add: replay_unary Let_def case_prod_beta del: append_Cons)
qed

lemma fresh_delivers:
  assumes "fresh_with hs ms es u c"
    and "driven E (TransportHeaders h status # map TransportChunk bs @ [TransportEnd]) c d"
    and "observers E"
    and "status \<noteq> 0" "headers_code (getStatusFromHeaders (metadata E) h) status = code OK"
    and "list_all (\<lambda>d. length d < 2 ^ 32) ds" "length t < 2 ^ 32" "concat bs = response_stream ds t"
    and "deserialized E ds rs" "parseTrailerData (metadata E) t = Inr m"
    and "status_of (metadata E) (md_copy (metadata E) m) = Some (s, msg)"
  shows "notified (trace d) =
     to_all (HeadersEv h) hs @ message_events ms rs @ to_all (EndEv s msg (md_copy (metadata E) m)) es"
proof -
  have f: "\<not> completed c" "\<not> closed c" "at_frame (chunkParser c)" "notified (trace c) = []"
    "onHeadersCallbacks c = hs" "onMessageCallbacks c = ms" "onEndCallbacks c = es"
    using assms(1) by (simp_all add: fresh_with_def face_def)
  from response_delivered [OF assms(3,2) f(1-3) assms(4-11)] show ?thesis by (simp add: f)
qed

lemma fresh_user: "fresh_with hs ms es u c \<Longrightarrow> fresh_with hs ms es v (c\<lparr>user := v\<rparr>)"
  by (simp add: fresh_with_def face_def)

lemma invoke_delivers:
  assumes "invoke E tp df host props u = (e, Some c)"
    and "driven E (TransportHeaders h status # map TransportChunk bs @ [TransportEnd]) c d"
    and "observers E"
    and "status \<noteq> 0" "headers_code (getStatusFromHeaders (metadata E) h) status = code OK"
    and "list_all (\<lambda>d. length d < 2 ^ 32) ds" "length t < 2 ^ 32" "concat bs = response_stream ds t"
    and "deserialized E ds rs" "parseTrailerData (metadata E) t = Inr m"
    and "status_of (metadata E) (md_copy (metadata E) m) = Some (s, msg)"
  shows "notified (trace d) =
     to_all (HeadersEv h) (option_list (onHeadersProp props)) @
     message_events (option_list (onMessageProp props)) rs @
     to_all (EndEv s msg (md_copy (metadata E) m)) (option_list (onEndProp props))"
  by (rule fresh_delivers [OF invoke_fresh [OF assms(1)] assms(2-)])

text \<open>With headers in a frame of their own.\<close>

lemma unary_delivers_framed:
  assumes "unary (unary_env M sl md tc body) tp df host request arg u = (e, Some c)"
    and "driven (unary_env M sl md tc body)
      (map TransportChunk (hs @ bs) @ [TransportEnd]) c d"
    and "bodies_in observing body" "concat hs = frame_bytes (0x80, th)" "length th < 2 ^ 32" "parseTrailerData M th = Inr mh"
    and "list_all (\<lambda>d. length d < 2 ^ 32) ds" "length t < 2 ^ 32" "concat bs = response_stream ds t"
    and "deserialized (unary_env M sl md tc body) ds rs" "parseTrailerData M t = Inr m"
    and "status_of M (md_copy M m) = Some (s, msg)"
  shows "outputs (user d) =
     [\<lparr>out_status = s, out_statusMessage = msg, out_headers = md_copy M mh,
       out_message = (if rs = [] then None else Some (last rs)), out_trailers = md_copy M m\<rparr>]"
proof -
  note fresh = unary_fresh [OF assms(1)]
  have f: "\<not> completed c" "\<not> closed c" "at_frame (chunkParser c)" "responseHeaders c = None"
    "onHeadersCallbacks c = [UnaryOnHeaders]" "onMessageCallbacks c = [UnaryOnMessage]"
    "onEndCallbacks c = [UnaryOnEnd]" "notified (trace c) = []"
    using fresh by (simp_all add: fresh_with_def face_def)
  have "notified (trace d) =
      (UnaryOnHeaders, HeadersEv (md_copy M mh)) # map (\<lambda>r. (UnaryOnMessage, MessageEv r)) rs @
      [(UnaryOnEnd, EndEv s msg (md_copy M m))]"
    using framed_response_delivered [OF unary_observers [OF assms(3)] assms(2) f(1-4), where
        ds = ds and t = t and rs = rs and m = m and s = s and msg = msg and mh = mh] assms f
    by (simp add: message_events_single)
  then show ?thesis
    unfolding unary_user [OF assms(2) fresh]
    by (simp add: replay_unary Let_def case_prod_beta del: append_Cons)
qed

lemma unary_no_client:
  "snd (unary E tp df host request md u) = None \<longleftrightarrow>
     responseStream (methodDefinition E) \<or> requestStream (methodDefinition E) \<or>
     (\<exists>e. createTransport tp df host (methodDefinition E) = Inl e)"
  by (auto simp: unary_def new_GrpcClient_def js_bind_def Let_def split: sum.split prod.split)

end
