(* ===== verification/Request_Properties.thy ===== *)
theory Request_Properties
  imports Client_Properties Requests
begin

text \<open>
  The properties of \<^verbatim>\<open>unary\<close> and \<^verbatim>\<open>invoke\<close>, over any transport that drives the client.
\<close>

section \<open>An environment for the witnesses\<close>

definition unary_method :: "(bytes, bytes) method_definition" where
  "unary_method = demo_method\<lparr>responseStream := False\<rparr>"

definition unary_body ::
  "(assoc, bytes) unary_output \<Rightarrow> unit \<Rightarrow> unit \<times> (assoc, bytes, unary_callback) action list"
where
  "unary_body out u = (u, [])"

definition unary_demo ::
  "(assoc tcall \<Rightarrow> 't \<Rightarrow> js_error option \<times> 't)
     \<Rightarrow> (assoc, assoc, bytes, bytes, unary_callback, (assoc, bytes, unit) unary_state, 't) env"
where
  "unary_demo call = unary_env assoc_metadata True unary_method call unary_body"

definition idle_call :: "assoc tcall \<Rightarrow> unit \<Rightarrow> js_error option \<times> unit" where
  "idle_call x t = (None, t)"

lemma unary_method_fields [simp]:
  "requestStream unary_method = False" "responseStream unary_method = False"
  "serializeBinary unary_method b = Inr b" "deserializeBinary unary_method b = Inr b"
  by (simp_all add: unary_method_def demo_method_def)

lemma unary_body_in [simp]: "bodies_in P unary_body"
  by (simp add: bodies_in_def unary_body_def)

lemma unary_demo_client:
  "\<exists>e c. unary (unary_demo idle_call) (Some (\<lambda>_. Inr ())) df [] [7] None () = (e, Some c)"
proof -
  have "snd (unary (unary_demo idle_call) (Some (\<lambda>_. Inr ())) df [] [7] None ()) \<noteq> None"
    by (simp add: unary_no_client unary_demo_def createTransport_def)
  then show ?thesis by (metis not_None_eq prod.collapse)
qed

lemma status_ok:
  "headers_code (getStatusFromHeaders assoc_metadata []) 200 = code OK"
  by code_simp

section \<open>unary\<close>

text \<open>
  C5. \<^verbatim>\<open>unary\<close> reports a response exactly once: over any transport, and however the body is
  cut, \<^verbatim>\<open>onEnd\<close> gets one output with the trailers' status and message, the headers, the last
  message (none if there was none) and the trailers.
\<close>

theorem unary_reports_response:
  assumes "unary (unary_env M sl md tc body) tp df host request arg u = (e, Some c)"
    and "driven (unary_env M sl md tc body)
      (TransportHeaders h status # map TransportChunk bs @ [TransportEnd]) c d"
    and "bodies_in observing body"
    and "status \<noteq> 0" "headers_code (getStatusFromHeaders M h) status = code OK"
    and "list_all (\<lambda>d. length d < 2 ^ 32) ds" "length t < 2 ^ 32" "concat bs = response_stream ds t"
    and "deserialized (unary_env M sl md tc body) ds rs" "parseTrailerData M t = Inr m"
    and "status_of M (md_copy M m) = Some (s, msg)"
  shows "outputs (user d) =
     [\<lparr>out_status = s, out_statusMessage = msg, out_headers = h,
       out_message = (if rs = [] then None else Some (last rs)), out_trailers = md_copy M m\<rparr>]"
  by (rule unary_delivers [OF assms])

theorem unary_reports_response_witness:
  "\<exists>e c. unary (unary_demo idle_call) (Some (\<lambda>_. Inr ())) (\<lambda>_. Inr ()) [] [7] None () = (e, Some c) \<and>
     outputs (user (run (unary_demo idle_call)
       [TransportHeaders [] 200, TransportChunk (response_stream [[5]] status_block), TransportEnd] c)) =
     [\<lparr>out_status = Num 0, out_statusMessage = [], out_headers = [], out_message = Some [5],
       out_trailers = status_md\<rparr>]"
proof -
  let ?is = "[TransportHeaders [] 200, TransportChunk (response_stream [[5]] status_block), TransportEnd]"
  obtain e c where c: "unary (unary_demo idle_call) (Some (\<lambda>_. Inr ())) (\<lambda>_. Inr ()) [] [7] None () = (e, Some c)"
    using unary_demo_client by blast
  have "driven (unary_demo idle_call) (TransportHeaders [] 200 #
      map TransportChunk [response_stream [[5]] status_block] @ [TransportEnd]) c (run (unary_demo idle_call) ?is c)"
    using driven_run [of "unary_demo idle_call" ?is c] by simp
  from unary_reports_response [OF c [unfolded unary_demo_def] this [unfolded unary_demo_def], of "[[5]]" status_block "[[5]]"
      status_md "Num 0" "[]"] c show ?thesis
    by (simp add: status_ok status_block_read status_md_status length_status_block deserialized_def
        unary_demo_def)
qed

text \<open>
  \<^verbatim>\<open>unary\<close> never reports twice: whatever the transport delivers, in whatever order, and
  whether or not the user closes the request, \<^verbatim>\<open>onEnd\<close> is called at most once.
\<close>

theorem unary_reports_at_most_once:
  assumes "unary (unary_env M sl md tc body) tp df host request arg u = (e, Some c)"
    and "driven (unary_env M sl md tc body) is c d"
    and "bodies_in (\<lambda>a. \<not> registers a) body" "list_all (admissible (\<lambda>a. \<not> registers a)) is"
  shows "length (outputs (user d)) \<le> 1"
  by (rule unary_reports_once [OF assms])

theorem unary_reports_at_most_once_witness:
  "\<exists>e c. unary (unary_demo idle_call) (Some (\<lambda>_. Inr ())) (\<lambda>_. Inr ()) [] [7] None () = (e, Some c) \<and>
     length (outputs (user (run (unary_demo idle_call) [TransportEnd, Api Close, TransportEnd] c))) \<le> 1"
proof -
  obtain e c where c: "unary (unary_demo idle_call) (Some (\<lambda>_. Inr ())) (\<lambda>_. Inr ()) [] [7] None () = (e, Some c)"
    using unary_demo_client by blast
  from unary_reports_at_most_once [OF c [unfolded unary_demo_def] driven_run, of "[TransportEnd, Api Close, TransportEnd]"] c
  show ?thesis by (simp add: unary_demo_def)
qed

text \<open>
  \<^verbatim>\<open>unary\<close> creates a client exactly for methods with neither a response nor a request
  stream whose transport factory succeeds; otherwise it throws before anything is sent.
\<close>

theorem unary_creates_client:
  "snd (unary E tp df host request md u) = None \<longleftrightarrow>
     responseStream (methodDefinition E) \<or> requestStream (methodDefinition E) \<or>
     (\<exists>e. createTransport tp df host (methodDefinition E) = Inl e)"
  by (rule unary_no_client)

section \<open>invoke\<close>

text \<open>
  \<^verbatim>\<open>invoke\<close> delivers a response to exactly the callbacks in its options: the headers, every
  message in order, and the end with the trailers' status, however the body is cut.
\<close>

theorem invoke_delivers_response:
  assumes "invoke E tp df host props u = (e, Some c)"
    and "driven E (TransportHeaders h status # map TransportChunk bs @ [TransportEnd]) c d"
    and "observers E"
    and "status \<noteq> 0" "headers_code (getStatusFromHeaders (metadata E) h) status = code OK"
    and "list_all (\<lambda>d. length d < 2 ^ 32) ds" "length t < 2 ^ 32" "concat bs = response_stream ds t"
    and "deserialized E ds rs" "parseTrailerData (metadata E) t = Inr m"
    and "status_of (metadata E) (md_copy (metadata E) m) = Some (s, msg)"
  shows "notified (trace d) =
     map (\<lambda>cb. (cb, HeadersEv h)) (option_list (onHeadersProp props)) @
     message_events (option_list (onMessageProp props)) rs @
     map (\<lambda>cb. (cb, EndEv s msg (md_copy (metadata E) m))) (option_list (onEndProp props))"
  by (rule invoke_delivers [OF assms])

definition demo_props :: "(assoc, bytes, nat) invoke_options" where
  "demo_props = \<lparr>requestProp = [7], metadataProp = None, onHeadersProp = None,
     onMessageProp = Some 2, onEndProp = Some 3\<rparr>"

theorem invoke_delivers_response_witness:
  "\<exists>e c. invoke quiet_demo (Some (\<lambda>_. Inr ())) (\<lambda>_. Inr ()) [] demo_props 0 = (e, Some c) \<and>
     notified (trace (run quiet_demo
       [TransportHeaders [] 200, TransportChunk (response_stream [[5], [6]] status_block), TransportEnd] c)) =
     [(2, MessageEv [5]), (2, MessageEv [6]), (3, EndEv (Num 0) [] status_md)]"
proof -
  let ?is = "[TransportHeaders [] 200, TransportChunk (response_stream [[5], [6]] status_block), TransportEnd]"
  have "snd (invoke quiet_demo (Some (\<lambda>_. Inr ())) (\<lambda>_. Inr ()) [] demo_props 0) \<noteq> None"
    by (simp add: invoke_def new_GrpcClient_def createTransport_def Let_def split: prod.split)
  then obtain e c where c: "invoke quiet_demo (Some (\<lambda>_. Inr ())) (\<lambda>_. Inr ()) [] demo_props 0 = (e, Some c)"
    by (metis not_None_eq prod.collapse)
  have "driven quiet_demo (TransportHeaders [] 200 #
      map TransportChunk [response_stream [[5], [6]] status_block] @ [TransportEnd]) c (run quiet_demo ?is c)"
    using driven_run [of quiet_demo ?is c] by simp
  from invoke_delivers_response [OF c this, of "[[5], [6]]" status_block "[[5], [6]]"
      status_md "Num 0" "[]"] c show ?thesis
    by (simp add: status_ok status_block_read status_md_status length_status_block deserialized_def
        demo_props_def option_list_def)
qed

end
