(* ===== verification/Websocket.thy ===== *)
theory Websocket
  imports Requests
begin

text \<open>
  \<^verbatim>\<open>client/grpc-web/src/transports/websocket/websocket.ts\<close>: the transport over one
  WebSocket.  What the client sends before the socket is open waits in \<^verbatim>\<open>sendQueue\<close>.

  The browser's \<^verbatim>\<open>WebSocket\<close> is modelled by what its standard says of the members used:
  the ready state, \<^verbatim>\<open>send\<close> (which throws while connecting, transmits while open and
  discards afterwards) and \<^verbatim>\<open>close\<close>.  Its constructor may throw, which is the parameter
  \<open>newWebSocket\<close>.  The field \<open>wire\<close> holds the binary messages transmitted, in order.
  The client starts a transport at most once (\<open>single_start\<close> below), so one socket is
  modelled.
\<close>

section \<open>State\<close>

datatype queued = Message bytes | FINISH_SEND

datatype readyState = CONNECTING | OPEN | CLOSING | CLOSED

record 'm websocket =
  readyState :: readyState
  ws_metadata :: 'm
  wire :: "bytes list"

record 'm ws_transport =
  webSocketAddress :: js_string
  sendQueue :: "queued list"
  ws :: "'m websocket option"

definition finishSendFrame :: bytes where
  "finishSendFrame = [1]"

definition constructWebSocketAddress :: "js_string \<Rightarrow> js_string result" where
  "constructWebSocketAddress url =
     (if js_substr url 0 8 = js ''https://'' then Inr (js ''wss://'' @ drop 8 url)
      else if js_substr url 0 7 = js ''http://'' then Inr (js ''ws://'' @ drop 7 url)
      else Inl (Error (js ''Websocket transport constructed with non-https:// or http:// host.'')))"

definition websocketRequest :: "js_string \<Rightarrow> 'm ws_transport result" where
  "websocketRequest url =
     js_bind (constructWebSocketAddress url)
       (\<lambda>a. Inr \<lparr>webSocketAddress = a, sendQueue = [], ws = None\<rparr>)"

text \<open>\<^verbatim>\<open>asString\<close> after the \<^verbatim>\<open>forEach\<close> of \<^verbatim>\<open>headersToBytes\<close>.\<close>

definition header_block :: "('m, 'a) metadata_ops \<Rightarrow> 'm \<Rightarrow> js_string" where
  "header_block M headers =
     foldl (\<lambda>asString (key, values).
              asString @ key @ js '': '' @ js_join (js '', '') values @ [13, 10])
       [] (md_entries M headers)"

definition headersToBytes :: "('m, 'a) metadata_ops \<Rightarrow> 'm \<Rightarrow> bytes result" where
  "headersToBytes M headers = encodeASCII (header_block M headers)"

section \<open>Operations\<close>

text \<open>\<^verbatim>\<open>ws.send\<close>; on an undefined \<^verbatim>\<open>ws\<close> a \<^verbatim>\<open>TypeError\<close>.\<close>

definition ws_send :: "bytes \<Rightarrow> 'm ws_transport \<Rightarrow> js_error option \<times> 'm ws_transport" where
  "ws_send data t =
     (case ws t of
        None \<Rightarrow> (Some (TypeError (js ''ws is undefined'')), t)
      | Some w \<Rightarrow>
          (case readyState w of
             CONNECTING \<Rightarrow> (Some (Error (js ''InvalidStateError'')), t)
           | OPEN \<Rightarrow> (None, t\<lparr>ws := Some (w\<lparr>wire := wire w @ [data]\<rparr>)\<rparr>)
           | _ \<Rightarrow> (None, t)))"

text \<open>The \<^verbatim>\<open>Int8Array\<close> holds the same eight bits per element.\<close>

fun sendToWebsocket :: "queued \<Rightarrow> 'm ws_transport \<Rightarrow> js_error option \<times> 'm ws_transport" where
  "sendToWebsocket FINISH_SEND t = ws_send finishSendFrame t"
| "sendToWebsocket (Message byteArray) t =
     (let c = new_buffer (length byteArray + 1);
          c = set_bytes c 0 [0];
          c = set_bytes c 1 byteArray
      in ws_send c t)"

text \<open>\<^verbatim>\<open>!ws || ws.readyState === ws.CONNECTING\<close>.\<close>

definition ws_waiting :: "'m ws_transport \<Rightarrow> bool" where
  "ws_waiting t \<longleftrightarrow> (case ws t of None \<Rightarrow> True | Some w \<Rightarrow> readyState w = CONNECTING)"

definition ws_sendMessage :: "bytes \<Rightarrow> 'm ws_transport \<Rightarrow> js_error option \<times> 'm ws_transport" where
  "ws_sendMessage msgBytes t =
     (if ws_waiting t then (None, t\<lparr>sendQueue := sendQueue t @ [Message msgBytes]\<rparr>)
      else sendToWebsocket (Message msgBytes) t)"

definition ws_finishSend :: "'m ws_transport \<Rightarrow> js_error option \<times> 'm ws_transport" where
  "ws_finishSend t =
     (if ws_waiting t then (None, t\<lparr>sendQueue := sendQueue t @ [FINISH_SEND]\<rparr>)
      else sendToWebsocket FINISH_SEND t)"

definition ws_start ::
  "(js_string \<Rightarrow> js_error option) \<Rightarrow> 'm \<Rightarrow> 'm ws_transport \<Rightarrow> js_error option \<times> 'm ws_transport"
where
  "ws_start newWebSocket md t =
     (case newWebSocket (webSocketAddress t) of
        Some e \<Rightarrow> (Some e, t)
      | None \<Rightarrow> (None, t\<lparr>ws := Some \<lparr>readyState = CONNECTING, ws_metadata = md, wire = []\<rparr>\<rparr>))"

definition ws_cancel :: "'m ws_transport \<Rightarrow> js_error option \<times> 'm ws_transport" where
  "ws_cancel t =
     (case ws t of
        None \<Rightarrow> (Some (TypeError (js ''ws is undefined'')), t)
      | Some w \<Rightarrow>
          (None, t\<lparr>ws := Some (if readyState w = CLOSED then w else w\<lparr>readyState := CLOSING\<rparr>)\<rparr>))"

fun ws_call ::
  "(js_string \<Rightarrow> js_error option) \<Rightarrow> 'm tcall \<Rightarrow> 'm ws_transport \<Rightarrow> js_error option \<times> 'm ws_transport"
where
  "ws_call newWebSocket (TStart md) t = ws_start newWebSocket md t"
| "ws_call newWebSocket (TSend msgBytes) t = ws_sendMessage msgBytes t"
| "ws_call newWebSocket TFinish t = ws_finishSend t"
| "ws_call newWebSocket TCancel t = ws_cancel t"

text \<open>\<^verbatim>\<open>sendQueue.forEach(sendToWebsocket)\<close>, which stops at a throw.\<close>

fun send_queue :: "queued list \<Rightarrow> 'm ws_transport \<Rightarrow> js_error option \<times> 'm ws_transport" where
  "send_queue [] t = (None, t)"
| "send_queue (q # qs) t =
     (case sendToWebsocket q t of
        (Some e, t') \<Rightarrow> (Some e, t')
      | (None, t') \<Rightarrow> send_queue qs t')"

definition ws_onopen ::
  "('m, 'a) metadata_ops \<Rightarrow> 'm \<Rightarrow> 'm ws_transport \<Rightarrow> js_error option \<times> 'm ws_transport"
where
  "ws_onopen M md t =
     (case headersToBytes M md of
        Inl e \<Rightarrow> (Some e, t)
      | Inr b \<Rightarrow>
          (case ws_send b t of
             (Some e, t') \<Rightarrow> (Some e, t')
           | (None, t') \<Rightarrow> send_queue (sendQueue t') t'))"

section \<open>The transport under its client\<close>

text \<open>
  What the browser may do next, and what the socket's handlers make of it.  A socket opens
  only while it is connecting, delivers messages only while it is open and closes once.
\<close>

datatype ws_event = Opened | Received bytes | Closed | Failed

fun ws_handle ::
  "('m, 'a, 'req, 'res, 'cb, 'u, 'm ws_transport) env \<Rightarrow> ws_event
     \<Rightarrow> ('m, 'res, 'cb, 'u, 'm ws_transport) client \<Rightarrow> ('m, 'res, 'cb, 'u, 'm ws_transport) client"
where
  "ws_handle E Opened c =
     (case ws (transport c) of
        None \<Rightarrow> c
      | Some w \<Rightarrow>
          if readyState w = CONNECTING
          then c\<lparr>transport :=
                 snd (ws_onopen (metadata E) (ws_metadata w)
                   ((transport c)\<lparr>ws := Some (w\<lparr>readyState := OPEN\<rparr>)\<rparr>))\<rparr>
          else c)"
| "ws_handle E (Received data) c =
     (case ws (transport c) of
        None \<Rightarrow> c
      | Some w \<Rightarrow> if readyState w = OPEN then snd (onTransportChunk E data c) else c)"
| "ws_handle E Closed c =
     (case ws (transport c) of
        None \<Rightarrow> c
      | Some w \<Rightarrow>
          if readyState w = CLOSED then c
          else onTransportEnd E
                 (c\<lparr>transport := (transport c)\<lparr>ws := Some (w\<lparr>readyState := CLOSED\<rparr>)\<rparr>\<rparr>))"
| "ws_handle E Failed c = c"

datatype ('a, 'req, 'cb) ws_input = User "('a, 'req, 'cb) action" | Browser ws_event

fun ws_step ::
  "('m, 'a, 'req, 'res, 'cb, 'u, 'm ws_transport) env \<Rightarrow> ('a, 'req, 'cb) ws_input
     \<Rightarrow> ('m, 'res, 'cb, 'u, 'm ws_transport) client \<Rightarrow> ('m, 'res, 'cb, 'u, 'm ws_transport) client"
where
  "ws_step E (User a) c = snd (run_action E a c)"
| "ws_step E (Browser ev) c = ws_handle E ev c"

definition ws_run ::
  "('m, 'a, 'req, 'res, 'cb, 'u, 'm ws_transport) env \<Rightarrow> ('a, 'req, 'cb) ws_input list
     \<Rightarrow> ('m, 'res, 'cb, 'u, 'm ws_transport) client \<Rightarrow> ('m, 'res, 'cb, 'u, 'm ws_transport) client"
where
  "ws_run E is c = fold (ws_step E) is c"

section \<open>The contract with the client\<close>

lemma ws_send_open:
  "ws t = Some w \<Longrightarrow> readyState w = OPEN \<Longrightarrow>
     ws_send data t = (None, t\<lparr>ws := Some (w\<lparr>wire := wire w @ [data]\<rparr>)\<rparr>)"
  by (simp add: ws_send_def)

fun wire_bytes :: "queued \<Rightarrow> bytes" where
  "wire_bytes (Message b) = 0 # b"
| "wire_bytes FINISH_SEND = [1]"

lemma sendToWebsocket_eq: "sendToWebsocket q t = ws_send (wire_bytes q) t"
  by (cases q) (simp_all add: finishSendFrame_def set_bytes_join)

lemma ws_send_quiet: "\<not> ws_waiting t \<Longrightarrow> \<exists>t'. ws_send data t = (None, t') \<and> ws t' \<noteq> None"
  by (auto simp: ws_waiting_def ws_send_def split: option.splits readyState.split)

lemma ws_call_quiet: "ws t \<noteq> None \<Longrightarrow> \<exists>t'. ws_call (\<lambda>_. None) x t = (None, t') \<and> ws t' \<noteq> None"
proof (cases x)
  case (TSend b)
  assume "ws t \<noteq> None"
  with TSend ws_send_quiet [of t "wire_bytes (Message b)"] show ?thesis
    by (cases "ws_waiting t") (simp_all add: ws_sendMessage_def sendToWebsocket_eq del: sendToWebsocket.simps)
next
  case TFinish
  assume "ws t \<noteq> None"
  with TFinish ws_send_quiet [of t "wire_bytes FINISH_SEND"] show ?thesis
    by (cases "ws_waiting t") (simp_all add: ws_finishSend_def sendToWebsocket_eq del: sendToWebsocket.simps)
qed (auto simp: ws_start_def ws_cancel_def)

interpretation ws_quiet: quiet_transport "ws_call (\<lambda>_. None)" "\<lambda>t. ws t \<noteq> None"
  by unfold_locales (simp add: ws_start_def, rule ws_call_quiet, simp)

section \<open>The order of messages on the wire\<close>

fun payload_of :: "'m tcall \<Rightarrow> queued list" where
  "payload_of (TSend b) = [Message b]"
| "payload_of TFinish = [FINISH_SEND]"
| "payload_of _ = []"

definition payloads_of :: "'m tcall list \<Rightarrow> queued list" where
  "payloads_of xs = concat (map payload_of xs)"

lemma payloads_of_snoc [simp]: "payloads_of (xs @ [x]) = payloads_of xs @ payload_of x"
  by (simp add: payloads_of_def)

text \<open>What is on the wire after the calls \<open>xs\<close>, by the state of the socket.\<close>

definition wire_ok :: "('m, 'a) metadata_ops \<Rightarrow> 'm tcall list \<Rightarrow> 'm websocket \<Rightarrow> bool" where
  "wire_ok M xs w \<longleftrightarrow>
     (\<forall>b. headersToBytes M (ws_metadata w) = Inr b \<longrightarrow>
       (if readyState w = CONNECTING then wire w = []
        else if readyState w = OPEN then wire w = b # map wire_bytes (payloads_of xs)
        else prefix (wire w) (b # map wire_bytes (payloads_of xs))))"

definition ws_ok :: "('m, 'a) metadata_ops \<Rightarrow> 'm tcall list \<Rightarrow> 'm ws_transport \<Rightarrow> bool" where
  "ws_ok M xs t \<longleftrightarrow>
     (ws_waiting t \<longrightarrow> sendQueue t = payloads_of xs) \<and>
     (\<forall>w. ws t = Some w \<longrightarrow> TStart (ws_metadata w) \<in> set xs \<and> wire_ok M xs w)"

lemma prefix_Cons_append: "prefix xs (y # ys) \<Longrightarrow> prefix xs (y # ys @ zs)"
  using prefix_prefix [of xs "y # ys" zs] by simp

lemma ws_ok_payload:
  assumes "ws_ok M xs t" "payload_of x = [q]"
  shows "ws_ok M (xs @ [x])
    (snd (if ws_waiting t then (None, t\<lparr>sendQueue := sendQueue t @ [q]\<rparr>) else sendToWebsocket q t))"
proof (cases "ws t")
  case None
  with assms show ?thesis by (simp add: ws_ok_def ws_waiting_def)
next
  case (Some w)
  then show ?thesis
    by (cases "readyState w")
      (use assms in \<open>auto simp: ws_ok_def ws_waiting_def wire_ok_def sendToWebsocket_eq ws_send_def
        prefix_Cons_append simp del: sendToWebsocket.simps\<close>)
qed

lemma starts_in: "TStart m \<in> set xs \<Longrightarrow> 0 < starts xs"
  by (induction xs) (auto simp: starts_def)

lemma ws_ok_start:
  assumes "ws_ok M xs t" "starts (xs @ [TStart m]) \<le> 1"
  shows "ws_ok M (xs @ [TStart m]) (snd (ws_start nw m t))"
proof -
  have "ws t = None"
    using assms starts_in [of _ xs] by (cases "ws t") (auto simp: ws_ok_def)
  with assms(1) show ?thesis
    by (simp add: ws_start_def ws_ok_def ws_waiting_def wire_ok_def split: option.split)
qed

lemma ws_ok_cancel:
  assumes "ws_ok M xs t"
  shows "ws_ok M (xs @ [TCancel]) (snd (ws_cancel t))"
proof (cases "ws t")
  case None
  with assms show ?thesis by (simp add: ws_ok_def ws_waiting_def ws_cancel_def)
next
  case (Some w)
  then show ?thesis
    by (cases "readyState w")
      (use assms in \<open>auto simp: ws_ok_def ws_waiting_def wire_ok_def ws_cancel_def\<close>)
qed

interpretation ws_log: transport_log "ws_call newWebSocket" "ws_ok M" for newWebSocket M
proof unfold_locales
  fix xs t and x :: "'a tcall"
  assume "ws_ok M xs t" "starts (xs @ [x]) \<le> 1"
  then show "ws_ok M (xs @ [x]) (snd (ws_call newWebSocket x t))"
    using ws_ok_payload [of M xs t x] ws_ok_start [of M xs t] ws_ok_cancel [of M xs t]
    by (cases x) (simp_all add: ws_sendMessage_def ws_finishSend_def del: sendToWebsocket.simps starts_snoc)
qed

lemma send_queue_open:
  "ws t = Some w \<Longrightarrow> readyState w = OPEN \<Longrightarrow>
     send_queue qs t = (None, t\<lparr>ws := Some (w\<lparr>wire := wire w @ map wire_bytes qs\<rparr>)\<rparr>)"
proof (induction qs arbitrary: t w)
  case (Cons q qs)
  then show ?case
    by (simp add: sendToWebsocket_eq ws_send_open del: sendToWebsocket.simps)
qed simp

lemma ws_onopen_open:
  assumes "ws t = Some w" "readyState w = OPEN" "headersToBytes M m = Inr b"
  shows "ws_onopen M m t =
    (None, t\<lparr>ws := Some (w\<lparr>wire := wire w @ b # map wire_bytes (sendQueue t)\<rparr>)\<rparr>)"
  using assms by (simp add: ws_onopen_def ws_send_open send_queue_open)

text \<open>Metadata that is not printable ASCII: neither the headers nor the queue is sent.\<close>

lemma ws_onopen_invalid: "headersToBytes M m = Inl e \<Longrightarrow> ws_onopen M m t = (Some e, t)"
  by (simp add: ws_onopen_def)

lemma ws_ok_opened:
  assumes "ws_ok M xs t" "ws t = Some w" "readyState w = CONNECTING"
  shows "ws_ok M xs (snd (ws_onopen M (ws_metadata w) (t\<lparr>ws := Some (w\<lparr>readyState := OPEN\<rparr>)\<rparr>)))"
proof (cases "headersToBytes M (ws_metadata w)")
  case (Inl e)
  with assms show ?thesis
    by (simp add: ws_onopen_invalid ws_ok_def ws_waiting_def wire_ok_def)
next
  case (Inr b)
  with assms show ?thesis
    by (simp add: ws_onopen_open ws_ok_def ws_waiting_def wire_ok_def)
qed

lemma ws_ok_closed:
  assumes "ws_ok M xs t" "ws t = Some w"
  shows "ws_ok M xs (t\<lparr>ws := Some (w\<lparr>readyState := CLOSED\<rparr>)\<rparr>)"
  using assms
  by (cases "readyState w") (auto simp: ws_ok_def ws_waiting_def wire_ok_def)

section \<open>Runs of a client over a WebSocket\<close>

abbreviation ws_tracked ::
  "('m, 'a) metadata_ops \<Rightarrow> ('m, 'res, 'cb, 'u, 'm ws_transport) client \<Rightarrow> bool"
where
  "ws_tracked M \<equiv> transport_log.tracked (ws_ok M)"

lemma ws_tracked_with:
  "ws_tracked M c \<Longrightarrow> ws_ok M (transport_calls (trace c)) t \<Longrightarrow> ws_tracked M (c\<lparr>transport := t\<rparr>)"
  by (simp add: ws_log.tracked_def single_start_def)

lemma ws_step_tracked:
  assumes "transportCall E = ws_call newWebSocket" "ws_tracked (metadata E) c"
  shows "ws_tracked (metadata E) (ws_step E i c)"
proof -
  have star: "ws_tracked (metadata E) d'"
    if "(micro E any_action)\<^sup>*\<^sup>* d d'" "ws_tracked (metadata E) d" for d d'
    using ws_log.tracked.star_keeps [OF that(1)] that(2) assms(1) by blast
  have ok: "ws_ok (metadata E) (transport_calls (trace c)) (transport c)"
    using assms(2) by (simp add: ws_log.tracked_def)
  show ?thesis
  proof (cases i)
    case (User a)
    with assms show ?thesis by (simp add: ws_log.run_action_tracked)
  next
    case (Browser ev)
    with assms(2) ok show ?thesis
      by (cases ev)
        (auto split: option.split intro!: ws_tracked_with ws_ok_opened ws_ok_closed
          intro: star [OF onTransportChunk_micro [OF callbacks_in_any]]
            star [OF onTransportEnd_micro [OF callbacks_in_any]])
  qed
qed

interpretation ws_runs:
  step_invariant "ws_step E" "\<lambda>_. True"
    "\<lambda>c. transportCall E = ws_call newWebSocket \<longrightarrow> ws_tracked (metadata E) c" for E newWebSocket
  by unfold_locales (use ws_step_tracked in blast)

lemma ws_run_tracked:
  assumes "transportCall E = ws_call newWebSocket" "ws_tracked (metadata E) c"
  shows "ws_tracked (metadata E) (ws_run E is c)"
  using ws_runs.run_keeps [of "is" E newWebSocket c] assms
  by (simp add: ws_run_def list_all_iff)

lemma websocketRequest_ok: "websocketRequest url = Inr t \<Longrightarrow> ws_ok M [] t"
  by (auto simp: websocketRequest_def js_bind_Inr_iff ws_ok_def payloads_of_def)

lemma new_client_tracked:
  "websocketRequest url = Inr t \<Longrightarrow> ws_tracked M (new_client t u)"
  using websocketRequest_ok [of url t M]
  by (simp add: ws_log.tracked_def single_start_def starts_def new_client_def)

lemma ws_run_wire:
  assumes "transportCall E = ws_call newWebSocket" "websocketRequest url = Inr t"
    and "c = ws_run E is (new_client t u)" "ws (transport c) = Some w"
    and "headersToBytes (metadata E) (ws_metadata w) = Inr b"
  shows "TStart (ws_metadata w) \<in> set (transport_calls (trace c))"
    and "prefix (wire w) (b # map wire_bytes (payloads_of (transport_calls (trace c))))"
    and "readyState w = OPEN \<Longrightarrow>
      wire w = b # map wire_bytes (payloads_of (transport_calls (trace c)))"
proof -
  have "ws_tracked (metadata E) c"
    unfolding assms(3) by (rule ws_run_tracked [OF assms(1) new_client_tracked [OF assms(2)]])
  with assms(4) have "TStart (ws_metadata w) \<in> set (transport_calls (trace c))"
    "wire_ok (metadata E) (transport_calls (trace c)) w"
    by (simp_all add: ws_log.tracked_def ws_ok_def)
  then show "TStart (ws_metadata w) \<in> set (transport_calls (trace c))"
    "prefix (wire w) (b # map wire_bytes (payloads_of (transport_calls (trace c))))"
    "readyState w = OPEN \<Longrightarrow>
      wire w = b # map wire_bytes (payloads_of (transport_calls (trace c)))"
    using assms(5) by (auto simp: wire_ok_def split: if_splits)
qed

text \<open>A request issued on a new transport waits in the queue, in order.\<close>

lemma ws_issue:
  assumes E: "transportCall E = ws_call newWebSocket" "newWebSocket (webSocketAddress t) = None"
    and c0: "\<not> started c" "\<not> closed c" "\<not> finishedSending c" "\<not> sentFirstMessage c"
    and t: "transport c = t" "ws t = None" "sendQueue t = []"
    and h: "requestHeaders_of (metadata E) md = Inr h"
    and b: "serializeBinary (methodDefinition E) request = Inr b"
    and d: "run_actions E (issue md request) c = (e, d)"
  shows "e = None \<and> started d \<and> transport d =
    t\<lparr>ws := Some \<lparr>readyState = CONNECTING, ws_metadata = h, wire = []\<rparr>,
      sendQueue := [Message (frame_message b), FINISH_SEND]\<rparr>"
proof -
  let ?w = "\<lparr>readyState = CONNECTING, ws_metadata = h, wire = []\<rparr>"
  obtain c1 where c1: "start E md c = (None, c1)" "transport c1 = t\<lparr>ws := Some ?w\<rparr>"
    "started c1" "\<not> closed c1" "\<not> finishedSending c1" "\<not> sentFirstMessage c1"
    using start_fresh [OF c0(1) h] c0 t by (simp add: E call_transport_def ws_start_def)
  obtain c2 where c2: "send E request c1 = (None, c2)" "started c2" "\<not> closed c2" "\<not> finishedSending c2"
    "transport c2 = t\<lparr>ws := Some ?w, sendQueue := [Message (frame_message b)]\<rparr>"
    using send_first [OF c1(3-6) b] c1 t
    by (simp add: E call_transport_def ws_sendMessage_def ws_waiting_def)
  obtain c3 where c3: "finishSend E c2 = (None, c3)" "started c3"
    "transport c3 = t\<lparr>ws := Some ?w, sendQueue := [Message (frame_message b), FINISH_SEND]\<rparr>"
    using finishSend_first [OF c2(2-4), of E] c2
    by (simp add: E call_transport_def ws_finishSend_def ws_waiting_def)
  have "e = None" "d = c3"
    using d c1(1) c2(1) c3(1) by (simp_all add: issue_def)
  with c3 show ?thesis by simp
qed

text \<open>
  An open socket stays open until the client closes: then every event that the browser
  delivers is an input of the client.
\<close>

definition ws_up :: "'m ws_transport \<Rightarrow> bool" where
  "ws_up t \<longleftrightarrow> (\<exists>w. ws t = Some w \<and> readyState w = OPEN)"

interpretation ws_live:
  transport_live "ws_call newWebSocket" "ws_up :: 'm ws_transport \<Rightarrow> bool" for newWebSocket
proof unfold_locales
  fix t :: "'m ws_transport" and x :: "'m tcall"
  assume "ws_up t" "\<not> is_start x" "x \<noteq> TCancel"
  then show "ws_up (snd (ws_call newWebSocket x t))"
    by (cases x)
      (auto simp: ws_up_def ws_sendMessage_def ws_finishSend_def ws_waiting_def sendToWebsocket_eq
        ws_send_open simp del: sendToWebsocket.simps)
qed

abbreviation ws_live :: "('m, 'res, 'cb, 'u, 'm ws_transport) client \<Rightarrow> bool" where
  "ws_live \<equiv> transport_live.attached ws_up"

lemmas ws_live_def = ws_live.attached_def ws_up_def

lemma ws_received:
  "ws_live c \<Longrightarrow> ws_handle E (Received b) c = step E (TransportChunk b) c"
  by (auto simp: ws_live_def onTransportChunk_def split: option.split)

lemma ws_received_driven:
  assumes "transportCall E = ws_call nw"
  shows "ws_live c \<Longrightarrow> driven E (map TransportChunk bs) c (fold (ws_handle E) (map Received bs) c) \<and>
    ws_live (fold (ws_handle E) (map Received bs) c)"
proof (induction bs arbitrary: c)
  case (Cons b bs)
  have "ws_live (step E (TransportChunk b) c)"
    by (rule ws_live.step_attached [OF assms Cons.prems])
  from Cons.IH [OF this] Cons.prems driven_append [OF driven_step [of E "TransportChunk b" c "transport c"]]
  show ?case by (simp add: ws_received del: ws_handle.simps step.simps)
qed (simp add: driven_idle)

lemma ws_closed_driven:
  assumes "ws_live c"
  shows "driven E [TransportEnd] c (ws_handle E Closed c)"
proof (cases "closed c")
  case True
  have "driven E [TransportEnd] c (c\<lparr>transport := t\<rparr>)" for t
    using driven_step [of E TransportEnd c t] True by (simp add: onTransportEnd_def)
  from this this [of "transport c"] True show ?thesis
    by (auto simp: onTransportEnd_def split: option.split)
next
  case False
  with assms obtain w where w: "ws (transport c) = Some w" "readyState w = OPEN"
    by (auto simp: ws_live_def)
  then show ?thesis
    using driven_step [of E TransportEnd c "(transport c)\<lparr>ws := Some (w\<lparr>readyState := CLOSED\<rparr>)\<rparr>"]
    by simp
qed

lemma ws_response_driven:
  assumes "transportCall E = ws_call nw" "ws_live c"
  shows "driven E (map TransportChunk bs @ [TransportEnd]) c
    (fold (ws_handle E) (map Received bs @ [Closed]) c)"
  using ws_received_driven [OF assms, of bs] ws_closed_driven
  by (auto intro: driven_append simp del: ws_handle.simps)

text \<open>\<^verbatim>\<open>unary\<close> over a WebSocket: the request on the wire, and the response in the output.\<close>

lemma ws_onopen_ready:
  assumes "ws t = Some w" "readyState w = OPEN"
  shows "\<exists>w'. ws (snd (ws_onopen M m t)) = Some w' \<and> readyState w' = OPEN"
  using assms
  by (cases "headersToBytes M m") (simp_all add: ws_onopen_invalid ws_onopen_open)

lemma unary_over_ws:
  assumes E: "E = unary_env M sl md (ws_call newWebSocket) body"
    and c: "unary E (Some websocketRequest) df host request arg u = (e, Some c)"
    and nw: "\<forall>a. newWebSocket a = None"
    and h: "requestHeaders_of M arg = Inr h" "headersToBytes M h = Inr hb"
    and b: "serializeBinary md request = Inr b"
  shows "e = None \<and> (\<exists>w. ws (transport (ws_handle E Opened c)) = Some w \<and>
      wire w = [hb, 0 # frame_message b, [1]]) \<and>
    driven E [] c (ws_handle E Opened c) \<and> ws_live (ws_handle E Opened c)"
proof -
  from c obtain t where t: "websocketRequest (request_url host md) = Inr t"
    and d: "run_actions E (issue arg request)
      (onEnd UnaryOnEnd (onMessage UnaryOnMessage
        (onHeaders UnaryOnHeaders (new_client t (new_unary_state u))))) = (e, c)"
    unfolding unary_def issue_def [symmetric] E
    by (auto simp: new_GrpcClient_def createTransport_def js_bind_def Let_def
        split: if_splits sum.splits prod.splits)
  have t0: "ws t = None" "sendQueue t = []"
    using t by (auto simp: websocketRequest_def js_bind_Inr_iff)
  let ?w = "\<lparr>readyState = CONNECTING, ws_metadata = h, wire = []\<rparr>"
  have s: "e = None" "started c" "transport c =
      t\<lparr>ws := Some ?w, sendQueue := [Message (frame_message b), FINISH_SEND]\<rparr>"
    using ws_issue [where E = E and newWebSocket = newWebSocket, OF _ _ _ _ _ _ refl _ _ _ _ d] t0 nw h(1) b
    by (simp_all add: E onEnd_def onMessage_def onHeaders_def new_client_def)
  let ?t = "snd (ws_onopen M h ((transport c)\<lparr>ws := Some (?w\<lparr>readyState := OPEN\<rparr>)\<rparr>))"
  have o: "ws_handle E Opened c = c\<lparr>transport := ?t\<rparr>"
    using s(3) by (simp add: E)
  have "?t = t\<lparr>ws := Some \<lparr>readyState = OPEN, ws_metadata = h, wire = [hb, 0 # frame_message b, [1]]\<rparr>,
      sendQueue := [Message (frame_message b), FINISH_SEND]\<rparr>"
    by (simp add: s(3) ws_onopen_open h(2))
  with o s show ?thesis
    by (auto simp: ws_live_def intro: driven.rest)
qed

lemma ws_closed_completes:
  "ws (transport c) = Some w \<Longrightarrow> readyState w \<noteq> CLOSED \<Longrightarrow> \<not> closed c \<Longrightarrow>
     completed (ws_step E (Browser Closed) c)"
  by (simp add: onTransportEnd_completes)

lemma unary_ws_driven:
  assumes E: "E = unary_env M sl md (ws_call newWebSocket) body"
    and c: "unary E (Some websocketRequest) df host request arg u = (e, Some c)"
    and nw: "\<forall>a. newWebSocket a = None"
    and req: "requestHeaders_of M arg = Inr h" "headersToBytes M h = Inr hb"
      "serializeBinary md request = Inr b"
  shows "driven E (map TransportChunk bs @ [TransportEnd]) c
      (fold (ws_handle E) (Opened # map Received bs @ [Closed]) c)"
proof -
  let ?d = "ws_handle E Opened c"
  note o = unary_over_ws [OF E c nw req]
  have tc: "transportCall E = ws_call newWebSocket" by (simp add: E)
  have "driven E (map TransportChunk bs @ [TransportEnd]) c
      (fold (ws_handle E) (map Received bs @ [Closed]) ?d)"
    using driven_append [OF _ ws_response_driven [OF tc, of ?d bs]] o by fastforce
  then show ?thesis by simp
qed

lemma unary_ws_response:
  assumes E: "E = unary_env M sl md (ws_call newWebSocket) body"
    and c: "unary E (Some websocketRequest) df host request arg u = (e, Some c)"
    and nw: "\<forall>a. newWebSocket a = None"
    and req: "requestHeaders_of M arg = Inr h" "headersToBytes M h = Inr hb"
      "serializeBinary md request = Inr b"
    and body: "bodies_in observing body"
    and th: "concat hs = frame_bytes (0x80, th)" "length th < 2 ^ 32" "parseTrailerData M th = Inr mh"
    and frames: "list_all (\<lambda>d. length d < 2 ^ 32) ds" "length t < 2 ^ 32" "concat bs = response_stream ds t"
    and ok: "list_all2 (\<lambda>d r. deserializeBinary md d = Inr r) ds rs" "parseTrailerData M t = Inr m"
    and stat: "status_of M (md_copy M m) = Some (s, msg)"
  shows "outputs (user (fold (ws_handle E)
            (Opened # map Received (hs @ bs) @ [Closed]) c)) =
     [\<lparr>out_status = s, out_statusMessage = msg, out_headers = md_copy M mh,
       out_message = (if rs = [] then None else Some (last rs)), out_trailers = md_copy M m\<rparr>]"
proof -
  have "driven E (map TransportChunk (hs @ bs) @ [TransportEnd]) c
      (fold (ws_handle E) (Opened # map Received (hs @ bs) @ [Closed]) c)"
    using unary_ws_driven [OF E c nw req, of "hs @ bs"] by (simp del: ws_handle.simps)
  moreover have "deserialized E ds rs"
    using ok(1) by (simp add: deserialized_def E)
  ultimately show ?thesis
    using unary_delivers_framed [OF c [unfolded E] _ body th frames _ ok(2) stat]
    by (simp add: E [symmetric] del: ws_handle.simps)
qed

section \<open>Properties\<close>

definition ws_demo_transport :: "assoc ws_transport" where
  "ws_demo_transport = \<lparr>webSocketAddress = js ''ws://h'', sendQueue = [], ws = None\<rparr>"

definition ws_demo :: "(assoc, assoc, bytes, bytes, nat, nat, assoc ws_transport) env" where
  "ws_demo =
     \<lparr>metadata = assoc_metadata, hasSlice = True,
      methodDefinition =
        \<lparr>methodName = js ''m'', serviceName = js ''s'', requestStream = True, responseStream = True,
         serializeBinary = Inr, deserializeBinary = Inr\<rparr>,
      transportCall = ws_call (\<lambda>_. None), callback = (\<lambda>cb ev n. (n + 1, []))\<rparr>"

text \<open>
  The order on the wire: in every run of a client over a WebSocket, with sends before, between
  and after the opening of the socket, the socket has transmitted the header block and then the
  messages and the end-of-send mark in the order of the client's calls; while it is open, all of
  them, and after it closes a prefix.
\<close>

theorem websocket_wire_order:
  assumes "transportCall E = ws_call newWebSocket" "websocketRequest url = Inr t"
    and "ws (transport (ws_run E is (new_client t u))) = Some w"
    and "headersToBytes (metadata E) (ws_metadata w) = Inr b"
  shows "prefix (wire w)
      (b # map wire_bytes (payloads_of (transport_calls (trace (ws_run E is (new_client t u)))))) \<and>
    (readyState w = OPEN \<longrightarrow>
      wire w = b # map wire_bytes (payloads_of (transport_calls (trace (ws_run E is (new_client t u))))))"
  using ws_run_wire [OF assms(1,2) refl assms(3,4)] by blast

definition ws_demo_inputs :: "(assoc, bytes, nat) ws_input list" where
  "ws_demo_inputs = [User (Start None), User (Send [1]), Browser Opened, User (Send [2]), User FinishSend]"

theorem websocket_wire_order_witness:
  "\<exists>w b. ws (transport (ws_run ws_demo ws_demo_inputs (new_client ws_demo_transport 0))) = Some w \<and>
     wire w = b # map wire_bytes (payloads_of (transport_calls
       (trace (ws_run ws_demo ws_demo_inputs (new_client ws_demo_transport 0)))))"
proof -
  let ?c = "ws_run ws_demo ws_demo_inputs (new_client ws_demo_transport 0)"
  have "(case ws (transport ?c) of None \<Rightarrow> False
      | Some w \<Rightarrow> readyState w = OPEN \<and> headersToBytes assoc_metadata (ws_metadata w) \<noteq> Inl (Error []) \<and>
          list_all isValidHeaderAscii (header_block assoc_metadata (ws_metadata w)))"
    by code_simp
  then obtain w where w: "ws (transport ?c) = Some w" "readyState w = OPEN"
    "list_all isValidHeaderAscii (header_block assoc_metadata (ws_metadata w))"
    by (auto split: option.splits)
  then obtain b where "headersToBytes assoc_metadata (ws_metadata w) = Inr b"
    by (auto simp: headersToBytes_def encodeASCII_def encodeASCII_from_eq)
  moreover have "websocketRequest (js ''http://h'') = Inr ws_demo_transport"
    by code_simp
  ultimately show ?thesis
    using websocket_wire_order [of ws_demo "\<lambda>_. None" "js ''http://h''" ws_demo_transport ws_demo_inputs 0 w] w
    by (auto simp: ws_demo_def)
qed

text \<open>
  Metadata that is not printable ASCII is only noticed when the socket opens, and then nothing
  is sent: neither the header block nor what waits in the queue, although the socket is open and
  later messages will be sent on it.
\<close>

theorem websocket_bad_metadata:
  assumes "ws (transport c) = Some w" "readyState w = CONNECTING"
    and "headersToBytes (metadata E) (ws_metadata w) = Inl e"
  shows "ws_handle E Opened c =
    c\<lparr>transport := (transport c)\<lparr>ws := Some (w\<lparr>readyState := OPEN\<rparr>)\<rparr>\<rparr>"
  using assms by (simp add: ws_onopen_invalid)

definition bad_socket :: "assoc websocket" where
  "bad_socket = \<lparr>readyState = CONNECTING, ws_metadata = [([233], [[]])], wire = []\<rparr>"

definition bad_transport :: "assoc ws_transport" where
  "bad_transport = ws_demo_transport\<lparr>sendQueue := [Message [1]], ws := Some bad_socket\<rparr>"

theorem websocket_bad_metadata_witness:
  "transport (ws_handle ws_demo Opened (new_client bad_transport 0)) =
     bad_transport\<lparr>ws := Some (bad_socket\<lparr>readyState := OPEN\<rparr>)\<rparr>"
proof -
  let ?c = "new_client bad_transport 0 :: (assoc, bytes, nat, nat, assoc ws_transport) client"
  have "ws (transport ?c) = Some bad_socket"
    by (simp add: bad_transport_def new_client_def)
  moreover have "readyState bad_socket = CONNECTING" by (simp add: bad_socket_def)
  moreover have "headersToBytes (metadata ws_demo) (ws_metadata bad_socket) =
      Inl (Error (js ''Metadata contains invalid ASCII''))"
    by code_simp
  ultimately have "ws_handle ws_demo Opened ?c =
      ?c\<lparr>transport := (transport ?c)\<lparr>ws := Some (bad_socket\<lparr>readyState := OPEN\<rparr>)\<rparr>\<rparr>"
    by (rule websocket_bad_metadata)
  then show ?thesis by (simp add: new_client_def)
qed

end
