(* ===== verification/Xhr.thy ===== *)
theory Xhr
  imports Requests
begin

text \<open>
  \<^verbatim>\<open>client/grpc-web/src/transports/http/xhr.ts\<close> and \<^verbatim>\<open>xhrUtil.ts\<close>: the transports over
  \<^verbatim>\<open>XMLHttpRequest\<close>.  The text variant reads a binary response through the charset
  \<^verbatim>\<open>x-user-defined\<close>, which gives one UTF-16 unit per byte, and keeps in \<^verbatim>\<open>index\<close> how
  much of the growing text it has delivered; Firefox's \<^verbatim>\<open>moz-chunked-arraybuffer\<close> gives
  the new bytes themselves.

  The browser's object is modelled by the members used.  What it may throw in \<^verbatim>\<open>open\<close> and
  \<^verbatim>\<open>setRequestHeader\<close>, and which response types it supports, are parameters.
\<close>

section \<open>Strings as bytes\<close>

text \<open>\<^verbatim>\<open>charCodeAt\<close>; \<open>None\<close> is NaN, which no comparison holds of.\<close>

definition charCodeAt :: "js_string \<Rightarrow> nat \<Rightarrow> nat option" where
  "charCodeAt str index = (if index < length str then Some (unat (str ! index)) else None)"

definition in_range :: "nat option \<Rightarrow> nat \<Rightarrow> nat \<Rightarrow> bool" where
  "in_range x lo hi \<longleftrightarrow> (case x of None \<Rightarrow> False | Some n \<Rightarrow> lo \<le> n \<and> n \<le> hi)"

definition codePointAtPolyfill :: "js_string \<Rightarrow> nat \<Rightarrow> nat option" where
  "codePointAtPolyfill str index =
     (let code = charCodeAt str index in
      if in_range code 0xd800 0xdbff then
        (let surr = charCodeAt str (index + 1) in
         if in_range surr 0xdc00 0xdfff
         then Some (0x10000 + push_bit 10 (the code - 0xd800) + (the surr - 0xdc00))
         else code)
      else code)"

text \<open>\<^verbatim>\<open>String.prototype.codePointAt\<close> after the ECMAScript definition.\<close>

definition codePointAt :: "js_string \<Rightarrow> nat \<Rightarrow> nat option" where
  "codePointAt str pos =
     (if length str \<le> pos then None
      else
        let first = str ! pos in
        if first < 0xD800 \<or> 0xDBFF < first \<or> pos + 1 = length str then Some (unat first)
        else
          let second = str ! (pos + 1) in
          if second < 0xDC00 \<or> 0xDFFF < second then Some (unat first)
          else Some ((unat first - 0xD800) * 0x400 + (unat second - 0xDC00) + 0x10000))"

text \<open>
  The flag says whether the browser has \<^verbatim>\<open>codePointAt\<close>.  \<^verbatim>\<open>arrayIndex\<close> is \<^verbatim>\<open>i\<close> in every
  iteration; \<^verbatim>\<open>codePoint & 0xFF\<close> of an undefined code point would be 0.
\<close>

definition stringToArrayBuffer :: "bool \<Rightarrow> js_string \<Rightarrow> bytes" where
  "stringToArrayBuffer hasCodePointAt str =
     map (\<lambda>i. case (if hasCodePointAt then codePointAt str i else codePointAtPolyfill str i) of
                 None \<Rightarrow> 0
               | Some codePoint \<Rightarrow> of_nat (codePoint AND 0xFF))
       [0..<length str]"

section \<open>State\<close>

datatype xhr_class = XHR | MozChunkedArrayBufferXHR

text \<open>
  \<open>response\<close> is the text so far, \<open>newBytes\<close> what \<^verbatim>\<open>moz-chunked-arraybuffer\<close> holds during a
  progress event, \<open>listening\<close> whether the four listeners are attached.
\<close>

definition text_type :: js_string where
  "text_type = js ''text''"

definition moz_type :: js_string where
  "moz_type = js ''moz-chunked-arraybuffer''"

lemma text_moz [simp]: "text_type \<noteq> moz_type" "moz_type \<noteq> text_type"
  by (simp_all add: text_type_def moz_type_def)

record xml_http_request =
  responseType :: js_string
  mimeType :: "js_string option"
  requestHeaders :: "(js_string \<times> js_string) list"
  withCredentials :: bool
  listening :: bool
  sent :: "bytes option"
  aborted :: bool
  response :: js_string
  newBytes :: bytes

record 'm xhr_transport =
  xhrClass :: xhr_class
  xhrUrl :: js_string
  initCredentials :: bool
  xhr :: "xml_http_request option"
  xhrMetadata :: "'m option"
  index :: "nat option"

record xhr_browser =
  xhrOpen :: "js_string \<Rightarrow> js_error option"
  setRequestHeader :: "js_string \<Rightarrow> js_string \<Rightarrow> js_error option"
  hasCodePointAt :: bool

definition new_xml_http_request :: xml_http_request where
  "new_xml_http_request =
     \<lparr>responseType = [], mimeType = None, requestHeaders = [], withCredentials = False,
      listening = False, sent = None, aborted = False, response = [], newBytes = []\<rparr>"

definition new_XHR :: "xhr_class \<Rightarrow> js_string \<Rightarrow> bool \<Rightarrow> 'm xhr_transport" where
  "new_XHR cls url credentials =
     \<lparr>xhrClass = cls, xhrUrl = url, initCredentials = credentials, xhr = None,
      xhrMetadata = None, index = None\<rparr>"

section \<open>Choosing the variant\<close>

text \<open>
  \<^verbatim>\<open>xhrUtil.ts\<close>: the environment has \<^verbatim>\<open>XMLHttpRequest\<close> or not; assigning a response type
  reads back as \<open>assignType\<close> says or throws (\<open>None\<close>).
\<close>

record xhr_environment =
  hasXMLHttpRequest :: bool
  assignType :: "js_string \<Rightarrow> js_string option"
  hasOverrideMimeType :: bool

definition xhrSupportsResponseType :: "xhr_environment \<Rightarrow> js_string \<Rightarrow> bool" where
  "xhrSupportsResponseType V type =
     (if \<not> hasXMLHttpRequest V then False
      else case assignType V type of None \<Rightarrow> False | Some r \<Rightarrow> r = type)"

definition detectMozXHRSupport :: "xhr_environment \<Rightarrow> bool" where
  "detectMozXHRSupport V \<longleftrightarrow>
     hasXMLHttpRequest V \<and> xhrSupportsResponseType V moz_type"

definition detectXHROverrideMimeTypeSupport :: "xhr_environment \<Rightarrow> bool" where
  "detectXHROverrideMimeTypeSupport V \<longleftrightarrow> hasXMLHttpRequest V \<and> hasOverrideMimeType V"

definition XhrTransport :: "xhr_environment \<Rightarrow> bool \<Rightarrow> js_string \<Rightarrow> 'm xhr_transport result" where
  "XhrTransport V credentials url =
     (if detectMozXHRSupport V then Inr (new_XHR MozChunkedArrayBufferXHR url credentials)
      else if detectXHROverrideMimeTypeSupport V then Inr (new_XHR XHR url credentials)
      else Inl (Error (js ''This environment's XHR implementation cannot support binary transfer.'')))"

section \<open>Calls of the client\<close>

fun configureXhr :: "xhr_class \<Rightarrow> xml_http_request \<Rightarrow> xml_http_request" where
  "configureXhr XHR r =
     r\<lparr>responseType := text_type, mimeType := Some (js ''text/plain; charset=x-user-defined'')\<rparr>"
| "configureXhr MozChunkedArrayBufferXHR r = r\<lparr>responseType := moz_type\<rparr>"

fun set_headers ::
  "xhr_browser \<Rightarrow> (js_string \<times> js_string list) list \<Rightarrow> xml_http_request
     \<Rightarrow> js_error option \<times> xml_http_request"
where
  "set_headers B [] r = (None, r)"
| "set_headers B ((key, values) # kvs) r =
     (let value = js_join (js '', '') values in
      case setRequestHeader B key value of
        Some e \<Rightarrow> (Some e, r)
      | None \<Rightarrow> set_headers B kvs (r\<lparr>requestHeaders := requestHeaders r @ [(key, value)]\<rparr>))"

definition xhr_start ::
  "xhr_browser \<Rightarrow> ('m, 'a) metadata_ops \<Rightarrow> 'm \<Rightarrow> 'm xhr_transport
     \<Rightarrow> js_error option \<times> 'm xhr_transport"
where
  "xhr_start B M md t =
     (let t = t\<lparr>xhrMetadata := Some md, xhr := Some new_xml_http_request\<rparr> in
      case xhrOpen B (xhrUrl t) of
        Some e \<Rightarrow> (Some e, t)
      | None \<Rightarrow>
          (let r = configureXhr (xhrClass t) new_xml_http_request in
           case set_headers B (md_entries M md) r of
             (Some e, r) \<Rightarrow> (Some e, t\<lparr>xhr := Some r\<rparr>)
           | (None, r) \<Rightarrow>
               (None, t\<lparr>xhr := Some (r\<lparr>withCredentials := initCredentials t, listening := True\<rparr>)\<rparr>)))"

text \<open>\<^verbatim>\<open>xhr.send\<close> throws when it has been called before.\<close>

definition xhr_sendMessage :: "bytes \<Rightarrow> 'm xhr_transport \<Rightarrow> js_error option \<times> 'm xhr_transport" where
  "xhr_sendMessage msgBytes t =
     (case xhr t of
        None \<Rightarrow> (Some (TypeError (js ''xhr is undefined'')), t)
      | Some r \<Rightarrow>
          if sent r \<noteq> None then (Some (Error (js ''InvalidStateError'')), t)
          else (None, t\<lparr>xhr := Some (r\<lparr>sent := Some msgBytes\<rparr>)\<rparr>))"

definition xhr_finishSend :: "'m xhr_transport \<Rightarrow> js_error option \<times> 'm xhr_transport" where
  "xhr_finishSend t = (None, t)"

definition xhr_cancel :: "'m xhr_transport \<Rightarrow> js_error option \<times> 'm xhr_transport" where
  "xhr_cancel t =
     (case xhr t of
        None \<Rightarrow> (Some (TypeError (js ''xhr is undefined'')), t)
      | Some r \<Rightarrow> (None, t\<lparr>xhr := Some (r\<lparr>aborted := True\<rparr>)\<rparr>))"

fun xhr_call ::
  "xhr_browser \<Rightarrow> ('m, 'a) metadata_ops \<Rightarrow> 'm tcall \<Rightarrow> 'm xhr_transport
     \<Rightarrow> js_error option \<times> 'm xhr_transport"
where
  "xhr_call B M (TStart md) t = xhr_start B M md t"
| "xhr_call B M (TSend msgBytes) t = xhr_sendMessage msgBytes t"
| "xhr_call B M TFinish t = xhr_finishSend t"
| "xhr_call B M TCancel t = xhr_cancel t"

section \<open>Events of the browser\<close>

text \<open>The charset \<^verbatim>\<open>x-user-defined\<close>: ASCII bytes are themselves, the others go to U+F780..U+F7FF.\<close>

definition x_user_defined :: "byte \<Rightarrow> js_char" where
  "x_user_defined b = (if b < 0x80 then ucast b else 0xF780 + (ucast b - 0x80))"

definition received :: "bytes \<Rightarrow> xml_http_request \<Rightarrow> xml_http_request" where
  "received bs r =
     (if responseType r = moz_type then r\<lparr>newBytes := bs\<rparr>
      else r\<lparr>response := response r @ map x_user_defined bs\<rparr>)"

text \<open>What \<^verbatim>\<open>onProgressEvent\<close> hands to \<^verbatim>\<open>onChunk\<close>; \<^verbatim>\<open>substr(undefined)\<close> starts at 0.\<close>

definition onProgressEvent ::
  "xhr_browser \<Rightarrow> xml_http_request \<Rightarrow> 'm xhr_transport \<Rightarrow> bytes \<times> 'm xhr_transport"
where
  "onProgressEvent B r t =
     (case xhrClass t of
        XHR \<Rightarrow>
          (let rawText = drop (case index t of None \<Rightarrow> 0 | Some i \<Rightarrow> i) (response r)
           in (stringToArrayBuffer (hasCodePointAt B) rawText,
               t\<lparr>index := Some (length (response r))\<rparr>))
      | MozChunkedArrayBufferXHR \<Rightarrow> (newBytes r, t))"

datatype xhr_event =
    HeadersReceived js_string int
  | Progress bytes
  | LoadEnd
  | ErrorEvent

definition xhr_handle ::
  "xhr_browser \<Rightarrow> ('m, 'a, 'req, 'res, 'cb, 'u, 'm xhr_transport) env \<Rightarrow> xhr_event
     \<Rightarrow> ('m, 'res, 'cb, 'u, 'm xhr_transport) client \<Rightarrow> ('m, 'res, 'cb, 'u, 'm xhr_transport) client"
where
  "xhr_handle B E ev c =
     (case xhr (transport c) of
        None \<Rightarrow> c
      | Some r \<Rightarrow>
          if \<not> listening r then c
          else
            case ev of
              HeadersReceived text status \<Rightarrow>
                (case md_of_text (metadata E) text of
                   Inl e \<Rightarrow> c
                 | Inr headers \<Rightarrow> onTransportHeaders E headers status c)
            | Progress bs \<Rightarrow>
                (let r' = received bs r;
                     (chunk, t) = onProgressEvent B r' ((transport c)\<lparr>xhr := Some r'\<rparr>)
                 in snd (onTransportChunk E chunk (c\<lparr>transport := t\<rparr>)))
            | LoadEnd \<Rightarrow> onTransportEnd E c
            | ErrorEvent \<Rightarrow> onTransportEnd E c)"

section \<open>The two readings of a string agree\<close>

lemma surrogate_le: "(c :: js_char) < 0xD800 \<longleftrightarrow> unat c < 0xD800" "0xDBFF < c \<longleftrightarrow> 0xDBFF < unat c"
  "c < 0xDC00 \<longleftrightarrow> unat c < 0xDC00" "0xDFFF < c \<longleftrightarrow> 0xDFFF < unat c"
  by (simp_all add: word_less_nat_alt)

lemma codePointAt_polyfill: "codePointAt str i = codePointAtPolyfill str i"
proof (cases "i < length str")
  case True
  then consider "i + 1 = length str" | "i + 1 < length str" by linarith
  then show ?thesis
    by cases
      (auto simp: codePointAt_def codePointAtPolyfill_def charCodeAt_def in_range_def Let_def
        surrogate_le push_bit_eq_mult not_less)
qed (simp add: codePointAt_def codePointAtPolyfill_def charCodeAt_def in_range_def)

lemma stringToArrayBuffer_polyfill: "stringToArrayBuffer True str = stringToArrayBuffer False str"
  by (simp add: stringToArrayBuffer_def codePointAt_polyfill)

lemma length_stringToArrayBuffer [simp]: "length (stringToArrayBuffer h str) = length str"
  by (simp add: stringToArrayBuffer_def)

text \<open>Every unit the charset produces carries its byte, and none is a surrogate.\<close>

lemma x_user_defined_unat: "unat (x_user_defined b) = (if b < 0x80 then unat b else 0xF700 + unat b)"
proof (cases "b < 0x80")
  case False
  then have "128 \<le> unat b" "unat b < 256"
    using byte_bound [of b] by (simp_all add: word_less_nat_alt not_less)
  have "x_user_defined b = of_nat (0xF700 + unat b)"
    using False by (simp add: x_user_defined_def algebra_simps)
  moreover have small: "unat (of_nat n :: js_char) = n" if "n < 2 ^ 16" for n
    using that by (simp add: unat_of_nat take_bit_nat_eq_self)
  have "unat (of_nat (0xF700 + unat b) :: js_char) = 0xF700 + unat b"
    by (rule small) (use \<open>unat b < 256\<close> in simp)
  ultimately have "unat (x_user_defined b) = 0xF700 + unat b" by metis
  with False show ?thesis by simp
next
  case True
  have "unat b < 2 ^ 16" using byte_bound [of b] by simp
  with True show ?thesis
    by (simp add: x_user_defined_def unsigned_ucast_eq take_bit_nat_eq_self)
qed

lemma x_user_defined_plain: "unat (x_user_defined b) < 0xD800 \<or> 0xDFFF < unat (x_user_defined b)"
proof -
  have "unat b < 256" using byte_bound [of b] by simp
  moreover have "b < 0x80 \<or> 0x80 \<le> unat b" by (auto simp: word_less_nat_alt not_less)
  ultimately show ?thesis by (auto simp: x_user_defined_unat)
qed

lemma low_byte: "n AND 0xFF = n mod 256" for n :: nat
proof -
  have "mask 8 = (0xFF :: nat)" by (simp add: mask_eq_exp_minus_1)
  then show ?thesis using take_bit_eq_mask [of 8 n] by (simp add: take_bit_eq_mod)
qed

lemma x_user_defined_byte: "of_nat (unat (x_user_defined b) AND 0xFF) = b"
proof -
  have "unat b < 256" using byte_bound [of b] by simp
  moreover have "(0xF700 + n) mod 256 = n mod 256" for n :: nat
    using mod_mult_self3 [of 247 256 n] by simp
  ultimately show ?thesis unfolding low_byte x_user_defined_unat by simp
qed

lemma codePointAt_plain:
  "i < length str \<Longrightarrow> unat (str ! i) < 0xD800 \<or> 0xDFFF < unat (str ! i) \<Longrightarrow>
     codePointAt str i = Some (unat (str ! i))"
  by (auto simp: codePointAt_def Let_def surrogate_le)

lemma stringToArrayBuffer_x_user_defined:
  "stringToArrayBuffer h (map x_user_defined bs) = bs"
proof -
  have "stringToArrayBuffer True (map x_user_defined bs) = bs"
    unfolding stringToArrayBuffer_def
    by (rule nth_equalityI)
      (simp_all add: codePointAt_plain x_user_defined_plain x_user_defined_byte)
  then show ?thesis
    by (cases h) (simp_all add: stringToArrayBuffer_polyfill)
qed

section \<open>What the client is driven by\<close>

definition xhr_view ::
  "'m xhr_transport \<Rightarrow> xhr_class \<times> nat option \<times> (bool \<times> js_string \<times> js_string) option"
where
  "xhr_view t =
     (xhrClass t, index t, map_option (\<lambda>r. (listening r, responseType r, response r)) (xhr t))"

interpretation xhr_same: transport_view "xhr_call B M" xhr_view for B M
proof unfold_locales
  fix x :: "'a tcall" and t
  assume "\<not> is_start x"
  then show "xhr_view (snd (xhr_call B M x t)) = xhr_view t"
    by (cases x)
      (simp_all add: xhr_view_def xhr_sendMessage_def xhr_finishSend_def xhr_cancel_def
        split: option.split)
qed

text \<open>A started request whose text so far has been delivered up to \<^verbatim>\<open>index\<close>.\<close>

fun current_view ::
  "xhr_class \<times> nat option \<times> (bool \<times> js_string \<times> js_string) option \<Rightarrow> bool"
where
  "current_view (MozChunkedArrayBufferXHR, i, Some (l, type, text)) \<longleftrightarrow> l \<and> type = moz_type"
| "current_view (XHR, i, Some (l, type, text)) \<longleftrightarrow>
     l \<and> type = text_type \<and> length text = (case i of None \<Rightarrow> 0 | Some n \<Rightarrow> n)"
| "current_view (_, _, None) \<longleftrightarrow> False"

definition xhr_current :: "'m xhr_transport \<Rightarrow> bool" where
  "xhr_current t \<longleftrightarrow> current_view (xhr_view t)"

lemma xhr_current_view: "xhr_view t' = xhr_view t \<Longrightarrow> xhr_current t \<Longrightarrow> xhr_current t'"
  by (simp add: xhr_current_def)

lemma xhr_current_open:
  assumes "xhr_current t"
  obtains r where "xhr t = Some r" "listening r"
  using assms
  by (cases "xhr t"; cases "xhrClass t") (auto simp: xhr_current_def xhr_view_def)

lemma set_headers_fields:
  "set_headers B kvs r = (e, r') \<Longrightarrow>
     responseType r' = responseType r \<and> response r' = response r \<and> newBytes r' = newBytes r"
proof (induction kvs arbitrary: r)
  case (Cons kv kvs)
  obtain key vs where kv: "kv = (key, vs)" by fastforce
  show ?case
  proof (cases "setRequestHeader B key (js_join (js '', '') vs)")
    case None
    with Cons.prems kv
    have "set_headers B kvs (r\<lparr>requestHeaders := requestHeaders r @ [(key, js_join (js '', '') vs)]\<rparr>) =
        (e, r')" by (simp add: Let_def)
    from Cons.IH [OF this] show ?thesis by simp
  qed (use Cons.prems kv in \<open>simp add: Let_def\<close>)
qed simp

lemma xhr_start_current:
  assumes "xhr_start B M m (new_XHR cls url cr) = (None, t)"
  shows "xhr_current t"
proof -
  let ?r = "configureXhr cls new_xml_http_request"
  from assms obtain r where r: "set_headers B (md_entries M m) ?r = (None, r)"
    "xhr t = Some (r\<lparr>withCredentials := cr, listening := True\<rparr>)" "xhrClass t = cls" "index t = None"
    by (auto simp: xhr_start_def new_XHR_def Let_def split: option.splits prod.splits)
  from set_headers_fields [OF r(1)] r(2-4) show ?thesis
    by (cases cls) (simp_all add: xhr_current_def xhr_view_def new_xml_http_request_def)
qed

lemma xhr_progress:
  assumes "xhr_current t" "xhr t = Some r"
  obtains t' where "onProgressEvent B (received bs r) (t\<lparr>xhr := Some (received bs r)\<rparr>) = (bs, t')"
    "xhr_current t'"
proof (cases "xhrClass t")
  case XHR
  with assms have "responseType r = text_type"
    "length (response r) = (case index t of None \<Rightarrow> 0 | Some i \<Rightarrow> i)" "listening r"
    by (simp_all add: xhr_current_def xhr_view_def)
  with XHR that show thesis
    by (simp add: onProgressEvent_def received_def stringToArrayBuffer_x_user_defined
        xhr_current_def xhr_view_def)
next
  case MozChunkedArrayBufferXHR
  with assms that show thesis
    by (simp add: onProgressEvent_def received_def xhr_current_def xhr_view_def)
qed

text \<open>What each event makes the client see, whatever was cut where.\<close>

fun xhr_inputs :: "('m, 'a) metadata_ops \<Rightarrow> xhr_event \<Rightarrow> ('m, 'a, 'req, 'cb) input list" where
  "xhr_inputs M (HeadersReceived text status) =
     (case md_of_text M text of Inl e \<Rightarrow> [] | Inr h \<Rightarrow> [TransportHeaders h status])"
| "xhr_inputs M (Progress bs) = [TransportChunk bs]"
| "xhr_inputs M LoadEnd = [TransportEnd]"
| "xhr_inputs M ErrorEvent = [TransportEnd]"

lemma xhr_step_keeps:
  assumes "transportCall E = xhr_call B M" "started c" "xhr_current t"
  shows "started (step E i (c\<lparr>transport := t\<rparr>)) \<and> xhr_current (transport (step E i (c\<lparr>transport := t\<rparr>)))"
  using xhr_same.star_view [OF step_micro [OF callbacks_in_any admissible_any] assms(1), of "c\<lparr>transport := t\<rparr>" i]
    assms(2,3) by (simp add: xhr_current_def)

text \<open>One event is no input, or one input after a change of the transport alone.\<close>

lemma xhr_handle_step:
  fixes E :: "('m, 'a, 'req, 'res, 'cb, 'u, 'm xhr_transport) env"
  assumes "xhr_current (transport c)"
  obtains "xhr_handle B E ev c = c" "xhr_inputs (metadata E) ev = ([] :: ('m, 'a, 'req, 'cb) input list)"
  | i t where "xhr_handle B E ev c = step E i (c\<lparr>transport := t\<rparr>)"
      "xhr_inputs (metadata E) ev = [i]" "xhr_current t"
proof -
  from assms obtain r where r: "xhr (transport c) = Some r" "listening r"
    by (rule xhr_current_open)
  show thesis
  proof (cases ev)
    case (HeadersReceived block status)
    show thesis
    proof (cases "md_of_text (metadata E) block")
      case (Inl e)
      with HeadersReceived r that(1) show thesis by (simp add: xhr_handle_def)
    next
      case (Inr h)
      with HeadersReceived r that(2) [of "TransportHeaders h status" "transport c"] assms
      show thesis by (simp add: xhr_handle_def)
    qed
  next
    case (Progress bs)
    obtain t' where
      "onProgressEvent B (received bs r) ((transport c)\<lparr>xhr := Some (received bs r)\<rparr>) = (bs, t')"
      "xhr_current t'"
      by (rule xhr_progress [OF assms r(1)])
    with Progress r that(2) [of "TransportChunk bs" t'] show thesis
      by (simp add: xhr_handle_def)
  qed (use r that(2) [of TransportEnd "transport c"] assms in \<open>simp_all add: xhr_handle_def\<close>)
qed

lemma xhr_handle_driven:
  assumes E: "transportCall E = xhr_call B M" and c: "started c" "xhr_current (transport c)"
  shows "driven E (xhr_inputs (metadata E) ev) c (xhr_handle B E ev c) \<and>
    started (xhr_handle B E ev c) \<and> xhr_current (transport (xhr_handle B E ev c))"
proof (cases rule: xhr_handle_step [OF c(2), of B E ev])
  case 1
  with c show ?thesis by (simp add: driven_idle)
next
  case (2 i t)
  with xhr_step_keeps [OF E c(1) 2(3), of i] show ?thesis by (simp add: driven_step)
qed

lemma xhr_driven:
  assumes "transportCall E = xhr_call B M"
  shows "started c \<Longrightarrow> xhr_current (transport c) \<Longrightarrow>
     driven E (concat (map (xhr_inputs (metadata E)) evs)) c (fold (xhr_handle B E) evs c)"
proof (induction evs arbitrary: c)
  case (Cons ev evs)
  with xhr_handle_driven [OF assms Cons.prems, of ev] show ?case
    by (auto intro: driven_append)
qed (simp add: driven_idle)

text \<open>\<^verbatim>\<open>unary\<close> over \<^verbatim>\<open>XMLHttpRequest\<close>, from the bytes of the response to the output.\<close>

lemma xhr_started_current:
  assumes "transportCall E = xhr_call B M"
    and "XhrTransport V cr url = Inr t0" "xhr_call B M (TStart m0) t0 = (None, t1)" "started_with E t1 c"
  shows "started c \<and> xhr_current (transport c)"
proof -
  from assms(2,3) have "xhr_current t1"
    by (auto simp: XhrTransport_def intro: xhr_start_current split: if_splits)
  with xhr_same.started_view [OF assms(4,1)] xhr_current_view [of "transport c" t1]
  show ?thesis by simp
qed

lemma xhr_response_driven:
  assumes "transportCall E = xhr_call B M" "metadata E = M" "started c" "xhr_current (transport c)"
    and "md_of_text M block = Inr h"
  shows "driven E (TransportHeaders h status # map TransportChunk bs @ [TransportEnd]) c
    (fold (xhr_handle B E) (HeadersReceived block status # map Progress bs @ [LoadEnd]) c)"
  using xhr_driven [OF assms(1,3,4), of "HeadersReceived block status # map Progress bs @ [LoadEnd]"] assms(5)
  by (simp add: assms(2) comp_def concat_map_singleton)

lemma unary_over_xhr:
  assumes "unary (unary_env M sl md (xhr_call B M) body) (Some (XhrTransport V cr)) df host request arg u
      = (None, Some c)"
    and "bodies_in observing body"
    and "md_of_text M text = Inr h"
    and "status \<noteq> 0" "headers_code (getStatusFromHeaders M h) status = code OK"
    and "list_all (\<lambda>d. length d < 2 ^ 32) ds" "length t < 2 ^ 32" "concat bs = response_stream ds t"
    and "list_all2 (\<lambda>d r. deserializeBinary md d = Inr r) ds rs" "parseTrailerData M t = Inr m"
    and "status_of M (md_copy M m) = Some (s, msg)"
  shows "outputs (user (fold (xhr_handle B (unary_env M sl md (xhr_call B M) body))
            (HeadersReceived text status # map Progress bs @ [LoadEnd]) c)) =
     [\<lparr>out_status = s, out_statusMessage = msg, out_headers = h,
       out_message = (if rs = [] then None else Some (last rs)), out_trailers = md_copy M m\<rparr>]"
proof -
  let ?E = "unary_env M sl md (xhr_call B M) body"
  from unary_started [OF assms(1)] obtain t0 m0 t1 where
    "XhrTransport V cr (request_url host md) = Inr t0" "xhr_call B M (TStart m0) t0 = (None, t1)"
    and t1: "started_with ?E t1 c" by auto
  from xhr_started_current [OF _ this] have "started c" "xhr_current (transport c)" by simp_all
  from xhr_response_driven [OF _ _ this assms(3), of ?E B status bs]
  have "driven ?E (TransportHeaders h status # map TransportChunk bs @ [TransportEnd]) c
      (fold (xhr_handle B ?E) (HeadersReceived text status # map Progress bs @ [LoadEnd]) c)" by simp
  from unary_delivers [OF assms(1) this assms(2,4-8) _ assms(10,11)] assms(9) show ?thesis
    by (simp add: deserialized_def)
qed

section \<open>Properties\<close>

text \<open>
  C34. The polyfill for browsers without \<^verbatim>\<open>codePointAt\<close> is equivalent to the standard method for
  every string, surrogate pairs and unpaired surrogates included; so the bytes read from a response
  do not depend on the browser.
\<close>

theorem code_point_polyfill:
  "codePointAtPolyfill str i = codePointAt str i \<and>
   stringToArrayBuffer False str = stringToArrayBuffer True str"
  by (simp add: codePointAt_polyfill stringToArrayBuffer_polyfill)

text \<open>
  Reading binary data as text loses nothing: a response of any bytes, decoded by the browser
  with the charset the transport asks for, is turned back into exactly those bytes.
\<close>

theorem text_response_round_trip: "stringToArrayBuffer h (map x_user_defined bs) = bs"
  by (rule stringToArrayBuffer_x_user_defined)

text \<open>
  C33. Both XHR transports hand the client exactly what the browser received: from a started request
  on, in any sequence of events, every progress event is one chunk with the new bytes, whatever
  was delivered before and whatever the callbacks do in between; nothing is delivered twice or
  skipped, and the end of loading and a network error end the request.
\<close>

theorem xhr_drives_client:
  assumes "transportCall E = xhr_call B M" "started c" "xhr_current (transport c)"
  shows "driven E (concat (map (xhr_inputs (metadata E)) evs)) c (fold (xhr_handle B E) evs c)"
  by (rule xhr_driven [OF assms])

definition xhr_demo_browser :: xhr_browser where
  "xhr_demo_browser = \<lparr>xhrOpen = (\<lambda>_. None), setRequestHeader = (\<lambda>_ _. None), hasCodePointAt = False\<rparr>"

definition xhr_demo :: "(assoc, assoc, bytes, bytes, nat, nat, assoc xhr_transport) env" where
  "xhr_demo =
     \<lparr>metadata = assoc_metadata, hasSlice = True,
      methodDefinition =
        \<lparr>methodName = js ''m'', serviceName = js ''s'', requestStream = False, responseStream = True,
         serializeBinary = Inr, deserializeBinary = Inr\<rparr>,
      transportCall = xhr_call xhr_demo_browser assoc_metadata, callback = (\<lambda>cb ev n. (n + 1, []))\<rparr>"

definition xhr_demo_client :: "(assoc, bytes, nat, nat, assoc xhr_transport) client" where
  "xhr_demo_client =
     (new_client (snd (xhr_start xhr_demo_browser assoc_metadata [] (new_XHR XHR [] False))) 0)\<lparr>started := True\<rparr>"

theorem xhr_drives_client_witness:
  "driven xhr_demo [TransportChunk [1, 200], TransportChunk [255], TransportEnd] xhr_demo_client
     (fold (xhr_handle xhr_demo_browser xhr_demo) [Progress [1, 200], Progress [255], LoadEnd] xhr_demo_client)"
proof -
  have "fst (xhr_start xhr_demo_browser assoc_metadata [] (new_XHR XHR [] False)) = None"
    by code_simp
  then have "xhr_current (transport xhr_demo_client)"
    using xhr_start_current [of xhr_demo_browser assoc_metadata "[]" XHR "[]" False]
    by (simp add: xhr_demo_client_def new_client_def prod_eq_iff)
  then show ?thesis
    using xhr_drives_client [of xhr_demo xhr_demo_browser assoc_metadata xhr_demo_client
        "[Progress [1, 200], Progress [255], LoadEnd]"]
    by (simp add: xhr_demo_def xhr_demo_client_def)
qed

end
