(* ===== verification/Client_Chunks.thy ===== *)
theory Client_Chunks
  imports Client_Delivery
begin

text \<open>
  When a transport may hand its client chunk after chunk without an error coming back: the
  messages in the chunks to come can be deserialized, or the client is closed.  This is about
  the bytes of one response, whatever the callbacks do and whatever a deserializer makes of other
  bytes.
\<close>

section \<open>The parser is the transport's\<close>

lemma run_actions_parser [simp]: "chunkParser (snd (run_actions E as c)) = chunkParser c"
proof (induction as arbitrary: c)
  case (Cons a as)
  obtain r c1 where a: "run_action E a c = (r, c1)" by fastforce
  then have "chunkParser c1 = chunkParser c" using run_action_fields(2) [of E a c] by simp
  with a Cons.IH [of c1] show ?case by (cases r) simp_all
qed simp

lemma invoke_callback_parser [simp]: "chunkParser (invoke_callback E ev cb c) = chunkParser c"
  by (rule invoke_callback_cases [of E cb ev c])
    (use run_actions_parser [of E "snd (callback E cb ev (user c))" "entered E ev cb c"]
      in \<open>simp_all add: flag_simps\<close>)

lemma invoke_unless_closed_parser [simp]: "chunkParser (invoke_unless_closed E ev cb c) = chunkParser c"
  by (simp add: invoke_unless_closed_def)

lemma fold_parser:
  "(\<And>cb c. chunkParser (f cb c) = chunkParser c) \<Longrightarrow> chunkParser (fold f cbs c) = chunkParser c"
  by (induction cbs arbitrary: c) simp_all

lemma announcements_parser [simp]:
  "chunkParser (rawOnEnd E cd msg m c) = chunkParser c"
  "chunkParser (rawOnError E cd msg m c) = chunkParser c"
  "chunkParser (rawOnHeaders E m c) = chunkParser c"
  "chunkParser (rawOnMessage E r c) = chunkParser c"
  by (simp_all add: rawOnEnd_def rawOnError_def rawOnHeaders_def rawOnMessage_def fold_parser)

lemma handle_chunks_parser [simp]: "chunkParser (snd (handle_chunks E ds c)) = chunkParser c"
  by (induction E ds c rule: handle_chunks.induct) (simp_all add: Let_def split: sum.split option.split)

lemma onTransportHeaders_parser [simp]: "chunkParser (onTransportHeaders E h status c) = chunkParser c"
  by (simp add: onTransportHeaders_def Let_def)

section \<open>Chunks that are handled\<close>

definition digests ::
  "('m, 'a, 'req, 'res, 'cb, 'u, 't) env \<Rightarrow> bytes list \<Rightarrow> ('m, 'res, 'cb, 'u, 't) client \<Rightarrow> bool"
where
  "digests E bs c \<longleftrightarrow>
     closed c \<or>
     (\<exists>data p rs. feed (metadata E) (hasSlice E) bs (chunkParser c) = (Inr data, p) \<and>
        deserialized E (payloads data) rs)"

lemma digests_transport [simp]: "digests E bs (c\<lparr>transport := t\<rparr>) = digests E bs c"
  by (simp add: digests_def)

lemma handle_chunks_digested:
  "deserialized E (payloads ds) rs \<Longrightarrow> fst (handle_chunks E ds c) = None"
proof (induction E ds c arbitrary: rs rule: handle_chunks.induct)
  case (2 E d ds c)
  then obtain r rs' where "deserializeBinary (methodDefinition E) d = Inr r" "deserialized E (payloads ds) rs'"
    by (auto simp: deserialized_def list_all2_Cons1)
  with 2 show ?case by simp
qed (simp_all add: Let_def)

lemma digests_chunk:
  assumes "digests E (b # bs) c"
  shows "fst (onTransportChunk E b c) = None \<and> digests E bs (snd (onTransportChunk E b c))"
proof (cases "closed c")
  case True
  then show ?thesis by (simp add: onTransportChunk_def digests_def)
next
  case False
  with assms obtain data p rs where
    f: "feed (metadata E) (hasSlice E) (b # bs) (chunkParser c) = (Inr data, p)" "deserialized E (payloads data) rs"
    by (auto simp: digests_def)
  from f(1) obtain cs q ds where
    b: "parse (metadata E) (hasSlice E) b False (chunkParser c) = (Inr cs, q)" and
    bs: "feed (metadata E) (hasSlice E) bs q = (Inr ds, p)" and data: "data = cs @ ds"
    by (auto split: prod.splits sum.splits)
  from f(2) obtain rs1 rs2 where
    rs: "deserialized E (payloads cs) rs1" "deserialized E (payloads ds) rs2"
    by (auto simp: data payloads_append deserialized_def list_all2_append1)
  have c: "onTransportChunk E b c = handle_chunks E cs (c\<lparr>chunkParser := q\<rparr>)"
    using False b by (simp add: onTransportChunk_def)
  show ?thesis
    using handle_chunks_digested [OF rs(1)] bs rs(2) by (auto simp: c digests_def)
qed

lemma onTransportHeaders_closed: "closed c \<Longrightarrow> onTransportHeaders E h status c = c"
  by (simp add: onTransportHeaders_def)

lemma digests_headers: "digests E bs c \<Longrightarrow> digests E bs (onTransportHeaders E h status c)"
  by (cases "closed c") (auto simp: digests_def onTransportHeaders_closed)

lemma digests_run:
  "digests E (bs @ bs') c \<Longrightarrow> digests E bs' (run E (map TransportChunk bs) c)"
proof (induction bs arbitrary: c)
  case (Cons b bs)
  then have "digests E (bs @ bs') (step E (TransportChunk b) c)"
    using digests_chunk [of E b "bs @ bs'" c] by simp
  from Cons.IH [OF this] show ?case by (simp add: run_Cons)
qed (simp add: run_Nil)

lemma response_digested:
  assumes "at_frame (chunkParser c)" "list_all (\<lambda>d. length d < 2 ^ 32) ds" "length t < 2 ^ 32"
    and "concat bs = response_stream ds t" "parseTrailerData (metadata E) t = Inr m" "deserialized E ds rs"
  shows "digests E bs c"
  using feed_response [OF assms(1-5), of "hasSlice E"] assms(6)
  by (fastforce simp: digests_def payloads_append)

end
