(* ===== verification/Fetch.thy ===== *)
theory Fetch
  imports Requests Client_Chunks
begin

text \<open>
  \<^verbatim>\<open>client/grpc-web/src/transports/http/fetch.ts\<close>: the transport over \<^verbatim>\<open>fetch\<close> and the
  response's stream reader, a chain of promises: the response, then one read after another,
  each step continuing in \<^verbatim>\<open>then\<close> or ending in \<^verbatim>\<open>catch\<close>.

  A promise that settles is an event.  \<open>reads\<close> counts the calls of \<^verbatim>\<open>read()\<close> and
  \<open>reading\<close> says that one is pending; only then can it settle.  \<^verbatim>\<open>metadata.toHeaders()\<close> belongs to the metadata package; here a fetch
  records the metadata it was given.
\<close>

section \<open>State\<close>

datatype reader = ActiveReader | CancelledReader

record 'm fetch_transport =
  fetchUrl :: js_string
  fetchCancelled :: bool
  reader :: "reader option"
  fetchMetadata :: "'m option"
  controller :: "bool option" \<comment> \<open>whether it has been aborted; \<open>None\<close> when there is none\<close>
  fetches :: "('m \<times> bytes) list"
  reads :: nat
  reading :: bool

definition new_Fetch :: "bool \<Rightarrow> js_string \<Rightarrow> 'm fetch_transport" where
  "new_Fetch hasAbortController url =
     \<lparr>fetchUrl = url, fetchCancelled = False, reader = None, fetchMetadata = None,
      controller = (if hasAbortController then Some False else None), fetches = [],
      reads = 0, reading = False\<rparr>"

definition fetchRequest :: "bool \<Rightarrow> js_string \<Rightarrow> 'm fetch_transport result" where
  "fetchRequest hasAbortController url = Inr (new_Fetch hasAbortController url)"

section \<open>Calls of the client\<close>

definition fetch_send :: "bytes \<Rightarrow> 'm fetch_transport \<Rightarrow> js_error option \<times> 'm fetch_transport" where
  "fetch_send msgBytes t =
     (case fetchMetadata t of
        None \<Rightarrow> (Some (TypeError (js ''metadata is undefined'')), t)
      | Some md \<Rightarrow> (None, t\<lparr>fetches := fetches t @ [(md, msgBytes)]\<rparr>))"

definition fetch_cancel :: "'m fetch_transport \<Rightarrow> 'm fetch_transport" where
  "fetch_cancel t =
     (if fetchCancelled t then t
      else
        let t = t\<lparr>fetchCancelled := True\<rparr>;
            t = (case controller t of None \<Rightarrow> t | Some _ \<Rightarrow> t\<lparr>controller := Some True\<rparr>)
        in case reader t of None \<Rightarrow> t | Some _ \<Rightarrow> t\<lparr>reader := Some CancelledReader\<rparr>)"

fun fetch_call :: "'m tcall \<Rightarrow> 'm fetch_transport \<Rightarrow> js_error option \<times> 'm fetch_transport" where
  "fetch_call (TStart md) t = (None, t\<lparr>fetchMetadata := Some md\<rparr>)"
| "fetch_call (TSend msgBytes) t = fetch_send msgBytes t"
| "fetch_call TFinish t = (None, t)"
| "fetch_call TCancel t = (None, fetch_cancel t)"

section \<open>The promise chain\<close>

definition pump :: "reader \<Rightarrow> 'm fetch_transport \<Rightarrow> 'm fetch_transport" where
  "pump readerArg t =
     (let t = t\<lparr>reader := Some readerArg\<rparr> in
      if fetchCancelled t then t\<lparr>reader := Some CancelledReader\<rparr>
      else t\<lparr>reads := reads t + 1, reading := True\<rparr>)"

text \<open>The two \<^verbatim>\<open>catch\<close> handlers, which are the same.\<close>

definition fetch_catch ::
  "('m, 'a, 'req, 'res, 'cb, 'u, 'm fetch_transport) env
     \<Rightarrow> ('m, 'res, 'cb, 'u, 'm fetch_transport) client \<Rightarrow> ('m, 'res, 'cb, 'u, 'm fetch_transport) client"
where
  "fetch_catch E c =
     (if fetchCancelled (transport c) then c
      else onTransportEnd E (c\<lparr>transport := (transport c)\<lparr>fetchCancelled := True\<rparr>\<rparr>))"

datatype 'a fetch_event =
    Responded 'a int bool \<comment> \<open>headers, status, whether there is a body\<close>
  | ReadDone
  | ReadChunk bytes
  | ReadFailed
  | FetchFailed

definition pump_on ::
  "reader \<Rightarrow> ('m, 'res, 'cb, 'u, 'm fetch_transport) client
     \<Rightarrow> ('m, 'res, 'cb, 'u, 'm fetch_transport) client"
where
  "pump_on r c = c\<lparr>transport := pump r (transport c)\<rparr>"

definition settled ::
  "('m, 'res, 'cb, 'u, 'm fetch_transport) client \<Rightarrow> ('m, 'res, 'cb, 'u, 'm fetch_transport) client"
where
  "settled c = c\<lparr>transport := (transport c)\<lparr>reading := False\<rparr>\<rparr>"

text \<open>\<^verbatim>\<open>this.pump(this.reader, res)\<close>; the reader was set by the first \<^verbatim>\<open>pump\<close>.\<close>

definition pump_again ::
  "('m, 'res, 'cb, 'u, 'm fetch_transport) client \<Rightarrow> ('m, 'res, 'cb, 'u, 'm fetch_transport) client"
where
  "pump_again c = (case reader (transport c) of None \<Rightarrow> c | Some r \<Rightarrow> pump_on r c)"

fun fetch_handle ::
  "('m, 'a, 'req, 'res, 'cb, 'u, 'm fetch_transport) env \<Rightarrow> 'a fetch_event
     \<Rightarrow> ('m, 'res, 'cb, 'u, 'm fetch_transport) client \<Rightarrow> ('m, 'res, 'cb, 'u, 'm fetch_transport) client"
where
  "fetch_handle E (Responded a status hasBody) c =
     (if fetches (transport c) = [] then c
      else
        case md_of_arg (metadata E) a of
          Inl e \<Rightarrow> fetch_catch E c
        | Inr h \<Rightarrow>
            (let c = onTransportHeaders E h status c
             in if hasBody then pump_on ActiveReader c else c))"
| "fetch_handle E ReadDone c =
     (if reading (transport c) then onTransportEnd E (settled c) else c)"
| "fetch_handle E (ReadChunk v) c =
     (if \<not> reading (transport c) then c
      else
        case onTransportChunk E v (settled c) of
          (Some e, c) \<Rightarrow> fetch_catch E c
        | (None, c) \<Rightarrow> pump_again c)"
| "fetch_handle E ReadFailed c =
     (if reading (transport c) then fetch_catch E (settled c) else c)"
| "fetch_handle E FetchFailed c =
     (if fetches (transport c) = [] then c else fetch_catch E c)"

section \<open>A live fetch\<close>

definition fetch_up :: "'m fetch_transport \<Rightarrow> bool" where
  "fetch_up t \<longleftrightarrow> fetches t \<noteq> [] \<and> \<not> fetchCancelled t"

interpretation fetch_live: transport_live fetch_call fetch_up
proof unfold_locales
  fix t :: "'a fetch_transport" and x :: "'a tcall"
  assume "fetch_up t" "\<not> is_start x" "x \<noteq> TCancel"
  then show "fetch_up (snd (fetch_call x t))"
    by (cases x) (simp_all add: fetch_up_def fetch_send_def split: option.split)
qed

text \<open>While nobody has cancelled, a read is pending between two events.\<close>

definition fetch_reading :: "'m fetch_transport \<Rightarrow> bool" where
  "fetch_reading t \<longleftrightarrow> fetch_up t \<and> reading t \<and> reader t \<noteq> None"

interpretation fetch_busy: transport_live fetch_call fetch_reading
proof unfold_locales
  fix t :: "'a fetch_transport" and x :: "'a tcall"
  assume "fetch_reading t" "\<not> is_start x" "x \<noteq> TCancel"
  then show "fetch_reading (snd (fetch_call x t))"
    by (cases x) (simp_all add: fetch_reading_def fetch_up_def fetch_send_def split: option.split)
qed

text \<open>Between a read's result and the next \<^verbatim>\<open>pump\<close>.\<close>

definition fetch_between :: "'m fetch_transport \<Rightarrow> bool" where
  "fetch_between t \<longleftrightarrow> fetch_up t \<and> reader t \<noteq> None"

interpretation fetch_mid: transport_live fetch_call fetch_between
proof unfold_locales
  fix t :: "'a fetch_transport" and x :: "'a tcall"
  assume "fetch_between t" "\<not> is_start x" "x \<noteq> TCancel"
  then show "fetch_between (snd (fetch_call x t))"
    by (cases x) (simp_all add: fetch_between_def fetch_up_def fetch_send_def split: option.split)
qed

abbreviation fetch_attached where "fetch_attached \<equiv> transport_live.attached fetch_up"
abbreviation fetch_waiting where "fetch_waiting \<equiv> transport_live.attached fetch_reading"
abbreviation fetch_paused where "fetch_paused \<equiv> transport_live.attached fetch_between"

lemma pump_waiting: "fetch_attached c \<Longrightarrow> fetch_waiting (pump_on r c)"
  by (auto simp: fetch_live.attached_def fetch_busy.attached_def pump_on_def pump_def
      fetch_reading_def fetch_up_def)

lemma pump_again_waiting: "fetch_paused c \<Longrightarrow> fetch_waiting (pump_again c)"
  by (auto simp: fetch_mid.attached_def fetch_busy.attached_def pump_again_def pump_on_def pump_def
      fetch_reading_def fetch_between_def fetch_up_def split: option.split)

lemma settled_paused: "fetch_waiting c \<Longrightarrow> fetch_paused (settled c)"
  by (auto simp: fetch_mid.attached_def fetch_busy.attached_def settled_def
      fetch_reading_def fetch_between_def fetch_up_def)

lemma pump_again_change: "\<exists>t. pump_again c = c\<lparr>transport := t\<rparr>"
proof (cases "reader (transport c)")
  case None
  then show ?thesis by (intro exI [of _ "transport c"]) (simp add: pump_again_def)
qed (auto simp: pump_again_def pump_on_def)

section \<open>What the client is driven by\<close>

text \<open>A closed client takes no notice of a chunk or an end.\<close>

lemma closed_driven:
  assumes "closed c"
  shows "driven E [TransportChunk b] c (c\<lparr>transport := t\<rparr>)" "driven E [TransportEnd] c (c\<lparr>transport := t\<rparr>)"
  using driven_step [of E "TransportChunk b" c t] driven_step [of E TransportEnd c t] assms
  by (simp_all add: onTransportChunk_def onTransportEnd_def)

lemma pump_again_digests [simp]: "digests E vs (pump_again c) = digests E vs c"
  using pump_again_change [of c] by auto

lemma fetch_chunk_driven:
  assumes "transportCall E = fetch_call" "digests E (v # vs) c" "fetch_waiting c"
  shows "driven E [TransportChunk v] c (fetch_handle E (ReadChunk v) c) \<and>
    fetch_waiting (fetch_handle E (ReadChunk v) c) \<and> digests E vs (fetch_handle E (ReadChunk v) c)"
proof (cases "reading (transport c)")
  case True
  let ?d = "step E (TransportChunk v) (settled c)"
  have "digests E (v # vs) (settled c)" using assms(2) by (simp add: settled_def)
  note d = digests_chunk [OF this]
  then obtain d where "onTransportChunk E v (settled c) = (None, d)"
    by (cases "onTransportChunk E v (settled c)") simp
  with True have h: "fetch_handle E (ReadChunk v) c = pump_again ?d" by simp
  have "fetch_waiting (pump_again ?d)"
    by (rule pump_again_waiting [OF fetch_mid.step_attached [OF assms(1) settled_paused [OF assms(3)]]])
  moreover have "driven E [TransportChunk v] c ?d"
    unfolding settled_def by (rule driven_step)
  then have "driven E [TransportChunk v] c (pump_again ?d)"
    using pump_again_change [of ?d] driven_then_change by metis
  moreover have "digests E vs (pump_again ?d)" using d by simp
  ultimately show ?thesis by (simp only: h)
next
  case False
  with assms(3) have c: "closed c"
    by (auto simp: fetch_busy.attached_def fetch_reading_def)
  from closed_driven(1) [OF this, of E v "transport c"] False assms(3) c show ?thesis
    by (simp add: digests_def)
qed

lemma fetch_done_driven:
  assumes "fetch_waiting c"
  shows "driven E [TransportEnd] c (fetch_handle E ReadDone c)"
proof (cases "reading (transport c)")
  case True
  then show ?thesis using driven_step [of E TransportEnd c] by (simp add: settled_def)
next
  case False
  with assms have "closed c"
    by (auto simp: fetch_busy.attached_def fetch_reading_def)
  from closed_driven(2) [OF this, of E "transport c"] False show ?thesis by simp
qed

lemma fetch_chunks_driven:
  assumes "transportCall E = fetch_call"
  shows "fetch_waiting c \<Longrightarrow> digests E vs c \<Longrightarrow>
    driven E (map TransportChunk vs @ [TransportEnd]) c
      (fold (fetch_handle E) (map ReadChunk vs @ [ReadDone]) c)"
proof (induction vs arbitrary: c)
  case Nil
  then show ?case using fetch_done_driven [OF Nil(1)] by (simp del: fetch_handle.simps)
next
  case (Cons v vs)
  from fetch_chunk_driven [OF assms Cons.prems(2,1)] Cons.IH
  have "driven E ([TransportChunk v] @ map TransportChunk vs @ [TransportEnd]) c
      (fold (fetch_handle E) (map ReadChunk vs @ [ReadDone]) (fetch_handle E (ReadChunk v) c))"
    by (blast intro: driven_append)
  then show ?case by (simp del: fetch_handle.simps)
qed

lemma fetch_response_driven:
  assumes "transportCall E = fetch_call" "digests E vs c"
    and "fetch_attached c" "fetches (transport c) \<noteq> []" "md_of_arg (metadata E) a = Inr h"
  shows "driven E (TransportHeaders h status # map TransportChunk vs @ [TransportEnd]) c
    (fold (fetch_handle E) (Responded a status True # map ReadChunk vs @ [ReadDone]) c)"
proof -
  let ?d = "onTransportHeaders E h status c"
  have r: "fetch_handle E (Responded a status True) c = pump_on ActiveReader ?d"
    using assms(4,5) by simp
  have "fetch_attached ?d"
    using fetch_live.step_attached [OF assms(1,3), of "TransportHeaders h status"] by simp
  then have w: "fetch_waiting (pump_on ActiveReader ?d)" by (rule pump_waiting)
  have "driven E [TransportHeaders h status] c (pump_on ActiveReader ?d)"
    using driven_then_change [OF driven_step [of E "TransportHeaders h status" c "transport c"]]
    by (simp add: pump_on_def)
  have "digests E vs (pump_on ActiveReader ?d)"
    using digests_headers [OF assms(2)] by (simp add: pump_on_def)
  from driven_append [OF \<open>driven E [TransportHeaders h status] c (pump_on ActiveReader ?d)\<close>
      fetch_chunks_driven [OF assms(1) w this]]
  show ?thesis by (simp add: r del: fetch_handle.simps)
qed

section \<open>Requests over fetch\<close>

lemma unary_fetch:
  assumes E: "E = unary_env M sl md fetch_call body"
    and c: "unary E (Some (fetchRequest h0)) df host request arg u = (e, Some c)"
    and req: "requestHeaders_of M arg = Inr rh" "serializeBinary md request = Inr b"
    and ok: "bodies_in observing body" "md_of_arg M a = Inr h"
    and hdrs: "status \<noteq> 0" "headers_code (getStatusFromHeaders M h) status = code OK"
    and frames: "list_all (\<lambda>d. length d < 2 ^ 32) ds" "length t < 2 ^ 32" "concat vs = response_stream ds t"
    and msgs: "list_all2 (\<lambda>d r. deserializeBinary md d = Inr r) ds rs" "parseTrailerData M t = Inr m"
    and stat: "status_of M (md_copy M m) = Some (s, msg)"
  shows "fetches (transport c) = [(rh, frame_message b)] \<and>
    outputs (user (fold (fetch_handle E) (Responded a status True # map ReadChunk vs @ [ReadDone]) c)) =
     [\<lparr>out_status = s, out_statusMessage = msg, out_headers = h,
       out_message = (if rs = [] then None else Some (last rs)), out_trailers = md_copy M m\<rparr>]"
proof -
  have tc: "transportCall E = fetch_call" by (simp add: E)
  let ?t = "(new_Fetch h0 (request_url host md))\<lparr>fetchMetadata := Some rh, fetches := [(rh, frame_message b)]\<rparr>"
  have "started c \<and> transport c = ?t"
    using unary_transport [OF c, of "new_Fetch h0 (request_url host md)" rh b _ ?t ?t] req
    by (simp add: E fetchRequest_def fetch_send_def new_Fetch_def)
  then have i: "fetch_attached c" "fetches (transport c) = [(rh, frame_message b)]"
    by (simp_all add: fetch_live.attached_def fetch_up_def new_Fetch_def)
  have "at_frame (chunkParser c)" using unary_fresh [OF c] by (simp add: fresh_with_def face_def)
  then have "digests E vs c"
    by (rule response_digested [OF _ frames]) (use msgs in \<open>simp_all add: E deserialized_def\<close>)
  then have "driven E (TransportHeaders h status # map TransportChunk vs @ [TransportEnd]) c
      (fold (fetch_handle E) (Responded a status True # map ReadChunk vs @ [ReadDone]) c)"
    by (rule fetch_response_driven [OF tc]) (use i ok in \<open>simp_all add: E\<close>)
  from unary_delivers [OF c [unfolded E] this [unfolded E] ok(1) hdrs frames _ msgs(2) stat] msgs(1) i(2)
  show ?thesis by (simp add: E deserialized_def del: fetch_handle.simps)
qed

section \<open>Cancelling\<close>

text \<open>After \<^verbatim>\<open>cancel\<close> no read is ever started and no error is reported.\<close>

lemma fetch_cancel_effect:
  "fetchCancelled (fetch_cancel t)"
  "\<not> fetchCancelled t \<Longrightarrow> controller t \<noteq> None \<Longrightarrow> controller (fetch_cancel t) = Some True"
  "\<not> fetchCancelled t \<Longrightarrow> reader t \<noteq> None \<Longrightarrow> reader (fetch_cancel t) = Some CancelledReader"
  by (auto simp: fetch_cancel_def Let_def split: option.split)

lemma pump_cancelled:
  "fetchCancelled t \<Longrightarrow> pump r t = t\<lparr>reader := Some CancelledReader\<rparr>"
  by (simp add: pump_def)

lemma fetch_catch_cancelled: "fetchCancelled (transport c) \<Longrightarrow> fetch_catch E c = c"
  by (simp add: fetch_catch_def)

definition fetch_dead :: "nat \<Rightarrow> bool \<Rightarrow> ('m, 'res, 'cb, 'u, 'm fetch_transport) client \<Rightarrow> bool" where
  "fetch_dead started_reads wait c \<longleftrightarrow>
     closed c \<and> fetchCancelled (transport c) \<and> reads (transport c) = started_reads \<and>
     (reading (transport c) \<longrightarrow> wait)"

lemma fetch_dead_step:
  assumes "fetch_dead n wait c"
  shows "fetch_dead n wait (fetch_handle E ev c) \<and> trace (fetch_handle E ev c) = trace c \<and>
    fetches (transport (fetch_handle E ev c)) = fetches (transport c)"
proof (cases ev)
  case (Responded a status hasBody)
  with assms show ?thesis
    by (auto simp: fetch_dead_def onTransportHeaders_def fetch_catch_def pump_on_def pump_cancelled
        split: sum.split)
next
  case (ReadChunk v)
  with assms show ?thesis
    by (auto simp: fetch_dead_def settled_def onTransportChunk_def pump_again_def pump_on_def
        pump_cancelled split: option.split)
qed (use assms in \<open>auto simp: fetch_dead_def settled_def onTransportEnd_def fetch_catch_def\<close>)

lemma fetch_dead_run:
  "fetch_dead n wait c \<Longrightarrow>
     fetch_dead n wait (fold (fetch_handle E) evs c) \<and> trace (fold (fetch_handle E) evs c) = trace c \<and>
     fetches (transport (fold (fetch_handle E) evs c)) = fetches (transport c)"
proof (induction evs arbitrary: c)
  case (Cons ev evs)
  from fetch_dead_step [OF Cons.prems, of E ev] Cons.IH [of "fetch_handle E ev c"] show ?case
    by (simp del: fetch_handle.simps)
qed simp

lemma close_fetch_dead:
  assumes "transportCall E = fetch_call" "started c" "\<not> closed c"
  shows "fetch_dead (reads (transport c)) (reading (transport c)) (snd (close E c))"
    and "fetches (transport (snd (close E c))) = fetches (transport c)"
  using assms
  by (auto simp: close_def call_transport_def fetch_dead_def fetch_cancel_effect fetch_cancel_def
      Let_def split: option.split)

section \<open>Properties\<close>

text \<open>
  C40. Closing a request over \<^verbatim>\<open>fetch\<close> stops it: whatever promises settle afterwards, in any
  order, also those of a read that is pending, no callback is invoked, no error is reported,
  \<^verbatim>\<open>read()\<close> is not called again, no further fetch is made, and at most the read that was
  pending is.
\<close>

theorem close_stops_fetch:
  assumes "transportCall E = fetch_call" "started c" "\<not> closed c"
    and "d = fold (fetch_handle E) evs (snd (close E c))"
  shows "trace d = trace c @ [Called TCancel] \<and> reads (transport d) = reads (transport c) \<and>
    fetches (transport d) = fetches (transport c) \<and> (reading (transport d) \<longrightarrow> reading (transport c))"
proof -
  have "trace (snd (close E c)) = trace c @ [Called TCancel]"
    using assms by (simp add: close_def flag_simps)
  with fetch_dead_run [OF close_fetch_dead(1) [OF assms(1-3)], of E evs] close_fetch_dead(2) [OF assms(1-3)]
  show ?thesis
    by (simp add: fetch_dead_def assms(4))
qed

definition fetch_demo :: "(assoc, assoc, bytes, bytes, nat, nat, assoc fetch_transport) env" where
  "fetch_demo =
     \<lparr>metadata = assoc_metadata, hasSlice = True,
      methodDefinition =
        \<lparr>methodName = js ''m'', serviceName = js ''s'', requestStream = False, responseStream = True,
         serializeBinary = Inr, deserializeBinary = Inr\<rparr>,
      transportCall = fetch_call, callback = (\<lambda>cb ev n. (n + 1, []))\<rparr>"

theorem close_stops_fetch_witness:
  "let c = (new_client (pump ActiveReader (new_Fetch True [])) 0)\<lparr>started := True\<rparr>;
       d = fold (fetch_handle fetch_demo) [ReadChunk [1], ReadChunk [2], ReadDone] (snd (close fetch_demo c))
   in reading (transport c) \<and> reads (transport c) = 1 \<and> reads (transport d) = 1 \<and> trace d = [Called TCancel]"
  using close_stops_fetch [of fetch_demo "(new_client (pump ActiveReader (new_Fetch True [])) 0)\<lparr>started := True\<rparr>"
      _ "[ReadChunk [1], ReadChunk [2], ReadDone]", OF _ _ _ refl]
  by (simp add: fetch_demo_def new_client_def pump_def new_Fetch_def Let_def del: fetch_handle.simps)

end
