(* ===== verification/Transports.thy ===== *)
theory Transports
  imports Xhr Fetch
begin

text \<open>
  Which transport a request gets: the feature test of \<^verbatim>\<open>transports/http/fetch.ts\<close>, the factory
  of \<^verbatim>\<open>transports/http/http.ts\<close> and the default factory of \<^verbatim>\<open>transports/Transport.ts\<close>.  The
  transport chosen is a value of a sum type whose calls and events are those of the transport.
\<close>

section \<open>Translation\<close>

record browser =
  responseDefined :: bool
  responseHasBody :: bool \<comment> \<open>\<^verbatim>\<open>Response.prototype.hasOwnProperty("body")\<close>\<close>
  headersFunction :: bool
  abortSupport :: bool
  xhrEnvironment :: xhr_environment

definition detectFetchSupport :: "browser \<Rightarrow> bool" where
  "detectFetchSupport V \<longleftrightarrow> responseDefined V \<and> responseHasBody V \<and> headersFunction V"

text \<open>With \<^verbatim>\<open>fetch\<close>, the credentials mode the request is made with.\<close>

datatype 'm cross_transport = ViaFetch js_string "'m fetch_transport" | ViaXhr "'m xhr_transport"

definition FetchReadableStreamTransport :: "browser \<Rightarrow> js_string \<Rightarrow> js_string \<Rightarrow> 'm cross_transport result" where
  "FetchReadableStreamTransport V credentials url =
     js_bind (fetchRequest (abortSupport V) url) (\<lambda>t. Inr (ViaFetch credentials t))"

text \<open>\<^verbatim>\<open>XhrTransport(init)\<close> chooses its class, or throws, before it gets the options.\<close>

definition CrossBrowserHttpTransport :: "browser \<Rightarrow> bool \<Rightarrow> js_string \<Rightarrow> 'm cross_transport result" where
  "CrossBrowserHttpTransport V withCreds url =
     (if detectFetchSupport V
      then FetchReadableStreamTransport V (if withCreds then js ''include'' else js ''same-origin'') url
      else js_bind (XhrTransport (xhrEnvironment V) withCreds url) (\<lambda>t. Inr (ViaXhr t)))"

text \<open>The module's variable: \<open>None\<close> until \<^verbatim>\<open>setDefaultTransportFactory\<close> has stored a factory.\<close>

record 't default_factory =
  defaultTransportFactory :: "(js_string \<Rightarrow> 't result) option"

definition initial_factory :: "'t default_factory" where
  "initial_factory = \<lparr>defaultTransportFactory = None\<rparr>"

definition setDefaultTransportFactory ::
  "(js_string \<Rightarrow> 't result) \<Rightarrow> 't default_factory \<Rightarrow> 't default_factory"
where
  "setDefaultTransportFactory f st = st\<lparr>defaultTransportFactory := Some f\<rparr>"

definition makeDefaultTransport ::
  "browser \<Rightarrow> 'm cross_transport default_factory \<Rightarrow> js_string \<Rightarrow> 'm cross_transport result"
where
  "makeDefaultTransport V st url =
     (case defaultTransportFactory st of
        Some f \<Rightarrow> f url
      | None \<Rightarrow> CrossBrowserHttpTransport V False url)"

section \<open>What is chosen\<close>

theorem default_transport_fetch:
  "detectFetchSupport V \<Longrightarrow>
     makeDefaultTransport V initial_factory url =
       Inr (ViaFetch (js ''same-origin'') (new_Fetch (abortSupport V) url))"
  by (simp add: makeDefaultTransport_def initial_factory_def CrossBrowserHttpTransport_def
      FetchReadableStreamTransport_def fetchRequest_def)

theorem default_transport_throws:
  "(\<exists>e. makeDefaultTransport V initial_factory url = Inl e) \<longleftrightarrow>
     \<not> detectFetchSupport V \<and> \<not> detectMozXHRSupport (xhrEnvironment V) \<and>
     \<not> detectXHROverrideMimeTypeSupport (xhrEnvironment V)"
  by (auto simp: makeDefaultTransport_def initial_factory_def CrossBrowserHttpTransport_def
      FetchReadableStreamTransport_def fetchRequest_def XhrTransport_def)

text \<open>
  A request without a transport of its own uses the factory stored last, if any was stored, and
  throws what that factory throws.
\<close>

theorem default_transport_replaced:
  "createTransport None (makeDefaultTransport V (setDefaultTransportFactory f st)) host md =
     f (request_url host md)"
  by (simp add: createTransport_def makeDefaultTransport_def setDefaultTransportFactory_def)

end
