(* ===== verification/Detach.thy ===== *)
theory Detach
  imports Prelude
begin

text \<open>
  The deferred callbacks of \<^verbatim>\<open>client/grpc-web-react-native-transport/src/index.ts\<close>: calls
  put off with \<^verbatim>\<open>detach\<close> wait in \<^verbatim>\<open>awaitingExecution\<close> until a timer runs them, and a
  callback that throws leaves the rest to a new timer.

  The queue is part of a state of type \<open>'w\<close>, read with \<open>get\<close> and changed with \<open>upd\<close>;
  \<open>exec\<close> runs one callback on that state and may itself detach further ones.  The fields
  \<open>detached\<close> and \<open>ran\<close> are histories, which no operation reads.
\<close>

section \<open>Translation\<close>

record 'j detach_queue =
  awaitingExecution :: "'j list option"
  timers :: nat
  detached :: "'j list"
  ran :: "'j list"

definition new_queue :: "'j detach_queue" where
  "new_queue = \<lparr>awaitingExecution = None, timers = 0, detached = [], ran = []\<rparr>"

definition detach :: "'j \<Rightarrow> 'j detach_queue \<Rightarrow> 'j detach_queue" where
  "detach cb q =
     (case awaitingExecution q of
        Some cbs \<Rightarrow> q\<lparr>awaitingExecution := Some (cbs @ [cb]), detached := detached q @ [cb]\<rparr>
      | None \<Rightarrow>
          q\<lparr>awaitingExecution := Some [cb], timers := timers q + 1, detached := detached q @ [cb]\<rparr>)"

definition unshift :: "'j \<Rightarrow> 'j detach_queue \<Rightarrow> 'j detach_queue" where
  "unshift cb q = q\<lparr>awaitingExecution := map_option ((#) cb) (awaitingExecution q)\<rparr>"

text \<open>The \<^verbatim>\<open>catch\<close> of \<^verbatim>\<open>runCallbacks\<close>: the callbacks after the one that threw go first.\<close>

definition requeue :: "'j list \<Rightarrow> 'j detach_queue \<Rightarrow> 'j detach_queue" where
  "requeue rest q =
     (let q = (if awaitingExecution q = None
               then q\<lparr>awaitingExecution := Some [], timers := timers q + 1\<rparr> else q)
      in fold unshift (rev rest) q)"

fun run_jobs ::
  "(('j detach_queue \<Rightarrow> 'j detach_queue) \<Rightarrow> 'w \<Rightarrow> 'w) \<Rightarrow> ('j \<Rightarrow> 'w \<Rightarrow> js_error option \<times> 'w)
     \<Rightarrow> 'j list \<Rightarrow> 'w \<Rightarrow> js_error option \<times> 'w"
where
  "run_jobs upd exec [] w = (None, w)"
| "run_jobs upd exec (cb # rest) w =
     (case exec cb (upd (\<lambda>q. q\<lparr>ran := ran q @ [cb]\<rparr>) w) of
        (None, w') \<Rightarrow> run_jobs upd exec rest w'
      | (Some e, w') \<Rightarrow> (Some e, upd (requeue rest) w'))"

definition runCallbacks ::
  "('w \<Rightarrow> 'j detach_queue) \<Rightarrow> (('j detach_queue \<Rightarrow> 'j detach_queue) \<Rightarrow> 'w \<Rightarrow> 'w)
     \<Rightarrow> ('j \<Rightarrow> 'w \<Rightarrow> js_error option \<times> 'w) \<Rightarrow> 'w \<Rightarrow> js_error option \<times> 'w"
where
  "runCallbacks get upd exec w =
     (case awaitingExecution (get w) of
        None \<Rightarrow> (None, w)
      | Some thisCallbackSet \<Rightarrow>
          run_jobs upd exec thisCallbackSet (upd (\<lambda>q. q\<lparr>awaitingExecution := None\<rparr>) w))"

text \<open>A timer fires, if one is set; what \<^verbatim>\<open>runCallbacks\<close> throws is an uncaught error.\<close>

definition timer ::
  "('w \<Rightarrow> 'j detach_queue) \<Rightarrow> (('j detach_queue \<Rightarrow> 'j detach_queue) \<Rightarrow> 'w \<Rightarrow> 'w)
     \<Rightarrow> ('j \<Rightarrow> 'w \<Rightarrow> js_error option \<times> 'w) \<Rightarrow> 'w \<Rightarrow> 'w"
where
  "timer get upd exec w =
     (if timers (get w) = 0 then w
      else snd (runCallbacks get upd exec (upd (\<lambda>q. q\<lparr>timers := timers q - 1\<rparr>) w)))"

section \<open>The queue\<close>

definition waiting :: "'j detach_queue \<Rightarrow> 'j list" where
  "waiting q = (case awaitingExecution q of None \<Rightarrow> [] | Some cbs \<Rightarrow> cbs)"

text \<open>One timer is set exactly while the queue exists, which it may do without callbacks.\<close>

definition timed :: "'j detach_queue \<Rightarrow> bool" where
  "timed q \<longleftrightarrow> timers q = (if awaitingExecution q = None then 0 else 1)"

definition fifo :: "'j detach_queue \<Rightarrow> bool" where
  "fifo q \<longleftrightarrow> ran q @ waiting q = detached q \<and> timed q"

lemma new_queue_fifo [simp]: "fifo new_queue"
  by (simp add: fifo_def timed_def waiting_def new_queue_def)

lemma new_queue_detached [simp]: "detached new_queue = []"
  by (simp add: new_queue_def)

lemma detach_fields:
  "waiting (detach cb q) = waiting q @ [cb]"
  "detached (detach cb q) = detached q @ [cb]"
  "ran (detach cb q) = ran q"
  "timed q \<Longrightarrow> timed (detach cb q)"
  by (auto simp: detach_def waiting_def timed_def split: option.split)

lemma fold_detach:
  "waiting (fold detach new q) = waiting q @ new \<and> detached (fold detach new q) = detached q @ new \<and>
   ran (fold detach new q) = ran q \<and> (timed q \<longrightarrow> timed (fold detach new q))"
  by (induction new arbitrary: q) (simp_all add: detach_fields)

lemma fold_detach_fifo: "fifo q \<Longrightarrow> fifo (fold detach new q)"
  using fold_detach [of new q] by (auto simp: fifo_def)

lemma fold_unshift:
  "fold unshift cbs q = q\<lparr>awaitingExecution := map_option (\<lambda>xs. rev cbs @ xs) (awaitingExecution q)\<rparr>"
proof (induction cbs arbitrary: q)
  case Nil
  then show ?case by (cases "awaitingExecution q") simp_all
next
  case (Cons j cbs)
  then show ?case by (cases "awaitingExecution q") (simp_all add: unshift_def)
qed

lemma requeue_fields:
  "waiting (requeue rest q) = rest @ waiting q"
  "detached (requeue rest q) = detached q"
  "ran (requeue rest q) = ran q"
  "timed q \<Longrightarrow> timed (requeue rest q)"
  "awaitingExecution (requeue rest q) \<noteq> None"
  by (auto simp: requeue_def fold_unshift waiting_def timed_def split: option.split)

section \<open>First in, first out\<close>

text \<open>
  What the queue asks of its owner: reading after a change gives the change, and running a
  callback changes the queue at most by detaching.
\<close>

locale queue_owner =
  fixes get :: "'w \<Rightarrow> 'j detach_queue"
    and upd :: "('j detach_queue \<Rightarrow> 'j detach_queue) \<Rightarrow> 'w \<Rightarrow> 'w"
    and exec :: "'j \<Rightarrow> 'w \<Rightarrow> js_error option \<times> 'w"
  assumes get_upd: "get (upd f w) = f (get w)"
    and exec_detaches: "\<exists>new. get (snd (exec cb w)) = fold detach new (get w)"
begin

text \<open>\<open>due cbs q\<close>: the callbacks still to run in this round are \<open>cbs\<close>, before those in \<open>q\<close>.\<close>

definition due :: "'j list \<Rightarrow> 'j detach_queue \<Rightarrow> bool" where
  "due cbs q \<longleftrightarrow> ran q @ cbs @ waiting q = detached q \<and> timed q"

lemma exec_due:
  assumes "due (cb # cbs) (get w)" "exec cb (upd (\<lambda>q. q\<lparr>ran := ran q @ [cb]\<rparr>) w) = (r, w')"
  shows "due cbs (get w')" and "length (ran (get w)) < length (ran (get w'))"
proof -
  let ?w = "upd (\<lambda>q. q\<lparr>ran := ran q @ [cb]\<rparr>) w"
  from exec_detaches [of cb ?w] obtain new where
    n: "get w' = fold detach new (get ?w)" using assms(2) by force
  have "due cbs (get ?w)"
    using assms(1) by (simp add: due_def get_upd waiting_def timed_def)
  then show "due cbs (get w')"
    unfolding n using fold_detach [of new "get ?w"] by (auto simp: due_def)
  show "length (ran (get w)) < length (ran (get w'))"
    unfolding n using fold_detach [of new "get ?w"] by (simp add: get_upd)
qed

lemma run_jobs_fifo:
  "due cbs (get w) \<Longrightarrow>
     fifo (get (snd (run_jobs upd exec cbs w))) \<and>
     length (ran (get w)) \<le> length (ran (get (snd (run_jobs upd exec cbs w)))) \<and>
     (cbs \<noteq> [] \<longrightarrow> length (ran (get w)) < length (ran (get (snd (run_jobs upd exec cbs w)))))"
proof (induction cbs arbitrary: w)
  case Nil
  then show ?case by (simp add: due_def fifo_def)
next
  case (Cons cb cbs)
  obtain r w' where x: "exec cb (upd (\<lambda>q. q\<lparr>ran := ran q @ [cb]\<rparr>) w) = (r, w')" by fastforce
  note d = exec_due [OF Cons.prems this]
  show ?case
  proof (cases r)
    case None
    with x Cons.IH [OF d(1)] d(2) show ?thesis by simp
  next
    case (Some e)
    with x d show ?thesis by (simp add: get_upd fifo_def due_def requeue_fields)
  qed
qed

lemma timer_fifo:
  assumes "fifo (get w)"
  shows "fifo (get (timer get upd exec w)) \<and>
    length (ran (get w)) \<le> length (ran (get (timer get upd exec w))) \<and>
    (waiting (get w) \<noteq> [] \<longrightarrow> length (ran (get w)) < length (ran (get (timer get upd exec w))))"
proof (cases "awaitingExecution (get w)")
  case None
  with assms show ?thesis by (simp add: timer_def fifo_def timed_def waiting_def)
next
  case (Some cbs)
  let ?w = "upd (\<lambda>q. q\<lparr>awaitingExecution := None\<rparr>) (upd (\<lambda>q. q\<lparr>timers := timers q - 1\<rparr>) w)"
  have "due cbs (get ?w)"
    using assms Some by (simp add: due_def get_upd fifo_def waiting_def timed_def)
  note r = run_jobs_fifo [OF this]
  have "timer get upd exec w = snd (run_jobs upd exec cbs ?w)"
    using assms Some by (simp add: timer_def runCallbacks_def get_upd fifo_def timed_def)
  with r Some show ?thesis by (simp add: get_upd waiting_def)
qed

text \<open>
  What holds of the owner through a timer: anything that the bookkeeping of the queue leaves
  alone and each callback keeps, which runs only when it has been detached.
\<close>

lemma run_jobs_keeps:
  assumes bookkeeping: "\<And>f w. I w \<Longrightarrow> (\<And>q. detached (f q) = detached q \<and> ran (f q) = ran q) \<Longrightarrow> I (upd f w)"
    and runs: "\<And>cb w. cb \<in> set (detached (get w)) \<Longrightarrow> I w \<Longrightarrow>
      I (snd (exec cb (upd (\<lambda>q. q\<lparr>ran := ran q @ [cb]\<rparr>) w)))"
  shows "due cbs (get w) \<Longrightarrow> I w \<Longrightarrow> I (snd (run_jobs upd exec cbs w))"
proof (induction cbs arbitrary: w)
  case (Cons cb cbs)
  obtain r w' where x: "exec cb (upd (\<lambda>q. q\<lparr>ran := ran q @ [cb]\<rparr>) w) = (r, w')" by fastforce
  have "cb \<in> set (detached (get w))"
    using Cons.prems(1) by (metis due_def append_Cons in_set_conv_decomp)
  with runs [of cb w] Cons.prems(2) x have "I w'" by simp
  with x Cons.IH [OF exec_due(1) [OF Cons.prems(1) x]] show ?case
    by (cases r) (simp_all add: bookkeeping requeue_fields)
qed simp

lemma timer_keeps:
  assumes bookkeeping: "\<And>f w. I w \<Longrightarrow> (\<And>q. detached (f q) = detached q \<and> ran (f q) = ran q) \<Longrightarrow> I (upd f w)"
    and runs: "\<And>cb w. cb \<in> set (detached (get w)) \<Longrightarrow> I w \<Longrightarrow>
      I (snd (exec cb (upd (\<lambda>q. q\<lparr>ran := ran q @ [cb]\<rparr>) w)))"
    and w: "fifo (get w)" "I w"
  shows "I (timer get upd exec w)"
proof (cases "awaitingExecution (get w)")
  case None
  with w show ?thesis by (simp add: timer_def fifo_def timed_def)
next
  case (Some cbs)
  let ?w = "upd (\<lambda>q. q\<lparr>awaitingExecution := None\<rparr>) (upd (\<lambda>q. q\<lparr>timers := timers q - 1\<rparr>) w)"
  have "due cbs (get ?w)"
    using w(1) Some by (simp add: due_def get_upd fifo_def waiting_def timed_def)
  moreover have "I ?w" using w(2) by (simp add: bookkeeping)
  ultimately have "I (snd (run_jobs upd exec cbs ?w))"
    using run_jobs_keeps [of I cbs ?w] bookkeeping runs by blast
  then show ?thesis
    using w(1) Some by (simp add: timer_def runCallbacks_def get_upd fifo_def timed_def)
qed

text \<open>When callbacks detach nothing, as many timers as callbacks are waiting are enough.\<close>

lemma run_jobs_detached:
  assumes quiet: "\<And>cb w. get (snd (exec cb w)) = get w"
  shows "detached (get (snd (run_jobs upd exec cbs w))) = detached (get w)"
proof (induction cbs arbitrary: w)
  case (Cons cb cbs)
  obtain r w' where x: "exec cb (upd (\<lambda>q. q\<lparr>ran := ran q @ [cb]\<rparr>) w) = (r, w')" by fastforce
  then have "get w' = (get w)\<lparr>ran := ran (get w) @ [cb]\<rparr>"
    using quiet [of cb "upd (\<lambda>q. q\<lparr>ran := ran q @ [cb]\<rparr>) w"] by (simp add: get_upd)
  with x Cons [of w'] show ?case by (cases r) (simp_all add: get_upd requeue_fields)
qed simp

lemma timer_detached:
  assumes "\<And>cb w. get (snd (exec cb w)) = get w"
  shows "detached (get (timer get upd exec w)) = detached (get w)"
  using run_jobs_detached [OF assms]
  by (simp add: timer_def runCallbacks_def get_upd split: option.split)

lemma timers_drain:
  assumes quiet: "\<And>cb w. get (snd (exec cb w)) = get w"
  shows "fifo (get w) \<Longrightarrow> length (waiting (get w)) \<le> n \<Longrightarrow>
     waiting (get ((timer get upd exec ^^ n) w)) = [] \<and>
     ran (get ((timer get upd exec ^^ n) w)) = detached (get w)"
proof (induction n arbitrary: w)
  case 0
  then show ?case by (simp add: fifo_def)
next
  case (Suc n)
  let ?w = "timer get upd exec w"
  have d: "detached (get ?w) = detached (get w)" by (rule timer_detached [OF quiet])
  note f = timer_fifo [OF Suc.prems(1)]
  have "length (ran (get ?w)) + length (waiting (get ?w)) = length (ran (get w)) + length (waiting (get w))"
    using f Suc.prems(1) d by (metis fifo_def length_append)
  with f Suc.prems(2) have "length (waiting (get ?w)) \<le> n"
    by (cases "waiting (get w) = []") auto
  from Suc.IH [OF _ this] f d show ?case by (simp add: funpow_swap1)
qed

end

end
