(* ===== verification/ReactNative.thy ===== *)
theory ReactNative
  imports Xhr Detach
begin

text \<open>
  \<^verbatim>\<open>client/grpc-web-react-native-transport/src/index.ts\<close>: the transports over React
  Native's \<^verbatim>\<open>XMLHttpRequest\<close>.  Every call on the client is put off with \<^verbatim>\<open>detach\<close>, whose
  queue is one variable of the module, shared by all requests of the application.  So the
  model is an application: the queue and any number of calls, each with its own client.

  The two classes are \<open>RN_XHR\<close> (the source's \<^verbatim>\<open>XHR\<close>) and \<^verbatim>\<open>ArrayBufferXHR\<close>, the one that
  \<^verbatim>\<open>ReactNativeTransport\<close> creates.  React Native's object is modelled by the members used: among
  them, aborting a request that is under way fires \<^verbatim>\<open>loadend\<close> before \<^verbatim>\<open>abort()\<close> returns, and
  leaves no response, no headers and status 0.
\<close>

section \<open>Strings as bytes\<close>

text \<open>The module has its own copies of the two functions of \<^verbatim>\<open>xhr.ts\<close>.\<close>

definition rn_codePointAtPolyfill :: "js_string \<Rightarrow> nat \<Rightarrow> nat option" where
  "rn_codePointAtPolyfill str i =
     (let code = charCodeAt str i in
      if in_range code 0xd800 0xdbff then
        (let surr = charCodeAt str (i + 1) in
         if in_range surr 0xdc00 0xdfff
         then Some (0x10000 + push_bit 10 (the code - 0xd800) + (the surr - 0xdc00))
         else code)
      else code)"

definition rn_stringToArrayBuffer :: "bool \<Rightarrow> js_string \<Rightarrow> bytes" where
  "rn_stringToArrayBuffer h str =
     map (\<lambda>i. case (if h then codePointAt str i else rn_codePointAtPolyfill str i) of
                 None \<Rightarrow> 0
               | Some codePoint \<Rightarrow> of_nat (codePoint AND 0xFF))
       [0..<length str]"

section \<open>State\<close>

datatype rn_class = RN_XHR | ArrayBufferXHR

text \<open>What the closures given to \<^verbatim>\<open>detach\<close> do when they run.\<close>

datatype rn_job = DeliverHeaders | DeliverChunk bytes | DeliverEnd

text \<open>
  \<open>rnHeaders\<close> is what \<^verbatim>\<open>getAllResponseHeaders()\<close> and \<^verbatim>\<open>status\<close> give, \<open>rnOpened\<close> whether
  \<^verbatim>\<open>open\<close> has succeeded and \<open>rnBusy\<close> whether a request is under way.  \<open>rnQueue\<close> is the module's
  variable \<^verbatim>\<open>awaitingExecution\<close> as the transport sees it; \<open>rnId\<close> says whose closure a
  detached callback is.
\<close>

record 'm rn_transport =
  rnId :: nat
  rnClass :: rn_class
  rnUrl :: js_string
  rnCredentials :: bool
  rnXhr :: "xml_http_request option"
  rnMetadata :: "'m option"
  rnIndex :: "nat option"
  rnHeaders :: "js_string \<times> int"
  rnOpened :: bool
  rnBusy :: bool
  rnQueue :: "(nat \<times> rn_job) detach_queue"

definition new_rn :: "nat \<Rightarrow> rn_class \<Rightarrow> bool \<Rightarrow> js_string \<Rightarrow> 'm rn_transport" where
  "new_rn i cls credentials url =
     \<lparr>rnId = i, rnClass = cls, rnUrl = url, rnCredentials = credentials, rnXhr = None,
      rnMetadata = None, rnIndex = None, rnHeaders = ([], 0), rnOpened = False, rnBusy = False,
      rnQueue = new_queue\<rparr>"

definition ReactNativeTransport :: "nat \<Rightarrow> bool \<Rightarrow> js_string \<Rightarrow> 'm rn_transport result" where
  "ReactNativeTransport i credentials url = Inr (new_rn i ArrayBufferXHR credentials url)"

section \<open>Event listeners\<close>

definition rn_detach :: "rn_job \<Rightarrow> 'm rn_transport \<Rightarrow> 'm rn_transport" where
  "rn_detach job t = t\<lparr>rnQueue := detach (rnId t, job) (rnQueue t)\<rparr>"

definition arraybuffer_type :: js_string where
  "arraybuffer_type = js ''arraybuffer''"

text \<open>What the browser adds to the response: text in \<open>response\<close>, binary data in \<open>newBytes\<close>.\<close>

definition rn_received :: "bytes \<Rightarrow> xml_http_request \<Rightarrow> xml_http_request" where
  "rn_received bs r =
     (if responseType r = arraybuffer_type then r\<lparr>newBytes := newBytes r @ bs\<rparr>
      else r\<lparr>response := response r @ map x_user_defined bs\<rparr>)"

definition rn_onProgressEvent ::
  "xhr_browser \<Rightarrow> xml_http_request \<Rightarrow> 'm rn_transport \<Rightarrow> 'm rn_transport"
where
  "rn_onProgressEvent B r t =
     (case rnClass t of
        RN_XHR \<Rightarrow>
          (let rawText = drop (case rnIndex t of None \<Rightarrow> 0 | Some i \<Rightarrow> i) (response r);
               t = t\<lparr>rnIndex := Some (length (response r))\<rparr>
           in rn_detach (DeliverChunk (rn_stringToArrayBuffer (hasCodePointAt B) rawText)) t)
      | ArrayBufferXHR \<Rightarrow> t)"

definition rn_onLoadEvent :: "xml_http_request \<Rightarrow> 'm rn_transport \<Rightarrow> 'm rn_transport" where
  "rn_onLoadEvent r t =
     (case rnClass t of
        RN_XHR \<Rightarrow> rn_detach DeliverEnd t
      | ArrayBufferXHR \<Rightarrow> rn_detach DeliverEnd (rn_detach (DeliverChunk (newBytes r)) t))"

text \<open>
  The events the listeners are attached to.  A network error, like an abort, takes the
  response away; the browser then fires \<^verbatim>\<open>error\<close> and \<^verbatim>\<open>loadend\<close>.
\<close>

datatype rn_event = RnHeaders js_string int | RnProgress bytes | RnLoadEnd | RnError

definition no_response :: "'m rn_transport \<Rightarrow> 'm rn_transport" where
  "no_response t =
     t\<lparr>rnHeaders := ([], 0), rnBusy := False,
       rnXhr := map_option (\<lambda>r. r\<lparr>response := [], newBytes := []\<rparr>) (rnXhr t)\<rparr>"

definition rn_handle :: "xhr_browser \<Rightarrow> rn_event \<Rightarrow> 'm rn_transport \<Rightarrow> 'm rn_transport" where
  "rn_handle B ev t =
     (case rnXhr t of
        None \<Rightarrow> t
      | Some r \<Rightarrow>
          if \<not> listening r then t
          else
            case ev of
              RnHeaders text status \<Rightarrow> rn_detach DeliverHeaders (t\<lparr>rnHeaders := (text, status)\<rparr>)
            | RnProgress bs \<Rightarrow>
                (let r = rn_received bs r in rn_onProgressEvent B r (t\<lparr>rnXhr := Some r\<rparr>))
            | RnLoadEnd \<Rightarrow> rn_onLoadEvent r (t\<lparr>rnBusy := False\<rparr>)
            | RnError \<Rightarrow> rn_detach DeliverEnd (no_response t))"

section \<open>Calls of the client\<close>

fun rn_configureXhr :: "rn_class \<Rightarrow> xml_http_request \<Rightarrow> xml_http_request" where
  "rn_configureXhr RN_XHR r =
     r\<lparr>responseType := text_type, mimeType := Some (js ''text/plain; charset=x-user-defined'')\<rparr>"
| "rn_configureXhr ArrayBufferXHR r = r\<lparr>responseType := arraybuffer_type\<rparr>"

definition rn_start ::
  "xhr_browser \<Rightarrow> ('m, 'a) metadata_ops \<Rightarrow> 'm \<Rightarrow> 'm rn_transport
     \<Rightarrow> js_error option \<times> 'm rn_transport"
where
  "rn_start B M md t =
     (let t = t\<lparr>rnMetadata := Some md, rnXhr := Some new_xml_http_request\<rparr> in
      case xhrOpen B (rnUrl t) of
        Some e \<Rightarrow> (Some e, t)
      | None \<Rightarrow>
          (let t = t\<lparr>rnOpened := True\<rparr>;
               r = rn_configureXhr (rnClass t) new_xml_http_request in
           case set_headers B (md_entries M md) r of
             (Some e, r) \<Rightarrow> (Some e, t\<lparr>rnXhr := Some r\<rparr>)
           | (None, r) \<Rightarrow>
               (None, t\<lparr>rnXhr := Some (r\<lparr>withCredentials := rnCredentials t, listening := True\<rparr>)\<rparr>)))"

text \<open>\<^verbatim>\<open>xhr.send\<close> throws before \<^verbatim>\<open>open\<close> and when it has been called before.\<close>

definition rn_sendMessage :: "bytes \<Rightarrow> 'm rn_transport \<Rightarrow> js_error option \<times> 'm rn_transport" where
  "rn_sendMessage msgBytes t =
     (case rnXhr t of
        None \<Rightarrow> (Some (TypeError (js ''xhr is undefined'')), t)
      | Some r \<Rightarrow>
          if \<not> rnOpened t \<or> sent r \<noteq> None then (Some (Error (js ''InvalidStateError'')), t)
          else (None, t\<lparr>rnXhr := Some (r\<lparr>sent := Some msgBytes\<rparr>), rnBusy := True\<rparr>))"

definition rn_finishSend :: "'m rn_transport \<Rightarrow> js_error option \<times> 'm rn_transport" where
  "rn_finishSend t = (None, t)"

definition rn_cancel :: "xhr_browser \<Rightarrow> 'm rn_transport \<Rightarrow> js_error option \<times> 'm rn_transport" where
  "rn_cancel B t =
     (case rnXhr t of
        None \<Rightarrow> (Some (TypeError (js ''xhr is undefined'')), t)
      | Some r \<Rightarrow>
          (let t' = t\<lparr>rnXhr := Some (r\<lparr>aborted := True\<rparr>)\<rparr> in
           (None, if rnBusy t then rn_handle B RnLoadEnd (no_response t') else t')))"

fun rn_call ::
  "xhr_browser \<Rightarrow> ('m, 'a) metadata_ops \<Rightarrow> 'm tcall \<Rightarrow> 'm rn_transport
     \<Rightarrow> js_error option \<times> 'm rn_transport"
where
  "rn_call B M (TStart md) t = rn_start B M md t"
| "rn_call B M (TSend msgBytes) t = rn_sendMessage msgBytes t"
| "rn_call B M TFinish t = rn_finishSend t"
| "rn_call B M TCancel t = rn_cancel B t"

section \<open>The application\<close>

text \<open>A detached callback runs.\<close>

fun rn_exec ::
  "('m, 'a, 'req, 'res, 'cb, 'u, 'm rn_transport) env \<Rightarrow> rn_job
     \<Rightarrow> ('m, 'res, 'cb, 'u, 'm rn_transport) client
     \<Rightarrow> js_error option \<times> ('m, 'res, 'cb, 'u, 'm rn_transport) client"
where
  "rn_exec E DeliverHeaders c =
     (case md_of_text (metadata E) (fst (rnHeaders (transport c))) of
        Inl e \<Rightarrow> (Some e, c)
      | Inr headers \<Rightarrow> (None, onTransportHeaders E headers (snd (rnHeaders (transport c))) c))"
| "rn_exec E (DeliverChunk b) c = onTransportChunk E b c"
| "rn_exec E DeliverEnd c = (None, onTransportEnd E c)"

record ('m, 'res, 'cb, 'u) rn_app =
  appQueue :: "(nat \<times> rn_job) detach_queue"
  calls :: "nat \<Rightarrow> ('m, 'res, 'cb, 'u, 'm rn_transport) client"

text \<open>Every call goes over a transport of this module.\<close>

definition over_rn ::
  "xhr_browser \<Rightarrow> ('m, 'a, 'req, 'res, 'cb, 'u, 'm rn_transport) env
     \<Rightarrow> ('m, 'a, 'req, 'res, 'cb, 'u, 'm rn_transport) env"
where
  "over_rn B E = E\<lparr>transportCall := rn_call B (metadata E)\<rparr>"

text \<open>Code of call \<open>i\<close> runs on its own client and on the queue of the module.\<close>

definition see_queue ::
  "(nat \<times> rn_job) detach_queue \<Rightarrow> ('m, 'res, 'cb, 'u, 'm rn_transport) client
     \<Rightarrow> ('m, 'res, 'cb, 'u, 'm rn_transport) client"
where
  "see_queue q c = c\<lparr>transport := (transport c)\<lparr>rnQueue := q\<rparr>\<rparr>"

definition in_call ::
  "nat \<Rightarrow> (('m, 'res, 'cb, 'u, 'm rn_transport) client
       \<Rightarrow> 'e \<times> ('m, 'res, 'cb, 'u, 'm rn_transport) client)
     \<Rightarrow> ('m, 'res, 'cb, 'u) rn_app \<Rightarrow> 'e \<times> ('m, 'res, 'cb, 'u) rn_app"
where
  "in_call i f w =
     (case f (see_queue (appQueue w) (calls w i)) of
        (e, c) \<Rightarrow> (e, w\<lparr>appQueue := rnQueue (transport c), calls := (calls w)(i := c)\<rparr>))"

definition upd_queue ::
  "((nat \<times> rn_job) detach_queue \<Rightarrow> (nat \<times> rn_job) detach_queue)
     \<Rightarrow> ('m, 'res, 'cb, 'u) rn_app \<Rightarrow> ('m, 'res, 'cb, 'u) rn_app"
where
  "upd_queue f w = w\<lparr>appQueue := f (appQueue w)\<rparr>"

definition app_exec ::
  "xhr_browser \<Rightarrow> (nat \<Rightarrow> ('m, 'a, 'req, 'res, 'cb, 'u, 'm rn_transport) env) \<Rightarrow> nat \<times> rn_job
     \<Rightarrow> ('m, 'res, 'cb, 'u) rn_app \<Rightarrow> js_error option \<times> ('m, 'res, 'cb, 'u) rn_app"
where
  "app_exec B Es job = in_call (fst job) (rn_exec (over_rn B (Es (fst job))) (snd job))"

text \<open>What happens, in any order: a call of the user, an event of a request, a timer.\<close>

datatype ('a, 'req, 'cb) app_event =
    AppApi nat "('a, 'req, 'cb) action"
  | AppXhr nat rn_event
  | AppTimer

fun app_step ::
  "xhr_browser \<Rightarrow> (nat \<Rightarrow> ('m, 'a, 'req, 'res, 'cb, 'u, 'm rn_transport) env)
     \<Rightarrow> ('a, 'req, 'cb) app_event \<Rightarrow> ('m, 'res, 'cb, 'u) rn_app \<Rightarrow> ('m, 'res, 'cb, 'u) rn_app"
where
  "app_step B Es (AppApi i a) w = snd (in_call i (run_action (over_rn B (Es i)) a) w)"
| "app_step B Es (AppXhr i ev) w =
     snd (in_call i (\<lambda>c. ((), c\<lparr>transport := rn_handle B ev (transport c)\<rparr>)) w)"
| "app_step B Es AppTimer w = timer appQueue upd_queue (app_exec B Es) w"

section \<open>The queue of the application\<close>

text \<open>Nothing a transport does to the queue is more than detaching callbacks of its own.\<close>

definition only_detaches :: "'m rn_transport \<Rightarrow> 'm rn_transport \<Rightarrow> bool" where
  "only_detaches t t' \<longleftrightarrow>
     rnId t' = rnId t \<and> (\<exists>new. rnQueue t' = fold detach (map (Pair (rnId t)) new) (rnQueue t))"

lemma only_detaches_refl [simp]: "rnId t' = rnId t \<Longrightarrow> rnQueue t' = rnQueue t \<Longrightarrow> only_detaches t t'"
  by (auto simp: only_detaches_def intro: exI [of _ "[]"])

lemma only_detaches_trans:
  assumes "only_detaches s t" "only_detaches t u"
  shows "only_detaches s u"
proof -
  from assms obtain xs ys where
    "rnId t = rnId s" "rnQueue t = fold detach (map (Pair (rnId s)) xs) (rnQueue s)"
    and u: "rnId u = rnId t" "rnQueue u = fold detach (map (Pair (rnId t)) ys) (rnQueue t)"
    by (auto simp: only_detaches_def)
  then have "rnId u = rnId s" "rnQueue u = fold detach (map (Pair (rnId s)) (xs @ ys)) (rnQueue s)"
    by simp_all
  then show ?thesis unfolding only_detaches_def by blast
qed

lemma rn_detach_only: "rnId t' = rnId t \<Longrightarrow> rnQueue t' = rnQueue t \<Longrightarrow> only_detaches t (rn_detach job t')"
  by (auto simp: only_detaches_def rn_detach_def intro!: exI [of _ "[job]"])

lemma rn_handle_only: "only_detaches t (rn_handle B ev t)"
proof (cases "rnXhr t")
  case (Some r)
  have "only_detaches t (rn_onLoadEvent r' t')" if "rnId t' = rnId t" "rnQueue t' = rnQueue t" for r' t'
    using that
    by (auto simp: rn_onLoadEvent_def intro: rn_detach_only only_detaches_trans split: rn_class.split)
  with Some show ?thesis
    by (auto simp: rn_handle_def rn_onProgressEvent_def no_response_def Let_def
        intro: rn_detach_only split: rn_event.split rn_class.split)
qed (simp add: rn_handle_def)

interpretation rn_change: transport_change "rn_call B M" only_detaches for B M
proof unfold_locales
  fix t :: "'a rn_transport" and x :: "'a tcall"
  show "only_detaches t (snd (rn_call B M x t))"
  proof (cases x)
    case (TStart md)
    then show ?thesis
      by (auto simp: rn_start_def Let_def split: option.split prod.split)
  next
    case TCancel
    have "only_detaches t (rn_handle B RnLoadEnd t')" if "rnId t' = rnId t" "rnQueue t' = rnQueue t" for t'
      using rn_handle_only [of t'] that by (simp add: only_detaches_def)
    with TCancel show ?thesis
      by (auto simp: rn_cancel_def no_response_def Let_def split: option.split)
  qed (auto simp: rn_sendMessage_def rn_finishSend_def split: option.split)
qed (auto intro: only_detaches_trans)

lemma over_rn_fields [simp]:
  "transportCall (over_rn B E) = rn_call B (metadata E)" "metadata (over_rn B E) = metadata E"
  "methodDefinition (over_rn B E) = methodDefinition E" "callback (over_rn B E) = callback E"
  by (simp_all add: over_rn_def)

text \<open>What the client is told when a detached callback runs.\<close>

fun job_input ::
  "('m, 'a) metadata_ops \<Rightarrow> js_string \<times> int \<Rightarrow> rn_job \<Rightarrow> ('m, 'a, 'req, 'cb) input list"
where
  "job_input M hs DeliverHeaders =
     (case md_of_text M (fst hs) of Inl e \<Rightarrow> [] | Inr h \<Rightarrow> [TransportHeaders h (snd hs)])"
| "job_input M hs (DeliverChunk b) = [TransportChunk b]"
| "job_input M hs DeliverEnd = [TransportEnd]"

lemma rn_exec_run:
  "snd (rn_exec E job c) = run E (job_input (metadata E) (rnHeaders (transport c)) job) c"
  by (cases job) (simp_all add: run_def split: sum.split)

lemma in_call_snd:
  "snd (in_call i f w) =
     (let c = snd (f (see_queue (appQueue w) (calls w i)))
      in w\<lparr>appQueue := rnQueue (transport c), calls := (calls w)(i := c)\<rparr>)"
  by (simp add: in_call_def Let_def split: prod.split)

text \<open>Code of a call that respects \<open>only_detaches\<close>.\<close>

definition rn_code ::
  "(('m, 'res, 'cb, 'u, 'm rn_transport) client \<Rightarrow> 'e \<times> ('m, 'res, 'cb, 'u, 'm rn_transport) client) \<Rightarrow> bool"
where
  "rn_code f \<longleftrightarrow> (\<forall>c. only_detaches (transport c) (transport (snd (f c))))"

lemma rn_code_exec: "rn_code (rn_exec (over_rn B E) job)"
  by (simp add: rn_code_def rn_exec_run rn_change.run_changes)

lemma rn_code_api: "rn_code (run_action (over_rn B E) a)"
  using rn_change.run_changes [of "over_rn B E" B "metadata E" _ "[Api a]"]
  by (simp add: rn_code_def run_def)

lemma rn_code_event: "rn_code (\<lambda>c. (e, c\<lparr>transport := rn_handle B ev (transport c)\<rparr>))"
  by (simp add: rn_code_def rn_handle_only)

lemma in_call_queue:
  assumes "rn_code f"
  obtains new where "appQueue (snd (in_call i f w)) =
      fold detach (map (Pair (rnId (transport (calls w i)))) new) (appQueue w)"
    "rnId (transport (calls (snd (in_call i f w)) i)) = rnId (transport (calls w i))"
proof -
  let ?c = "see_queue (appQueue w) (calls w i)"
  have "only_detaches (transport ?c) (transport (snd (f ?c)))"
    using assms by (simp add: rn_code_def)
  with that show thesis
    by (auto simp: only_detaches_def in_call_snd see_queue_def Let_def)
qed

interpretation rn_owner: queue_owner appQueue upd_queue "app_exec B Es" for B Es
proof unfold_locales
  fix cb w
  show "\<exists>new. appQueue (snd (app_exec B Es cb w)) = fold detach new (appQueue w)"
    unfolding app_exec_def by (rule in_call_queue [OF rn_code_exec]) blast
qed (simp add: upd_queue_def)

lemma in_call_fifo: "rn_code f \<Longrightarrow> fifo (appQueue w) \<Longrightarrow> fifo (appQueue (snd (in_call i f w)))"
  by (rule in_call_queue [of f i w]) (simp_all add: fold_detach_fifo)

interpretation rn_fifo: step_invariant "app_step B Es" "\<lambda>_. True" "\<lambda>w. fifo (appQueue w)"
  for B and Es :: "nat \<Rightarrow> ('m, 'a, 'req, 'res, 'cb, 'u, 'm rn_transport) env"
proof unfold_locales
  fix ev and w :: "('m, 'res, 'cb, 'u) rn_app" assume w: "fifo (appQueue w)"
  then show "fifo (appQueue (app_step B Es ev w))"
    by (cases ev) (simp_all add: in_call_fifo rn_code_api rn_code_event rn_owner.timer_fifo)
qed

section \<open>One call among others\<close>

text \<open>
  The call \<open>i\<close> of an application whose other calls do as they please: \<open>own i\<close> picks its
  callbacks from the queue's histories.
\<close>

definition own :: "nat \<Rightarrow> (nat \<times> 'x) list \<Rightarrow> 'x list" where
  "own i xs = map snd (filter (\<lambda>x. fst x = i) xs)"

lemma own_append [simp]: "own i (xs @ ys) = own i xs @ own i ys"
  by (simp add: own_def)

lemma own_Nil [simp]: "own i [] = []"
  by (simp add: own_def)

lemma own_Cons [simp]: "own i (x # xs) = (if fst x = i then snd x # own i xs else own i xs)"
  by (simp add: own_def)

lemma own_pairs [simp]: "own i (map (Pair k) xs) = (if k = i then xs else [])"
  by (induction xs) auto

lemma own_set: "job \<in> set (own i xs) \<longleftrightarrow> (i, job) \<in> set xs"
  by (auto simp: own_def image_iff)

definition app_ids :: "('m, 'res, 'cb, 'u) rn_app \<Rightarrow> bool" where
  "app_ids w \<longleftrightarrow> (\<forall>i. rnId (transport (calls w i)) = i)"

text \<open>A started request of the class that \<^verbatim>\<open>ReactNativeTransport\<close> creates, with the bytes so far.\<close>

definition buffering :: "bytes \<Rightarrow> 'm rn_transport \<Rightarrow> bool" where
  "buffering nb t \<longleftrightarrow>
     rnClass t = ArrayBufferXHR \<and>
     (\<exists>r. rnXhr t = Some r \<and> listening r \<and> responseType r = arraybuffer_type \<and> newBytes r = nb)"

definition rn_state :: "bytes \<Rightarrow> js_string \<times> int \<Rightarrow> (nat \<times> rn_job) detach_queue \<Rightarrow> 'm rn_transport \<Rightarrow> bool" where
  "rn_state nb hs q t \<longleftrightarrow> buffering nb t \<and> rnHeaders t = hs \<and> rnQueue t = q"

lemma buffering_call:
  "buffering nb t \<Longrightarrow> \<not> is_start x \<Longrightarrow> x \<noteq> TCancel \<Longrightarrow> buffering nb (snd (rn_call B M x t))"
  by (cases x) (auto simp: buffering_def rn_sendMessage_def rn_finishSend_def split: option.split)

interpretation rn_buffer: transport_live "rn_call B M" "buffering nb" for B M nb
  by unfold_locales (rule buffering_call)

interpretation rn_quiet: transport_live "rn_call B M" "rn_state nb hs q" for B M nb hs q
proof unfold_locales
  fix t :: "'a rn_transport" and x :: "'a tcall"
  assume "rn_state nb hs q t" "\<not> is_start x" "x \<noteq> TCancel"
  then show "rn_state nb hs q (snd (rn_call B M x t))"
    using buffering_call [of nb t x B M]
    by (cases x) (auto simp: rn_state_def rn_sendMessage_def rn_finishSend_def split: option.split)
qed

text \<open>
  \<open>follows\<close>: the bytes received, the callbacks detached, and the client driven by those that
  have run.
\<close>

definition follows ::
  "('m, 'a, 'req, 'res, 'cb, 'u, 'm rn_transport) env \<Rightarrow> nat
     \<Rightarrow> ('m, 'res, 'cb, 'u, 'm rn_transport) client \<Rightarrow> js_string \<times> int
     \<Rightarrow> bytes \<times> rn_job list \<Rightarrow> ('m, 'res, 'cb, 'u) rn_app \<Rightarrow> bool"
where
  "follows E i c0 hs st w \<longleftrightarrow>
     app_ids w \<and> started (calls w i) \<and> \<not> closed (calls w i) \<and>
     buffering (fst st) (transport (calls w i)) \<and>
     own i (detached (appQueue w)) = snd st \<and>
     (DeliverHeaders \<in> set (snd st) \<longrightarrow> rnHeaders (transport (calls w i)) = hs) \<and>
     driven E (concat (map (job_input (metadata E) hs) (own i (ran (appQueue w))))) c0 (calls w i)"

lemma follows_other:
  assumes "follows E i c0 hs st w" "rn_code f" "k \<noteq> i"
  shows "follows E i c0 hs st (snd (in_call k f w))"
proof -
  from assms(2) obtain new where
    q: "appQueue (snd (in_call k f w)) = fold detach (map (Pair (rnId (transport (calls w k)))) new) (appQueue w)"
    and k: "rnId (transport (calls (snd (in_call k f w)) k)) = rnId (transport (calls w k))"
    by (rule in_call_queue)
  have c: "calls (snd (in_call k f w)) j = calls w j" if "j \<noteq> k" for j
    using that by (simp add: in_call_snd Let_def)
  have ids: "app_ids (snd (in_call k f w))"
    using assms(1) c k unfolding app_ids_def follows_def by metis
  have "rnId (transport (calls w k)) = k" using assms(1) by (simp add: follows_def app_ids_def)
  with fold_detach [of "map (Pair k) new" "appQueue w"] q
  have "own i (detached (appQueue (snd (in_call k f w)))) = own i (detached (appQueue w))"
    "ran (appQueue (snd (in_call k f w))) = ran (appQueue w)"
    using assms(3) by simp_all
  with assms(1,3) ids c [of i] show ?thesis by (simp add: follows_def)
qed

lemma job_input_admissible [simp]: "list_all (admissible P) (job_input M hs job)"
  by (cases job) (simp_all split: sum.split)

lemma follows_run:
  assumes w: "follows (over_rn B (Es i)) i c0 hs st w"
    and job: "(i, job) \<in> set (detached (appQueue w))" and obs: "observers (Es i)"
  shows "follows (over_rn B (Es i)) i c0 hs st
    (snd (app_exec B Es (i, job) (upd_queue (\<lambda>q. q\<lparr>ran := ran q @ [(i, job)]\<rparr>) w)))"
proof -
  let ?E = "over_rn B (Es i)" and ?q = "(appQueue w)\<lparr>ran := ran (appQueue w) @ [(i, job)]\<rparr>"
  let ?is = "job_input (metadata ?E) hs job"
  define c where "c = see_queue ?q (calls w i)"
  define c' where "c' = run ?E ?is c"
  have c: "started c" "\<not> closed c" "rn_state (fst st) (rnHeaders (transport c)) ?q (transport c)"
    "rnHeaders (transport c) = rnHeaders (transport (calls w i))"
    "rnId (transport c) = rnId (transport (calls w i))"
    using w by (auto simp: follows_def c_def see_queue_def rn_state_def buffering_def)
  have "job \<in> set (snd st)"
    using job w by (simp add: follows_def own_set [symmetric])
  with w have "job = DeliverHeaders \<longrightarrow> rnHeaders (transport c) = hs"
    by (auto simp: follows_def c(4))
  then have "snd (rn_exec ?E job c) = c'"
    unfolding rn_exec_run c'_def by (cases job) simp_all
  then have new: "snd (app_exec B Es (i, job) (upd_queue (\<lambda>q. q\<lparr>ran := ran q @ [(i, job)]\<rparr>) w)) =
      w\<lparr>appQueue := rnQueue (transport c'), calls := (calls w)(i := c')\<rparr>"
    by (simp add: app_exec_def in_call_snd upd_queue_def c_def Let_def)
  have o: "observers ?E" "list_all (admissible observing) ?is" using obs by (simp_all add: observers_def)
  have c': "started c'" "\<not> closed c'" "rn_state (fst st) (rnHeaders (transport c)) ?q (transport c')"
    using rn_quiet.run_steady [OF over_rn_fields(1) o c(1-3)] by (simp_all add: c'_def)
  have "only_detaches (transport c) (transport c')"
    unfolding c'_def by (rule rn_change.run_changes) simp
  then have id: "rnId (transport c') = rnId (transport (calls w i))"
    by (simp add: only_detaches_def c(5))
  have "driven ?E ?is (calls w i) c'"
    using driven_run [of ?E ?is c] unfolding c'_def c_def see_queue_def by (rule driven_changed)
  with w have "driven ?E (concat (map (job_input (metadata ?E) hs) (own i (ran (appQueue w)))) @ ?is) c0 c'"
    by (auto simp: follows_def intro: driven_append)
  with w c' c(4) id show ?thesis
    by (simp add: new follows_def rn_state_def app_ids_def)
qed

lemma follows_timer:
  assumes w: "follows (over_rn B (Es i)) i c0 hs st w" "fifo (appQueue w)" and obs: "observers (Es i)"
  shows "follows (over_rn B (Es i)) i c0 hs st (app_step B Es AppTimer w)"
proof -
  let ?I = "follows (over_rn B (Es i)) i c0 hs st"
  have runs: "?I (snd (app_exec B Es cb (upd_queue (\<lambda>q. q\<lparr>ran := ran q @ [cb]\<rparr>) w)))"
    if "cb \<in> set (detached (appQueue w))" "?I w" for cb w
  proof (cases "fst cb = i")
    case True
    with follows_run [of B Es i c0 hs st w "snd cb"] that obs show ?thesis by (cases cb) simp
  next
    case False
    with that(2) have "?I (upd_queue (\<lambda>q. q\<lparr>ran := ran q @ [cb]\<rparr>) w)"
      by (simp add: follows_def upd_queue_def app_ids_def)
    from follows_other [OF this rn_code_exec False] show ?thesis by (simp add: app_exec_def)
  qed
  have kept: "?I (upd_queue f w)" if "?I w" "\<And>q. detached (f q) = detached q \<and> ran (f q) = ran q" for f w
    using that by (simp add: follows_def upd_queue_def app_ids_def)
  show ?thesis
    unfolding app_step.simps by (rule rn_owner.timer_keeps [of ?I, OF kept runs w(2,1)])
qed

text \<open>The events of the call: the expected bytes and callbacks.\<close>

fun rn_expect :: "rn_event \<Rightarrow> bytes \<times> rn_job list \<Rightarrow> bytes \<times> rn_job list" where
  "rn_expect (RnHeaders _ _) (nb, jobs) = (nb, jobs @ [DeliverHeaders])"
| "rn_expect (RnProgress bs) (nb, jobs) = (nb @ bs, jobs)"
| "rn_expect RnLoadEnd (nb, jobs) = (nb, jobs @ [DeliverChunk nb, DeliverEnd])"
| "rn_expect RnError st = st"

fun rn_expected :: "js_string \<times> int \<Rightarrow> rn_event \<Rightarrow> bool" where
  "rn_expected hs (RnHeaders text status) \<longleftrightarrow> (text, status) = hs"
| "rn_expected hs RnError \<longleftrightarrow> False"
| "rn_expected hs _ \<longleftrightarrow> True"

lemma detach_pair_fields:
  "detached (detach x q) = detached q @ [x]" "ran (detach x q) = ran q"
  by (simp_all add: detach_fields)

lemma follows_event:
  assumes w: "follows E i c0 hs st w" and ev: "rn_expected hs ev"
  shows "follows E i c0 hs (rn_expect ev st) (app_step B Es (AppXhr i ev) w)"
proof -
  let ?c = "see_queue (appQueue w) (calls w i)"
  let ?t = "rn_handle B ev (transport ?c)"
  obtain nb jobs where st: "st = (nb, jobs)" by fastforce
  obtain r where r: "rnXhr (transport ?c) = Some r" "listening r" "responseType r = arraybuffer_type"
    "newBytes r = nb" "rnClass (transport ?c) = ArrayBufferXHR" "rnId (transport ?c) = i"
    "rnQueue (transport ?c) = appQueue w" "rnHeaders (transport ?c) = rnHeaders (transport (calls w i))"
    using w by (auto simp: follows_def st buffering_def see_queue_def app_ids_def)
  have step: "app_step B Es (AppXhr i ev) w =
      w\<lparr>appQueue := rnQueue ?t, calls := (calls w)(i := (calls w i)\<lparr>transport := ?t\<rparr>)\<rparr>"
    by (simp add: in_call_snd Let_def see_queue_def)
  have "buffering (fst (rn_expect ev st)) ?t \<and> rnId ?t = i \<and>
      detached (rnQueue ?t) = detached (appQueue w) @ map (Pair i) (drop (length jobs) (snd (rn_expect ev st))) \<and>
      ran (rnQueue ?t) = ran (appQueue w) \<and>
      (rnHeaders ?t = hs \<or> rnHeaders ?t = rnHeaders (transport (calls w i)) \<and> (\<forall>t s. ev \<noteq> RnHeaders t s))"
    using r ev
    by (cases ev)
      (auto simp: st rn_handle_def rn_detach_def detach_pair_fields buffering_def rn_received_def
        rn_onProgressEvent_def rn_onLoadEvent_def)
  moreover have "snd (rn_expect ev st) = jobs @ drop (length jobs) (snd (rn_expect ev st))"
    by (cases ev) (simp_all add: st)
  moreover have "DeliverHeaders \<in> set (snd (rn_expect ev st)) \<Longrightarrow> (\<forall>t s. ev \<noteq> RnHeaders t s) \<Longrightarrow>
      DeliverHeaders \<in> set jobs"
    by (cases ev) (auto simp: st)
  ultimately show ?thesis
    using w unfolding step
    by (auto simp: follows_def st app_ids_def intro: driven_then_change)
qed

fun own_event :: "nat \<Rightarrow> ('a, 'req, 'cb) app_event \<Rightarrow> rn_event list" where
  "own_event i (AppXhr k ev) = (if k = i then [ev] else [])"
| "own_event i _ = []"

definition own_events :: "nat \<Rightarrow> ('a, 'req, 'cb) app_event list \<Rightarrow> rn_event list" where
  "own_events i evs = concat (map (own_event i) evs)"

fun not_api :: "nat \<Rightarrow> ('a, 'req, 'cb) app_event \<Rightarrow> bool" where
  "not_api i (AppApi k _) \<longleftrightarrow> k \<noteq> i"
| "not_api i _ \<longleftrightarrow> True"

lemma follows_app:
  assumes obs: "observers (Es i)"
  shows "follows (over_rn B (Es i)) i c0 hs st w \<Longrightarrow> fifo (appQueue w) \<Longrightarrow>
    list_all (not_api i) evs \<Longrightarrow> list_all (rn_expected hs) (own_events i evs) \<Longrightarrow>
    follows (over_rn B (Es i)) i c0 hs (fold rn_expect (own_events i evs) st) (fold (app_step B Es) evs w) \<and>
    fifo (appQueue (fold (app_step B Es) evs w))"
proof (induction evs arbitrary: st w)
  case (Cons ev evs)
  have "follows (over_rn B (Es i)) i c0 hs (fold rn_expect (own_event i ev) st) (app_step B Es ev w)"
  proof (cases ev)
    case (AppApi k a)
    with Cons.prems follows_other [OF Cons.prems(1) rn_code_api, of k] show ?thesis by simp
  next
    case (AppXhr k x)
    with Cons.prems follows_other [OF Cons.prems(1) rn_code_event, of k] show ?thesis
      by (cases "k = i") (auto simp: own_events_def follows_event [simplified] simp del: app_step.simps(1,3))
  next
    case AppTimer
    with Cons.prems follows_timer [of B Es i, OF Cons.prems(1,2) obs] show ?thesis by simp
  qed
  with Cons.IH [OF this rn_fifo.step_keeps] Cons.prems show ?case
    by (simp add: own_events_def del: app_step.simps)
qed (simp add: own_events_def)

section \<open>unary over React Native\<close>

lemma rn_start_buffering:
  assumes "rn_start B M m (new_rn i ArrayBufferXHR cr url) = (None, t)"
  shows "buffering [] t"
proof -
  let ?r = "rn_configureXhr ArrayBufferXHR new_xml_http_request"
  from assms obtain r where r: "set_headers B (md_entries M m) ?r = (None, r)"
    "rnXhr t = Some (r\<lparr>withCredentials := cr, listening := True\<rparr>)" "rnClass t = ArrayBufferXHR"
    by (auto simp: rn_start_def new_rn_def Let_def split: option.splits prod.splits)
  with set_headers_fields [OF r(1)] show ?thesis
    by (simp add: buffering_def new_xml_http_request_def)
qed

lemma follows_start:
  assumes E: "Es i = unary_env M sl md (rn_call B M) body"
    and c: "unary (Es i) (Some (ReactNativeTransport i cr)) df host request arg u = (None, Some c)"
    and w: "calls w i = c" "app_ids w" "fifo (appQueue w)" "own i (detached (appQueue w)) = []"
  shows "follows (over_rn B (Es i)) i c hs ([], []) w"
proof -
  have tc: "transportCall (Es i) = rn_call B M" by (simp add: E)
  obtain t0 m t where "ReactNativeTransport i cr (request_url host (methodDefinition (Es i))) = Inr t0"
    "transportCall (Es i) (TStart m) t0 = (None, t)" and t: "started_with (Es i) t c"
    by (rule unary_started [OF c])
  then have "rn_start B M m (new_rn i ArrayBufferXHR cr (request_url host md)) = (None, t)"
    by (auto simp: ReactNativeTransport_def E)
  with t obtain c1 where c1: "started c1" "transport c1 = t" "(micro (Es i) any_action)\<^sup>*\<^sup>* c1 c" "buffering [] t"
    by (auto simp: started_with_def dest: rn_start_buffering)
  then have "rn_buffer.attached [] c1" by (simp add: rn_buffer.attached_def)
  with c1(3) tc rn_buffer.attached.star_keeps [OF c1(3), where nb = "[]" and B = B and M = M] have "rn_buffer.attached [] c" by simp
  moreover have "\<not> closed c"
    using unary_fresh [OF c] by (simp add: fresh_with_def face_def)
  moreover have "own i (ran (appQueue w)) = []"
    using w(3,4) by (metis fifo_def own_append append_is_Nil_conv)
  ultimately show ?thesis
    using w by (simp add: follows_def rn_buffer.attached_def driven_idle)
qed

lemma unary_over_rn:
  assumes E: "Es i = unary_env M sl md (rn_call B M) body"
    and c: "unary (Es i) (Some (ReactNativeTransport i cr)) df host request arg u = (None, Some c)"
    and w: "calls w i = c" "app_ids w" "fifo (appQueue w)" "own i (detached (appQueue w)) = []"
    and evs: "own_events i evs = RnHeaders block status # map RnProgress bs @ [RnLoadEnd]"
      "list_all (not_api i) evs" "waiting (appQueue (fold (app_step B Es) evs w)) = []"
    and ok: "bodies_in observing body" "md_of_text M block = Inr h"
    and hdrs: "status \<noteq> 0" "headers_code (getStatusFromHeaders M h) status = code OK"
    and frames: "list_all (\<lambda>d. length d < 2 ^ 32) ds" "length t < 2 ^ 32" "concat bs = response_stream ds t"
    and msgs: "list_all2 (\<lambda>d r. deserializeBinary md d = Inr r) ds rs" "parseTrailerData M t = Inr m"
    and stat: "status_of M (md_copy M m) = Some (s, msg)"
  shows "outputs (user (calls (fold (app_step B Es) evs w) i)) =
     [\<lparr>out_status = s, out_statusMessage = msg, out_headers = h,
       out_message = (if rs = [] then None else Some (last rs)), out_trailers = md_copy M m\<rparr>]"
proof -
  let ?w = "fold (app_step B Es) evs w" and ?jobs = "[DeliverHeaders, DeliverChunk (concat bs), DeliverEnd]"
  have over: "over_rn B (Es i) = Es i" by (simp add: over_rn_def E unary_env_def)
  have "fold rn_expect (map RnProgress bs) (nb, jobs) = (nb @ concat bs, jobs)" for nb jobs
    by (induction bs arbitrary: nb) simp_all
  then have "fold rn_expect (own_events i evs) ([], []) = (concat bs, ?jobs)"
    by (simp add: evs(1))
  moreover have "list_all (rn_expected (block, status)) (own_events i evs)"
    by (simp add: evs(1) list_all_iff)
  moreover have "observers (Es i)" unfolding E by (rule unary_observers [OF ok(1)])
  ultimately have f: "follows (Es i) i c (block, status) (concat bs, ?jobs) ?w" "fifo (appQueue ?w)"
    using follows_app [of Es i B c "(block, status)" "([], [])" w evs]
      follows_start [of Es i, OF E c w, of "(block, status)"] w(3) evs(2) over by simp_all
  have "own i (ran (appQueue ?w)) = ?jobs"
    using f evs(3) by (simp add: follows_def fifo_def)
  with f(1) ok(2) have "driven (Es i) (TransportHeaders h status # map TransportChunk [concat bs] @ [TransportEnd]) c
      (calls ?w i)"
    by (simp add: follows_def E)
  from unary_delivers [OF c [unfolded E] this [unfolded E] ok(1) hdrs frames(1,2) _ _ msgs(2) stat] frames(3) msgs(1)
  show ?thesis by (simp add: deserialized_def E)
qed

section \<open>Callbacks that detach nothing\<close>

text \<open>Only \<^verbatim>\<open>cancel\<close> touches the queue: callbacks that do not close a request leave it alone.\<close>

fun no_close :: "('a, 'req, 'cb) action \<Rightarrow> bool" where
  "no_close Close = False"
| "no_close _ = True"

lemma rn_call_queue: "x \<noteq> TCancel \<Longrightarrow> rnQueue (snd (rn_call B M x t)) = rnQueue t"
  by (cases x) (auto simp: rn_start_def rn_sendMessage_def rn_finishSend_def Let_def
      split: option.split prod.split)

interpretation rn_idle:
  client_invariant "over_rn B E" no_close "\<lambda>c. rnQueue (transport c) = q" for B E q
proof unfold_locales
  fix c c' assume "micro (over_rn B E) no_close c c'" "rnQueue (transport c) = q"
  then show "rnQueue (transport c') = q"
  proof (induction rule: micro.induct)
    case (api a c)
    let ?E = "over_rn B E"
    show ?case
    proof (cases a)
      case (Start arg)
      with api show ?thesis
        by (cases rule: start_cases [of c ?E arg]) (simp_all add: flag_simps rn_call_queue del: rn_call.simps)
    next
      case (Send msg)
      with api show ?thesis
        by (cases rule: send_cases [of ?E msg c]) (simp_all add: flag_simps rn_call_queue del: rn_call.simps)
    next
      case FinishSend
      with api show ?thesis
        by (cases rule: finishSend_cases [of ?E c]) (simp_all add: flag_simps rn_call_queue del: rn_call.simps)
    qed (use api in \<open>simp_all add: onHeaders_def onMessage_def onEnd_def\<close>)
  qed (simp_all add: flag_simps)
qed

lemma app_exec_queue:
  assumes "\<forall>i. callbacks_in (Es i) no_close"
  shows "appQueue (snd (app_exec B Es cb w)) = appQueue w"
proof -
  let ?c = "see_queue (appQueue w) (calls w (fst cb))" and ?E = "over_rn B (Es (fst cb))"
  have "callbacks_in ?E no_close" using assms by (simp add: callbacks_in_def)
  from rn_idle.run_inv [OF this job_input_admissible, of ?c "appQueue w" "metadata ?E" "rnHeaders (transport ?c)" "snd cb"]
  have "rnQueue (transport (snd (rn_exec ?E (snd cb) ?c))) = appQueue w"
    by (simp add: rn_exec_run see_queue_def)
  then show ?thesis by (simp add: app_exec_def in_call_snd Let_def)
qed

lemma app_timers: "fold (app_step B Es) (replicate n AppTimer) w = ((timer appQueue upd_queue (app_exec B Es)) ^^ n) w"
  by (induction n arbitrary: w) (simp_all add: funpow_swap1)

section \<open>A closed call\<close>

lemma closed_run_notified:
  "closed c \<Longrightarrow> closed (run E is c) \<and> notified (trace (run E is c)) = notified (trace c)"
  using closed_latch.run_inv [of E "is" c] by (simp add: closed_run)

definition silenced :: "nat \<Rightarrow> ('cb \<times> ('m, 'res) cb_event) list \<Rightarrow> ('m, 'res, 'cb, 'u) rn_app \<Rightarrow> bool" where
  "silenced i n w \<longleftrightarrow> closed (calls w i) \<and> notified (trace (calls w i)) = n"

lemma silenced_in_call:
  assumes "silenced i n w"
    and "\<And>c. closed c \<Longrightarrow> closed (snd (f c)) \<and> notified (trace (snd (f c))) = notified (trace c)"
  shows "silenced i n (snd (in_call k f w))"
  using assms(1) assms(2) [of "see_queue (appQueue w) (calls w i)"]
  by (auto simp: silenced_def in_call_snd see_queue_def Let_def)

lemma silenced_app_step:
  assumes w: "silenced i n w" "fifo (appQueue w)"
  shows "silenced i n (app_step B Es ev w)"
proof (cases ev)
  case (AppApi k a)
  then show ?thesis
    using silenced_in_call [OF w(1), of "run_action (over_rn B (Es k)) a" k]
    by (simp add: run_action_mono run_action_notified)
next
  case (AppXhr k x)
  then show ?thesis
    using silenced_in_call [OF w(1), of "\<lambda>c. ((), c\<lparr>transport := rn_handle B x (transport c)\<rparr>)" k] by simp
next
  case AppTimer
  have runs: "silenced i n (snd (app_exec B Es cb (upd_queue (\<lambda>q. q\<lparr>ran := ran q @ [cb]\<rparr>) w)))"
    if "silenced i n w" for cb w
    unfolding app_exec_def
    by (rule silenced_in_call) (use that in \<open>simp_all add: silenced_def upd_queue_def rn_exec_run closed_run_notified\<close>)
  have kept: "silenced i n (upd_queue f w)" if "silenced i n w" for f w
    using that by (simp add: silenced_def upd_queue_def)
  show ?thesis
    unfolding AppTimer app_step.simps
    by (rule rn_owner.timer_keeps [of "silenced i n", OF kept runs w(2,1)])
qed

lemma silenced_app:
  "silenced i n w \<Longrightarrow> fifo (appQueue w) \<Longrightarrow> silenced i n (fold (app_step B Es) evs w)"
proof (induction evs arbitrary: w)
  case (Cons ev evs)
  from Cons.IH [OF silenced_app_step [OF Cons.prems] rn_fifo.step_keeps [OF _ Cons.prems(2)]]
  show ?case by simp
qed simp

lemma close_silenced:
  assumes "started (calls w i)"
  shows "silenced i (notified (trace (calls w i))) (app_step B Es (AppApi i Close) w)"
  using assms by (simp add: silenced_def in_call_snd see_queue_def Let_def close_def flag_simps trace_simps)

section \<open>Properties\<close>

definition new_app ::
  "(nat \<Rightarrow> ('m, 'res, 'cb, 'u, 'm rn_transport) client) \<Rightarrow> ('m, 'res, 'cb, 'u) rn_app"
where
  "new_app cs = \<lparr>appQueue = new_queue, calls = cs\<rparr>"

text \<open>
  C22. The deferred callbacks of an application keep their order: in any run, with any number of
  calls, events and timers in any order and callbacks that may throw, close or issue further calls,
  what has run followed by what is waiting is exactly what was detached, in the order of detaching; so
  no callback is lost, run twice or overtaken.  There is never more than one timer, and one is set
  exactly while the queue exists, so whenever a callback is waiting.  (The queue may exist and be
  empty: after the last of its callbacks has thrown, one timer more is set, which finds nothing to
  run.)
\<close>

theorem deferred_callbacks_in_order:
  "let q = appQueue (fold (app_step B Es) evs (new_app cs))
   in ran q @ waiting q = detached q \<and> timers q \<le> 1 \<and>
      (timers q = 1 \<longleftrightarrow> awaitingExecution q \<noteq> None) \<and> (waiting q = [] \<or> timers q = 1)"
proof -
  have "fifo (appQueue (fold (app_step B Es) evs (new_app cs)))"
    by (rule rn_fifo.run_keeps) (simp_all add: list_all_iff new_app_def)
  then show ?thesis by (auto simp: fifo_def timed_def waiting_def Let_def split: option.splits)
qed

text \<open>
  C28. Closing a call silences it at once: although its headers, chunks and end may already be waiting in
  the queue, and the abort adds more, no callback of the call is invoked any more, whatever the
  application does afterwards.
\<close>

theorem close_silences_call:
  assumes "started (calls w i)" "fifo (appQueue w)"
  shows "closed (calls (fold (app_step B Es) (AppApi i Close # evs) w) i) \<and>
    notified (trace (calls (fold (app_step B Es) (AppApi i Close # evs) w) i)) =
      notified (trace (calls w i))"
  using silenced_app [OF close_silenced [OF assms(1)] rn_fifo.step_keeps [OF _ assms(2)], of B Es evs B Es]
  by (simp add: silenced_def del: app_step.simps)

text \<open>
  C25. The queue of deferred callbacks drains: even when a callback throws, which puts the rest off
  to a new timer, as many timers as callbacks are waiting run every one of them, in order,
  provided that the callbacks themselves do not close requests.
\<close>

theorem deferred_callbacks_drain:
  assumes "\<forall>i. callbacks_in (Es i) no_close" "fifo (appQueue w)" "length (waiting (appQueue w)) \<le> n"
  shows "waiting (appQueue (fold (app_step B Es) (replicate n AppTimer) w)) = [] \<and>
    ran (appQueue (fold (app_step B Es) (replicate n AppTimer) w)) = detached (appQueue w)"
  unfolding app_timers using rn_owner.timers_drain [OF app_exec_queue assms(2,3)] assms(1) by blast

definition rn_demo :: "(assoc, assoc, bytes, bytes, nat, nat, assoc rn_transport) env" where
  "rn_demo =
     \<lparr>metadata = assoc_metadata, hasSlice = True,
      methodDefinition =
        \<lparr>methodName = js ''m'', serviceName = js ''s'', requestStream = False, responseStream = True,
         serializeBinary = Inr, deserializeBinary = (\<lambda>d. Inl (Error (js ''bad message'')))\<rparr>,
      transportCall = (\<lambda>_ t. (None, t)), callback = (\<lambda>cb ev n. (n + 1, []))\<rparr>"

definition rn_demo_queue :: "(nat \<times> rn_job) detach_queue" where
  "rn_demo_queue = fold detach [(0, DeliverChunk [0, 0, 0, 0, 0]), (1, DeliverEnd)] new_queue"

theorem deferred_callbacks_drain_witness:
  "waiting (appQueue (fold (app_step xhr_demo_browser (\<lambda>_. rn_demo)) [AppTimer, AppTimer]
     \<lparr>appQueue = rn_demo_queue,
      calls = (\<lambda>i. new_client (new_rn i ArrayBufferXHR False []) 0)\<rparr>)) = []"
proof -
  have "fifo rn_demo_queue" unfolding rn_demo_queue_def by (rule fold_detach_fifo) simp
  moreover have "length (waiting rn_demo_queue) \<le> 2"
    by (simp add: rn_demo_queue_def detach_def new_queue_def waiting_def)
  ultimately show ?thesis
    using deferred_callbacks_drain [of "\<lambda>_. rn_demo" "\<lparr>appQueue = rn_demo_queue,
      calls = (\<lambda>i. new_client (new_rn i ArrayBufferXHR False []) 0)\<rparr>" 2 xhr_demo_browser]
    by (simp add: callbacks_in_def rn_demo_def numeral_2_eq_2 del: app_step.simps)
qed

theorem close_silences_call_witness:
  "notified (trace (calls (fold (app_step xhr_demo_browser (\<lambda>_. rn_demo)) [AppApi 1 Close, AppTimer]
     \<lparr>appQueue = rn_demo_queue,
      calls = (\<lambda>i. (onEnd 9 (new_client (new_rn i ArrayBufferXHR False []) 0))\<lparr>started := True\<rparr>)\<rparr>) 1)) = []"
proof -
  have "fifo rn_demo_queue" unfolding rn_demo_queue_def by (rule fold_detach_fifo) simp
  then show ?thesis
    using close_silences_call [of "\<lparr>appQueue = rn_demo_queue,
      calls = (\<lambda>i. (onEnd 9 (new_client (new_rn i ArrayBufferXHR False []) 0))\<lparr>started := True\<rparr>)\<rparr>" 1
      xhr_demo_browser "\<lambda>_. rn_demo" "[AppTimer]"]
    by (simp add: new_client_def onEnd_def del: app_step.simps)
qed

end
