(* ===== verification/Fake.thy ===== *)
theory Fake
  imports Requests Client_Chunks
begin

text \<open>
  \<^verbatim>\<open>client/grpc-web-fake-transport/src/index.ts\<close>: a transport for tests that answers a
  request from a script.  A builder collects the script and the listeners; the transport
  reports what the client does to the listeners, and its triggers play the response.

  The builder, which the triggers read when they run, is part of the transport's state.  A
  listener is a name, and \<open>heardLog\<close> records the calls of listeners in order; what a listener
  does is not modelled.  Response messages are values of a type \<open>'msg\<close> with the generated
  \<^verbatim>\<open>serializeBinary\<close> as the parameter \<open>ser\<close>.

  With \<^verbatim>\<open>autoTrigger\<close>, \<^verbatim>\<open>finishSend\<close> of the transport calls \<^verbatim>\<open>sendAll\<close> before it returns.  That
  call is the last thing \<^verbatim>\<open>finishSend\<close> of the client does, so the model runs it right after the
  method (\<open>fake_after\<close>).  This does not cover a callback that itself calls \<^verbatim>\<open>finishSend\<close>.
\<close>

section \<open>Frames\<close>

definition frameResponse :: "('msg \<Rightarrow> bytes result) \<Rightarrow> 'msg \<Rightarrow> bytes result" where
  "frameResponse ser request =
     js_bind (ser request) (\<lambda>bytes.
       let frame = new_buffer (length bytes + 5);
           frame = setUint32 frame (0 + 1) (of_nat (length bytes))
       in Inr (set_bytes frame 5 bytes))"

definition fake_frameRequest :: "('req \<Rightarrow> bytes result) \<Rightarrow> 'req \<Rightarrow> bytes result" where
  "fake_frameRequest ser request =
     js_bind (ser request) (\<lambda>bytes.
       let frame = new_buffer (length bytes + 5);
           frame = setUint32 frame (1 + 0) (of_nat (length bytes))
       in Inr (set_bytes frame 5 bytes))"

definition trailer_text :: "(js_string \<times> js_string list) list \<Rightarrow> js_string" where
  "trailer_text kvs =
     foldl (\<lambda>asString (key, values).
         asString @ key @ js '': '' @ js_join (js '', '') values @ [13, 10]) [] kvs"

definition frameTrailers :: "('m, 'a) metadata_ops \<Rightarrow> 'm \<Rightarrow> bytes" where
  "frameTrailers M trailers =
     (let asString = trailer_text (md_entries M trailers);
          bytes = utf8_encode asString;
          frame = new_buffer (length bytes + 5);
          frame = setUint32 frame (0 + 1) (of_nat (length bytes));
          frame = setUint8 frame (0 + 0) 128
      in set_bytes frame 5 bytes)"

section \<open>The builder\<close>

record ('l, 'm, 'msg) builder =
  requestListener :: "'l option"
  headersListener :: "'l option"
  messageListener :: "'l option"
  finishSendListener :: "'l option"
  cancelListener :: "'l option"
  preHeadersErrorCode :: "int option"
  stubHeaders :: "'m option"
  preMessagesError :: "(Code \<times> js_string) option"
  stubMessages :: "'msg list"
  preTrailersError :: "(Code \<times> js_string) option"
  stubTrailers :: "'m option"
  autoTrigger :: bool

definition new_FakeTransportBuilder :: "('l, 'm, 'msg) builder" where
  "new_FakeTransportBuilder =
     \<lparr>requestListener = None, headersListener = None, messageListener = None,
      finishSendListener = None, cancelListener = None, preHeadersErrorCode = None,
      stubHeaders = None, preMessagesError = None, stubMessages = [], preTrailersError = None,
      stubTrailers = None, autoTrigger = True\<rparr>"

definition withRequestListener :: "'l \<Rightarrow> ('l, 'm, 'msg) builder \<Rightarrow> ('l, 'm, 'msg) builder" where
  "withRequestListener l b = b\<lparr>requestListener := Some l\<rparr>"

definition withHeadersListener :: "'l \<Rightarrow> ('l, 'm, 'msg) builder \<Rightarrow> ('l, 'm, 'msg) builder" where
  "withHeadersListener l b = b\<lparr>headersListener := Some l\<rparr>"

definition withMessageListener :: "'l \<Rightarrow> ('l, 'm, 'msg) builder \<Rightarrow> ('l, 'm, 'msg) builder" where
  "withMessageListener l b = b\<lparr>messageListener := Some l\<rparr>"

definition withFinishSendListener :: "'l \<Rightarrow> ('l, 'm, 'msg) builder \<Rightarrow> ('l, 'm, 'msg) builder" where
  "withFinishSendListener l b = b\<lparr>finishSendListener := Some l\<rparr>"

definition withCancelListener :: "'l \<Rightarrow> ('l, 'm, 'msg) builder \<Rightarrow> ('l, 'm, 'msg) builder" where
  "withCancelListener l b = b\<lparr>cancelListener := Some l\<rparr>"

definition withPreHeadersError :: "int \<Rightarrow> ('l, 'm, 'msg) builder \<Rightarrow> ('l, 'm, 'msg) builder" where
  "withPreHeadersError httpStatusCode b = b\<lparr>preHeadersErrorCode := Some httpStatusCode\<rparr>"

definition withPreMessagesError ::
  "Code \<Rightarrow> js_string \<Rightarrow> ('l, 'm, 'msg) builder \<Rightarrow> ('l, 'm, 'msg) builder"
where
  "withPreMessagesError grpcStatus grpcMessage b = b\<lparr>preMessagesError := Some (grpcStatus, grpcMessage)\<rparr>"

definition withPreTrailersError ::
  "Code \<Rightarrow> js_string \<Rightarrow> ('l, 'm, 'msg) builder \<Rightarrow> ('l, 'm, 'msg) builder"
where
  "withPreTrailersError grpcStatus grpcMessage b = b\<lparr>preTrailersError := Some (grpcStatus, grpcMessage)\<rparr>"

definition withHeaders :: "'m \<Rightarrow> ('l, 'm, 'msg) builder \<Rightarrow> ('l, 'm, 'msg) builder" where
  "withHeaders headers b = b\<lparr>stubHeaders := Some headers\<rparr>"

definition withMessages :: "'msg list \<Rightarrow> ('l, 'm, 'msg) builder \<Rightarrow> ('l, 'm, 'msg) builder" where
  "withMessages messages b = b\<lparr>stubMessages := messages\<rparr>"

definition withTrailers :: "'m \<Rightarrow> ('l, 'm, 'msg) builder \<Rightarrow> ('l, 'm, 'msg) builder" where
  "withTrailers trailers b = b\<lparr>stubTrailers := Some trailers\<rparr>"

definition withManualTrigger :: "('l, 'm, 'msg) builder \<Rightarrow> ('l, 'm, 'msg) builder" where
  "withManualTrigger b = b\<lparr>autoTrigger := False\<rparr>"

section \<open>The transport\<close>

datatype ('l, 'm) heard =
    RequestHeard 'l js_string
  | HeadersHeard 'l 'm
  | MessageHeard 'l bytes
  | FinishSendHeard 'l
  | CancelHeard 'l

text \<open>
  \<open>invoked\<close>: \<^verbatim>\<open>triggers.options\<close> is set, that is, the factory has been called.  \<open>triggered\<close>:
  \<^verbatim>\<open>finishSend\<close> has called \<^verbatim>\<open>sendAll\<close>, which is still to be played.
\<close>

record ('l, 'm, 'msg) fake =
  mock :: "('l, 'm, 'msg) builder"
  invoked :: bool
  heardLog :: "('l, 'm) heard list"
  triggered :: bool

definition build :: "('l, 'm, 'msg) builder \<Rightarrow> ('l, 'm, 'msg) fake" where
  "build b = \<lparr>mock = b, invoked = False, heardLog = [], triggered = False\<rparr>"

definition hear :: "'l option \<Rightarrow> ('l \<Rightarrow> ('l, 'm) heard) \<Rightarrow> ('l, 'm, 'msg) fake \<Rightarrow> ('l, 'm, 'msg) fake" where
  "hear listener ev t =
     (case listener of None \<Rightarrow> t | Some l \<Rightarrow> t\<lparr>heardLog := heardLog t @ [ev l]\<rparr>)"

definition transportConstructor :: "('l, 'm, 'msg) fake \<Rightarrow> js_string \<Rightarrow> ('l, 'm, 'msg) fake result" where
  "transportConstructor t url =
     Inr (hear (requestListener (mock t)) (\<lambda>l. RequestHeard l url) (t\<lparr>invoked := True\<rparr>))"

fun fake_call :: "'m tcall \<Rightarrow> ('l, 'm, 'msg) fake \<Rightarrow> js_error option \<times> ('l, 'm, 'msg) fake" where
  "fake_call (TStart md) t = (None, hear (headersListener (mock t)) (\<lambda>l. HeadersHeard l md) t)"
| "fake_call (TSend msgBytes) t = (None, hear (messageListener (mock t)) (\<lambda>l. MessageHeard l msgBytes) t)"
| "fake_call TFinish t =
     (None,
      let t = hear (finishSendListener (mock t)) FinishSendHeard t
      in if autoTrigger (mock t) then t\<lparr>triggered := True\<rparr> else t)"
| "fake_call TCancel t = (None, hear (cancelListener (mock t)) CancelHeard t)"

section \<open>The triggers\<close>

definition error_metadata :: "('m, 'a) metadata_ops \<Rightarrow> Code \<times> js_string \<Rightarrow> 'm" where
  "error_metadata M e =
     md_of_obj M [(js ''grpc-status'', nat_digits (code_num (fst e))), (js ''grpc-message'', snd e)]"

definition sendHeaders ::
  "('m, 'a, 'req, 'res, 'cb, 'u, ('l, 'm, 'msg) fake) env
     \<Rightarrow> ('m, 'res, 'cb, 'u, ('l, 'm, 'msg) fake) client
     \<Rightarrow> bool result \<times> ('m, 'res, 'cb, 'u, ('l, 'm, 'msg) fake) client"
where
  "sendHeaders E c =
     (let b = mock (transport c) in
      if \<not> invoked (transport c)
      then (Inl (Error (js ''sendHeaders called before transport had been invoked'')), c)
      else
        case preHeadersErrorCode b of
          Some status \<Rightarrow>
            (let c = onTransportHeaders E (md_of_obj (metadata E) []) status c
             in (Inr False, onTransportEnd E c))
        | None \<Rightarrow>
            (let headers = (case stubHeaders b of Some h \<Rightarrow> h | None \<Rightarrow> md_of_obj (metadata E) [])
             in (Inr True, onTransportHeaders E headers 200 c)))"

fun send_each ::
  "('m, 'a, 'req, 'res, 'cb, 'u, ('l, 'm, 'msg) fake) env \<Rightarrow> ('msg \<Rightarrow> bytes result) \<Rightarrow> 'msg list
     \<Rightarrow> ('m, 'res, 'cb, 'u, ('l, 'm, 'msg) fake) client
     \<Rightarrow> js_error option \<times> ('m, 'res, 'cb, 'u, ('l, 'm, 'msg) fake) client"
where
  "send_each E ser [] c = (None, c)"
| "send_each E ser (msg # messages) c =
     (case frameResponse ser msg of
        Inl e \<Rightarrow> (Some e, c)
      | Inr frame \<Rightarrow>
          (case onTransportChunk E frame c of
             (Some e, c) \<Rightarrow> (Some e, c)
           | (None, c) \<Rightarrow> send_each E ser messages c))"

definition sendMessages ::
  "('m, 'a, 'req, 'res, 'cb, 'u, ('l, 'm, 'msg) fake) env \<Rightarrow> ('msg \<Rightarrow> bytes result)
     \<Rightarrow> ('m, 'res, 'cb, 'u, ('l, 'm, 'msg) fake) client
     \<Rightarrow> bool result \<times> ('m, 'res, 'cb, 'u, ('l, 'm, 'msg) fake) client"
where
  "sendMessages E ser c =
     (let b = mock (transport c) in
      if \<not> invoked (transport c)
      then (Inl (Error (js ''sendMessages called before transport had been invoked'')), c)
      else
        case preMessagesError b of
          Some e \<Rightarrow>
            (let c = onTransportHeaders E (error_metadata (metadata E) e) 200 c
             in (Inr False, onTransportEnd E c))
        | None \<Rightarrow>
            (case send_each E ser (stubMessages b) c of
               (Some e, c) \<Rightarrow> (Inl e, c)
             | (None, c) \<Rightarrow> (Inr True, c)))"

text \<open>\<^verbatim>\<open>trailers.set\<close> changes the builder's object, if it has one.\<close>

definition sendTrailers ::
  "('m, 'a, 'req, 'res, 'cb, 'u, ('l, 'm, 'msg) fake) env
     \<Rightarrow> ('m, 'res, 'cb, 'u, ('l, 'm, 'msg) fake) client
     \<Rightarrow> bool result \<times> ('m, 'res, 'cb, 'u, ('l, 'm, 'msg) fake) client"
where
  "sendTrailers E c =
     (let b = mock (transport c); M = metadata E in
      if \<not> invoked (transport c)
      then (Inl (Error (js ''sendTrailers called before transport had been invoked'')), c)
      else
        case preTrailersError b of
          Some e \<Rightarrow>
            (case onTransportChunk E (frameTrailers M (error_metadata M e)) c of
               (Some e, c) \<Rightarrow> (Inl e, c)
             | (None, c) \<Rightarrow> (Inr False, onTransportEnd E c))
        | None \<Rightarrow>
            (let trailers = (case stubTrailers b of Some t \<Rightarrow> t | None \<Rightarrow> md_of_obj M []);
                 trailers = md_set M trailers (js ''grpc-status'') (js ''0'');
                 b = b\<lparr>stubTrailers := map_option (\<lambda>_. trailers) (stubTrailers b)\<rparr>;
                 c = c\<lparr>transport := (transport c)\<lparr>mock := b\<rparr>\<rparr>
             in case onTransportChunk E (frameTrailers M trailers) c of
                  (Some e, c) \<Rightarrow> (Inl e, c)
                | (None, c) \<Rightarrow> (Inr True, onTransportEnd E c)))"

definition sendAll ::
  "('m, 'a, 'req, 'res, 'cb, 'u, ('l, 'm, 'msg) fake) env \<Rightarrow> ('msg \<Rightarrow> bytes result)
     \<Rightarrow> ('m, 'res, 'cb, 'u, ('l, 'm, 'msg) fake) client
     \<Rightarrow> js_error option \<times> ('m, 'res, 'cb, 'u, ('l, 'm, 'msg) fake) client"
where
  "sendAll E ser c =
     (if \<not> invoked (transport c)
      then (Some (Error (js ''sendAll called before transport had been invoked'')), c)
      else
        case sendHeaders E c of
          (Inl e, c) \<Rightarrow> (Some e, c)
        | (Inr False, c) \<Rightarrow> (None, c)
        | (Inr True, c) \<Rightarrow>
            (case sendMessages E ser c of
               (Inl e, c) \<Rightarrow> (Some e, c)
             | (Inr False, c) \<Rightarrow> (None, c)
             | (Inr True, c) \<Rightarrow>
                 (case sendTrailers E c of
                    (Inl e, c) \<Rightarrow> (Some e, c)
                  | (Inr _, c) \<Rightarrow> (None, c))))"

text \<open>What a method of the client has left to play when it returns.\<close>

definition fake_after ::
  "('m, 'a, 'req, 'res, 'cb, 'u, ('l, 'm, 'msg) fake) env \<Rightarrow> ('msg \<Rightarrow> bytes result)
     \<Rightarrow> js_error option \<times> ('m, 'res, 'cb, 'u, ('l, 'm, 'msg) fake) client
     \<Rightarrow> js_error option \<times> ('m, 'res, 'cb, 'u, ('l, 'm, 'msg) fake) client"
where
  "fake_after E ser r =
     (case r of (e, c) \<Rightarrow>
        if triggered (transport c)
        then sendAll E ser (c\<lparr>transport := (transport c)\<lparr>triggered := False\<rparr>\<rparr>)
        else (e, c))"

section \<open>What the frames are\<close>

lemma frame_message_fold:
  "set_bytes (setUint32 (new_buffer (length bytes + 5)) (Suc 0) (of_nat (length bytes))) 5 bytes =
     frame_bytes (0, bytes)"
  using frame_message_eq [of bytes] by (simp add: frame_message_def Let_def)

lemma frameResponse_eq:
  "frameResponse ser request = js_bind (ser request) (\<lambda>bytes. Inr (frame_bytes (0, bytes)))"
  by (simp add: frameResponse_def frame_message_fold Let_def)

lemma frameTrailers_eq:
  "frameTrailers M trailers = frame_bytes (0x80, utf8_encode (trailer_text (md_entries M trailers)))"
proof -
  have hd: "setUint8 (frame_bytes (0, bs)) 0 128 = frame_bytes (0x80, bs)" for bs
    by (simp add: setUint8_def set_bytes_def frame_bytes_def)
  have swap: "set_bytes (setUint8 f 0 128) 5 bs = setUint8 (set_bytes f 5 bs) 0 128"
    if "5 \<le> length f" for f bs
    using that by (simp add: setUint8_def set_bytes_def min_def take_Cons' drop_Cons' take_drop
        numeral_eq_Suc split: nat.split)
  have len: "5 \<le> length (setUint32 (new_buffer (length bs + 5)) (Suc 0) w)" for bs w
    by (simp add: setUint32_def set_bytes_def new_buffer_def)
  have "set_bytes (setUint8 (setUint32 (new_buffer (length bs + 5)) (Suc 0) (of_nat (length bs))) 0 128) 5 bs =
      frame_bytes (0x80, bs)" for bs
    by (simp only: swap [OF len] frame_message_fold hd)
  then show ?thesis by (simp add: frameTrailers_def Let_def)
qed

lemma decodeASCII_length: "decodeASCII b = Inr s \<Longrightarrow> length b = length s"
  by (auto simp: decodeASCII_def split: if_splits)

lemma trailer_block_parse:
  assumes "list_all isValidHeaderAscii s"
  shows "decodeASCII (utf8_encode s) = Inr s"
proof -
  have "list_all (\<lambda>c. c < 0x80) s"
  proof -
    have "c < 0x80" if "isValidHeaderAscii c" for c :: js_char
      using that
      by (auto simp: isValidHeaderAscii_def isAllowedControlChars_def word_less_nat_alt word_le_nat_alt)
    with assms show ?thesis by (simp add: list_all_iff)
  qed
  note u = utf8_encode_ascii [OF this]
  have "list_all (\<lambda>b. isValidHeaderAscii (ucast b)) (utf8_encode s) =
      list_all isValidHeaderAscii (map ucast (utf8_encode s))"
    by (simp add: list.pred_map comp_def)
  with u(2) assms show ?thesis by (simp add: decodeASCII_def)
qed

section \<open>What the triggers tell the client\<close>

definition fake_keeps :: "('l, 'm, 'msg) fake \<Rightarrow> ('l, 'm, 'msg) fake \<Rightarrow> bool" where
  "fake_keeps t t' \<longleftrightarrow> invoked t' = invoked t \<and> mock t' = mock t"

interpretation fake_change: transport_change fake_call fake_keeps
proof unfold_locales
  fix t :: "('l, 'm, 'msg) fake" and x :: "'m tcall"
  show "fake_keeps t (snd (fake_call x t))"
    by (cases x) (simp_all add: fake_keeps_def hear_def Let_def split: option.split)
qed (simp_all add: fake_keeps_def)

lemma run_mock [simp]:
  assumes "transportCall E = fake_call"
  shows "mock (transport (run E is c)) = mock (transport c)" "invoked (transport (run E is c)) = invoked (transport c)"
  using fake_change.run_changes [OF assms, of c "is"] by (simp_all add: fake_keeps_def)

definition stub_headers :: "('m, 'a) metadata_ops \<Rightarrow> ('l, 'm, 'msg) builder \<Rightarrow> 'm" where
  "stub_headers M b = (case stubHeaders b of Some h \<Rightarrow> h | None \<Rightarrow> md_of_obj M [])"

definition stub_trailers :: "('m, 'a) metadata_ops \<Rightarrow> ('l, 'm, 'msg) builder \<Rightarrow> 'm" where
  "stub_trailers M b =
     md_set M (case stubTrailers b of Some t \<Rightarrow> t | None \<Rightarrow> md_of_obj M []) (js ''grpc-status'') (js ''0'')"

definition trailer_block :: "('m, 'a) metadata_ops \<Rightarrow> 'm \<Rightarrow> bytes" where
  "trailer_block M m = utf8_encode (trailer_text (md_entries M m))"

lemma sendHeaders_run:
  "invoked (transport c) \<Longrightarrow> preHeadersErrorCode (mock (transport c)) = None \<Longrightarrow>
     sendHeaders E c = (Inr True, run E [TransportHeaders (stub_headers (metadata E) (mock (transport c))) 200] c)"
  by (simp add: sendHeaders_def stub_headers_def run_def)

lemma send_each_run:
  "list_all2 (\<lambda>x d. ser x = Inr d) msgs ds \<Longrightarrow> digests E (map (\<lambda>d. frame_bytes (0, d)) ds @ bs) c \<Longrightarrow>
     send_each E ser msgs c = (None, run E (map (\<lambda>d. TransportChunk (frame_bytes (0, d))) ds) c)"
proof (induction msgs ds arbitrary: c rule: list_all2_induct)
  case (Cons x xs d ds)
  from digests_chunk [of E "frame_bytes (0, d)" "map (\<lambda>d. frame_bytes (0, d)) ds @ bs" c] Cons.prems
  obtain c' where "onTransportChunk E (frame_bytes (0, d)) c = (None, c')"
    "digests E (map (\<lambda>d. frame_bytes (0, d)) ds @ bs) c'"
    by (cases "onTransportChunk E (frame_bytes (0, d)) c") auto
  with Cons show ?case by (simp add: frameResponse_eq run_def)
qed (simp add: run_def)

lemma sendMessages_run:
  assumes "list_all2 (\<lambda>x d. ser x = Inr d) (stubMessages (mock (transport c))) ds"
    and "digests E (map (\<lambda>d. frame_bytes (0, d)) ds @ bs) c"
    and "invoked (transport c)" "preMessagesError (mock (transport c)) = None"
  shows "sendMessages E ser c = (Inr True, run E (map (\<lambda>d. TransportChunk (frame_bytes (0, d))) ds) c)"
  using assms by (simp add: sendMessages_def send_each_run [OF assms(1,2)])

lemma sendTrailers_driven:
  assumes "digests E [frame_bytes (0x80, trailer_block (metadata E)
        (stub_trailers (metadata E) (mock (transport c))))] c"
    and "invoked (transport c)" "preTrailersError (mock (transport c)) = None"
  obtains d where "sendTrailers E c = (Inr True, d)"
    "driven E [TransportChunk (frame_bytes (0x80, trailer_block (metadata E)
        (stub_trailers (metadata E) (mock (transport c))))), TransportEnd] c d"
proof -
  let ?M = "metadata E" and ?b = "mock (transport c)"
  let ?ts = "stub_trailers ?M ?b"
  let ?c = "c\<lparr>transport := (transport c)\<lparr>mock := ?b\<lparr>stubTrailers := map_option (\<lambda>_. ?ts) (stubTrailers ?b)\<rparr>\<rparr>\<rparr>"
  let ?f = "frame_bytes (0x80, trailer_block ?M ?ts)"
  obtain c' where c': "onTransportChunk E ?f ?c = (None, c')"
    using digests_chunk [of E ?f "[]" ?c] assms(1) by (metis digests_transport prod.collapse)
  then have "sendTrailers E c = (Inr True, run E [TransportChunk ?f, TransportEnd] ?c)"
    using assms by (simp add: sendTrailers_def Let_def stub_trailers_def frameTrailers_eq trailer_block_def run_def)
  moreover have "driven E [TransportChunk ?f, TransportEnd] c (run E [TransportChunk ?f, TransportEnd] ?c)"
    by (rule driven_changed [OF driven_run])
  ultimately show thesis by (rule that)
qed

lemma sendAll_driven:
  fixes c :: "('m, 'res, 'cb, 'u, ('l, 'm, 'msg) fake) client"
  defines "b \<equiv> mock (transport c)"
  assumes E: "transportCall E = fake_call" "digests E (map (\<lambda>d. frame_bytes (0, d)) ds @
         [frame_bytes (0x80, trailer_block (metadata E) (stub_trailers (metadata E) b))]) c"
    and b: "invoked (transport c)" "preHeadersErrorCode b = None" "preMessagesError b = None"
      "preTrailersError b = None" "list_all2 (\<lambda>x d. ser x = Inr d) (stubMessages b) ds"
  obtains d where "sendAll E ser c = (None, d)"
    "driven E (TransportHeaders (stub_headers (metadata E) b) 200 #
       map TransportChunk (map (\<lambda>d. frame_bytes (0, d)) ds @
         [frame_bytes (0x80, trailer_block (metadata E) (stub_trailers (metadata E) b))]) @ [TransportEnd]) c d"
proof -
  let ?hs = "[TransportHeaders (stub_headers (metadata E) b) 200]"
  let ?ms = "map (\<lambda>d. TransportChunk (frame_bytes (0, d))) ds"
  define c1 where "c1 = run E ?hs c"
  define c2 where "c2 = run E ?ms c1"
  have c1: "mock (transport c1) = b" "invoked (transport c1)"
    and c2: "mock (transport c2) = b" "invoked (transport c2)"
    using b(1) by (simp_all add: c1_def c2_def E(1) b_def)
  have dig1: "digests E (map (\<lambda>d. frame_bytes (0, d)) ds @
      [frame_bytes (0x80, trailer_block (metadata E) (stub_trailers (metadata E) b))]) c1"
    using digests_headers [OF E(2)] by (simp add: c1_def run_def)
  then have dig: "digests E [frame_bytes (0x80, trailer_block (metadata E) (stub_trailers (metadata E) b))] c2"
    using digests_run [of E "map (\<lambda>d. frame_bytes (0, d)) ds"] by (simp add: c2_def comp_def)
  obtain d where d: "sendTrailers E c2 = (Inr True, d)"
    "driven E [TransportChunk (frame_bytes (0x80, trailer_block (metadata E) (stub_trailers (metadata E) b))),
      TransportEnd] c2 d"
    using sendTrailers_driven [OF _ c2(2)] c2(1) b(4) dig by metis
  have "sendHeaders E c = (Inr True, c1)" "sendMessages E ser c1 = (Inr True, c2)"
    using sendHeaders_run [of c E] sendMessages_run [OF _ dig1, of ser] b c1
    by (simp_all add: b_def c1_def c2_def)
  with d(1) b(1) have "sendAll E ser c = (None, d)" by (simp add: sendAll_def)
  moreover have "driven E ((?hs @ ?ms) @ [TransportChunk (frame_bytes (0x80, trailer_block (metadata E)
      (stub_trailers (metadata E) b))), TransportEnd]) c d"
    by (rule driven_append [OF driven_append [OF driven_run driven_run] d(2) [unfolded c2_def c1_def]])
  ultimately show thesis using that by (simp add: comp_def)
qed

section \<open>unary over the fake transport\<close>

definition heard_by :: "'l option \<Rightarrow> ('l \<Rightarrow> ('l, 'm) heard) \<Rightarrow> ('l, 'm) heard list" where
  "heard_by listener ev = (case listener of None \<Rightarrow> [] | Some l \<Rightarrow> [ev l])"

lemma hear_fields [simp]:
  "mock (hear l ev t) = mock t" "invoked (hear l ev t) = invoked t" "triggered (hear l ev t) = triggered t"
  "heardLog (hear l ev t) = heardLog t @ heard_by l ev"
  by (simp_all add: hear_def heard_by_def split: option.split)

lemma fake_unary:
  assumes E: "E = unary_env M sl md fake_call body"
    and c: "unary E (Some (transportConstructor (build b))) df host request arg u = (e, Some c)"
    and req: "requestHeaders_of M arg = Inr rh" "serializeBinary md request = Inr q"
    and b: "autoTrigger b" "preHeadersErrorCode b = None" "preMessagesError b = None"
      "preTrailersError b = None" "list_all2 (\<lambda>x d. ser x = Inr d) (stubMessages b) ds"
    and ok: "bodies_in observing body"
      "headers_code (getStatusFromHeaders M (stub_headers M b)) 200 = code OK"
    and frames: "list_all (\<lambda>d. length d < 2 ^ 32) ds"
      "length (trailer_text (md_entries M (stub_trailers M b))) < 2 ^ 32"
    and msgs: "list_all2 (\<lambda>d r. deserializeBinary md d = Inr r) ds rs"
    and trls: "list_all isValidHeaderAscii (trailer_text (md_entries M (stub_trailers M b)))"
      "md_of_text M (trailer_text (md_entries M (stub_trailers M b))) = Inr m"
    and stat: "status_of M (md_copy M m) = Some (s, msg)"
  shows "heardLog (transport c) =
      heard_by (requestListener b) (\<lambda>l. RequestHeard l (request_url host md)) @
      heard_by (headersListener b) (\<lambda>l. HeadersHeard l rh) @
      heard_by (messageListener b) (\<lambda>l. MessageHeard l (frame_message q)) @
      heard_by (finishSendListener b) FinishSendHeard \<and>
    fst (fake_after E ser (e, c)) = None \<and>
    outputs (user (snd (fake_after E ser (e, c)))) =
     [\<lparr>out_status = s, out_statusMessage = msg, out_headers = stub_headers M b,
       out_message = (if rs = [] then None else Some (last rs)), out_trailers = md_copy M m\<rparr>]"
proof -
  let ?url = "request_url host md"
  let ?t0 = "hear (requestListener b) (\<lambda>l. RequestHeard l ?url) ((build b)\<lparr>invoked := True\<rparr>)"
  let ?t1 = "snd (fake_call (TStart rh) ?t0)"
  let ?t2 = "snd (fake_call (TSend (frame_message q)) ?t1)"
  let ?t3 = "snd (fake_call TFinish ?t2)"
  have "transport c = ?t3"
    using unary_transport [OF c, of ?t0 rh q ?t1 ?t2 ?t3] req
    by (simp add: E transportConstructor_def build_def)
  then have t: "mock (transport c) = b" "invoked (transport c)" "triggered (transport c)"
    and log: "heardLog (transport c) =
      heard_by (requestListener b) (\<lambda>l. RequestHeard l ?url) @
      heard_by (headersListener b) (\<lambda>l. HeadersHeard l rh) @
      heard_by (messageListener b) (\<lambda>l. MessageHeard l (frame_message q)) @
      heard_by (finishSendListener b) FinishSendHeard"
    using b(1) by (simp_all add: build_def Let_def)
  let ?c = "c\<lparr>transport := (transport c)\<lparr>triggered := False\<rparr>\<rparr>"
  let ?tb = "trailer_block M (stub_trailers M b)"
  let ?bs = "map (\<lambda>d. frame_bytes (0, d)) ds @ [frame_bytes (0x80, ?tb)]"
  have tb: "decodeASCII ?tb = Inr (trailer_text (md_entries M (stub_trailers M b)))"
    unfolding trailer_block_def by (rule trailer_block_parse [OF trls(1)])
  then have "length ?tb = length (trailer_text (md_entries M (stub_trailers M b)))"
    by (rule decodeASCII_length)
  then have len: "length ?tb < 2 ^ 32" using frames(2) by simp
  have parse: "parseTrailerData M ?tb = Inr m" using tb trls(2) by (simp add: parseTrailerData_def)
  have bs: "concat ?bs = response_stream ds ?tb" by (simp add: response_stream_def)
  have "at_frame (chunkParser ?c)" using unary_fresh [OF c] by (simp add: fresh_with_def face_def)
  then have dig: "digests E ?bs ?c"
    by (rule response_digested [OF _ frames(1) len bs]) (use msgs parse in \<open>simp_all add: E deserialized_def\<close>)
  obtain d where d: "sendAll E ser ?c = (None, d)"
    "driven E (TransportHeaders (stub_headers M b) 200 # map TransportChunk ?bs @ [TransportEnd]) ?c d"
    by (rule sendAll_driven [of E ds ?c ser]) (use E t b dig in simp_all)
  note driven = driven_changed [OF d(2), unfolded E]
  have "outputs (user d) =
     [\<lparr>out_status = s, out_statusMessage = msg, out_headers = stub_headers M b,
       out_message = (if rs = [] then None else Some (last rs)), out_trailers = md_copy M m\<rparr>]"
    using unary_delivers [OF c [unfolded E] driven ok(1) _ ok(2) frames(1) len bs _ parse, of rs s msg] msgs stat
    by (simp add: deserialized_def)
  with d(1) t(3) log show ?thesis by (simp add: fake_after_def)
qed

section \<open>Injected errors\<close>

text \<open>What \<^verbatim>\<open>new Metadata({...})\<close> is documented to hold.\<close>

definition object_law :: "('m, 'a) metadata_ops \<Rightarrow> bool" where
  "object_law M \<longleftrightarrow>
     (\<forall>kvs k. distinct (map fst kvs) \<longrightarrow>
        md_get M (md_of_obj M kvs) k = (case map_of kvs k of None \<Rightarrow> [] | Some v \<Rightarrow> [v]))"

lemma error_metadata_get:
  assumes "object_law M"
  shows "md_get M (error_metadata M (cd, msg)) (js ''grpc-status'') = [nat_digits (code_num cd)]"
    "md_get M (error_metadata M (cd, msg)) (js ''grpc-message'') = [msg]"
proof -
  let ?kvs = "[(js ''grpc-status'', nat_digits (code_num cd)), (js ''grpc-message'', msg)]"
  have n: "js ''grpc-status'' \<noteq> js ''grpc-message''" by code_simp
  then have "distinct (map fst ?kvs)" by simp
  with assms n show "md_get M (error_metadata M (cd, msg)) (js ''grpc-status'') = [nat_digits (code_num cd)]"
    "md_get M (error_metadata M (cd, msg)) (js ''grpc-message'') = [msg]"
    unfolding object_law_def error_metadata_def fst_conv snd_conv by (simp_all del: js_Cons)
qed

lemma error_metadata_code:
  assumes "object_law M" "cd \<noteq> OK"
  shows "headers_code (getStatusFromHeaders M (error_metadata M (cd, msg))) status = code cd"
proof -
  have "code_num cd \<noteq> 0" using assms(2) by (cases cd) simp_all
  then show ?thesis
    by (simp add: getStatusFromHeaders_def error_metadata_get [OF assms(1)] parseInt_nat_digits
        headers_code_def code_def del: js_Cons)
qed

lemma onTransportEnd_completed: "completed c \<Longrightarrow> onTransportEnd E c = c"
  by (simp add: onTransportEnd_def rawOnEnd_def rawOnError_def Let_def split: option.split)

text \<open>
  A fault injected after the headers: the stubbed messages and trailers are never delivered, and
  the request ends once with the injected status and message; the headers callbacks are invoked a
  second time, with the headers that carry the error.
\<close>

theorem pre_messages_error:
  assumes "observers E" "transportCall E = fake_call" "object_law (metadata E)"
    and "\<not> completed c" "\<not> closed c" "invoked (transport c)"
    and "preHeadersErrorCode (mock (transport c)) = None" "preMessagesError (mock (transport c)) = Some (cd, msg)" "cd \<noteq> OK"
    and "headers_code (getStatusFromHeaders (metadata E) (stub_headers (metadata E) (mock (transport c)))) 200 = code OK"
  shows "fst (sendAll E ser c) = None \<and>
    notified (trace (snd (sendAll E ser c))) =
      notified (trace c) @
      map (\<lambda>cb. (cb, HeadersEv (stub_headers (metadata E) (mock (transport c))))) (onHeadersCallbacks c) @
      map (\<lambda>cb. (cb, HeadersEv (error_metadata (metadata E) (cd, msg)))) (onHeadersCallbacks c) @
      map (\<lambda>cb. (cb, EndEv (code cd) (decodeGRPCStatus (Some msg)) (error_metadata (metadata E) (cd, msg))))
        (onEndCallbacks c)"
proof -
  let ?M = "metadata E" and ?h = "stub_headers (metadata E) (mock (transport c))"
  let ?err = "error_metadata ?M (cd, msg)"
  define c1 where "c1 = onTransportHeaders E ?h 200 c"
  define c2 where "c2 = onTransportHeaders E ?err 200 c1"
  have s: "sendHeaders E c = (Inr True, c1)"
    using sendHeaders_run [of c E] assms by (simp add: c1_def run_def)
  have t: "mock (transport c1) = mock (transport c)" "invoked (transport c1)"
    using run_mock [OF assms(2), of "[TransportHeaders ?h 200]" c] assms(6) by (simp_all add: run_def c1_def)
  have f1: "face c1 = face (c\<lparr>responseHeaders := Some ?h\<rparr>)"
    "notified (trace c1) = notified (trace c) @ to_all (HeadersEv ?h) (onHeadersCallbacks c)"
    using onTransportHeaders_delivers [OF assms(1,4,5) _ assms(10)] by (simp_all add: c1_def)
  then have o: "\<not> completed c1" "\<not> closed c1" "onHeadersCallbacks c1 = onHeadersCallbacks c"
    "onEndCallbacks c1 = onEndCallbacks c"
    using assms(4,5) by (simp_all add: face_def)
  have cd: "code cd \<noteq> code OK" using assms(9) by (cases cd) (simp_all add: code_def)
  note f2 = onTransportHeaders_error [OF assms(1) o(1,2) _ error_metadata_code [OF assms(3,9)] cd, of 200 msg]
  have "sendMessages E ser c1 = (Inr False, onTransportEnd E c2)"
    using t assms(8) by (simp add: sendMessages_def c2_def)
  moreover have "onTransportEnd E c2 = c2"
    using f2(2) by (simp add: onTransportEnd_completed c2_def)
  ultimately have all: "sendAll E ser c = (None, c2)"
    using s assms(6) by (simp add: sendAll_def)
  have m: "first (md_get ?M ?err (js ''grpc-message'')) = Some msg"
    by (simp add: error_metadata_get [OF assms(3)] first_def del: js_Cons)
  show ?thesis using f2(1) unfolding m all by (simp add: c2_def [symmetric] f1 o)
qed

definition fake_demo :: "(assoc, assoc, bytes, bytes, nat, nat, (nat, assoc, bytes) fake) env" where
  "fake_demo =
     \<lparr>metadata = assoc_metadata, hasSlice = True,
      methodDefinition =
        \<lparr>methodName = js ''m'', serviceName = js ''s'', requestStream = False, responseStream = True,
         serializeBinary = Inr, deserializeBinary = Inr\<rparr>,
      transportCall = fake_call, callback = (\<lambda>cb ev n. (n + 1, []))\<rparr>"

definition fake_demo_client :: "(assoc, bytes, nat, nat, (nat, assoc, bytes) fake) client" where
  "fake_demo_client =
     onEnd 2 (onMessage 1 (onHeaders 0 (new_client
       ((build (withMessages [[5]] (withPreMessagesError FailedPrecondition (js ''failed precondition'')
         new_FakeTransportBuilder)))\<lparr>invoked := True\<rparr>) 0)))"

lemma assoc_object_law: "object_law assoc_metadata"
proof -
  have "assoc_get (map (\<lambda>(k, v). (k, [v])) kvs) k = (case map_of kvs k of None \<Rightarrow> [] | Some v \<Rightarrow> [v])" for kvs k
    by (induction kvs) (auto simp: assoc_get_def)
  then show ?thesis by (simp add: object_law_def)
qed

theorem pre_messages_error_witness:
  "map fst (notified (trace (snd (sendAll fake_demo Inr fake_demo_client)))) = [0, 0, 2]"
proof -
  have c: "\<not> completed fake_demo_client" "\<not> closed fake_demo_client" "invoked (transport fake_demo_client)"
    "preHeadersErrorCode (mock (transport fake_demo_client)) = None" "notified (trace fake_demo_client) = []"
    "preMessagesError (mock (transport fake_demo_client)) = Some (FailedPrecondition, js ''failed precondition'')"
    "onHeadersCallbacks fake_demo_client = [0]" "onEndCallbacks fake_demo_client = [2]"
    "stub_headers (metadata fake_demo) (mock (transport fake_demo_client)) = []"
    by (simp_all add: fake_demo_client_def onEnd_def onMessage_def onHeaders_def new_client_def build_def
        withMessages_def withPreMessagesError_def new_FakeTransportBuilder_def stub_headers_def fake_demo_def)
  have "headers_code (getStatusFromHeaders assoc_metadata []) 200 = code OK" by code_simp
  then have "headers_code (getStatusFromHeaders (metadata fake_demo) (stub_headers (metadata fake_demo)
      (mock (transport fake_demo_client)))) 200 = code OK"
    unfolding c(9) by (simp add: fake_demo_def)
  moreover have "observers fake_demo" "transportCall fake_demo = fake_call" "object_law (metadata fake_demo)"
    by (simp_all add: fake_demo_def observers_def assoc_object_law)
  ultimately show ?thesis
    using pre_messages_error [OF _ _ _ c(1-4,6), of fake_demo Inr] c(5,7,8) by simp
qed

text \<open>
  The three framing functions agree: the frames that the fake transport sends as responses, and
  those its exported \<^verbatim>\<open>frameRequest\<close> builds for a test to compare with, are byte for byte the frames
  the client itself sends.
\<close>

theorem fake_frames_agree:
  "frameResponse ser m = frameRequest ser m \<and> fake_frameRequest ser m = frameRequest ser m"
  by (simp add: frameResponse_eq fake_frameRequest_def frameRequest_def frame_message_eq
      frame_message_fold Let_def)

end
