(* ===== verification/Node.thy ===== *)
theory Node
  imports Requests
begin

text \<open>
  \<^verbatim>\<open>client/grpc-web-node-http-transport/src/index.ts\<close>: the transport over Node's \<^verbatim>\<open>http\<close> and
  \<^verbatim>\<open>https\<close> modules.

  Node's \<^verbatim>\<open>ClientRequest\<close> is modelled by the members used.  \<^verbatim>\<open>url.parse\<close> and the errors that
  \<^verbatim>\<open>http.request\<close> may throw for invalid options are parameters (\<open>node_platform\<close>).  How the headers
  of a response become an argument of the metadata constructor is the parameter \<open>to_arg\<close>.
\<close>

section \<open>Buffers\<close>

text \<open>The two copying loops, one assignment per iteration.\<close>

definition toArrayBuffer :: "bytes \<Rightarrow> bytes" where
  "toArrayBuffer buf = foldl (\<lambda>view i. view[i := buf ! i]) (new_buffer (length buf)) [0..<length buf]"

definition toBuffer :: "bytes \<Rightarrow> bytes" where
  "toBuffer ab = foldl (\<lambda>buf i. buf[i := ab ! i]) (new_buffer (length ab)) [0..<length ab]"

section \<open>Headers of a response\<close>

datatype header_value = Single js_string | Several "js_string list"

text \<open>
  The properties a \<^verbatim>\<open>for ... in\<close> visits: name, whether it is an own property, and the value, \<open>None\<close>
  for undefined.
\<close>

type_synonym js_object = "(js_string \<times> bool \<times> header_value option) list"

fun filter_step ::
  "(js_string \<times> header_value) list \<Rightarrow> js_string \<times> bool \<times> header_value option
     \<Rightarrow> (js_string \<times> header_value) list"
where
  "filter_step filteredHeaders (key, hasOwnProperty, val) =
     (if hasOwnProperty
      then (case val of None \<Rightarrow> filteredHeaders | Some v \<Rightarrow> filteredHeaders @ [(key, v)])
      else filteredHeaders)"

definition filterHeadersForUndefined :: "js_object \<Rightarrow> (js_string \<times> header_value) list" where
  "filterHeadersForUndefined hdrs = foldl filter_step [] hdrs"

section \<open>State\<close>

record node_url =
  urlProtocol :: js_string
  urlHostname :: js_string
  urlPort :: js_string
  urlPath :: js_string

record node_options =
  optHost :: js_string
  optPort :: "js_num option"
  optPath :: js_string
  optHeaders :: "(js_string \<times> js_string) list"
  optMethod :: js_string

text \<open>The options of the user that \<^verbatim>\<open>https.request\<close> gets in place of the transport's own.\<close>

record https_options =
  setHost :: "js_string option"
  setPort :: "js_num option option"
  setPath :: "js_string option"
  setHeaders :: "(js_string \<times> js_string) list option"
  setMethod :: "js_string option"

record node_platform =
  url_parse :: "js_string \<Rightarrow> node_url"
  requestError :: "bool \<Rightarrow> node_options \<Rightarrow> js_error option"

record client_request =
  secure :: bool
  options :: node_options
  contentLength :: "nat option"
  written :: bytes
  ended :: bool
  nodeAborted :: bool

record node_transport =
  nodeUrl :: js_string
  nodeUnary :: bool \<comment> \<open>neither stream of the method definition\<close>
  httpsOptions :: "https_options option"
  node_request :: "client_request option"
  responding :: bool \<comment> \<open>the listeners of the response are attached\<close>

definition new_NodeHttp ::
  "('req, 'res) method_definition \<Rightarrow> https_options option \<Rightarrow> js_string \<Rightarrow> node_transport"
where
  "new_NodeHttp md https url =
     \<lparr>nodeUrl = url, nodeUnary = (\<not> requestStream md \<and> \<not> responseStream md), httpsOptions = https,
      node_request = None, responding = False\<rparr>"

definition NodeHttpTransport ::
  "('req, 'res) method_definition \<Rightarrow> https_options option \<Rightarrow> js_string \<Rightarrow> node_transport result"
where
  "NodeHttpTransport md https url = Inr (new_NodeHttp md https url)"

section \<open>Calls of the client\<close>

text \<open>\<^verbatim>\<open>headers[key] = value\<close> on a plain object, and the object spread.\<close>

fun obj_set :: "js_string \<Rightarrow> js_string \<Rightarrow> (js_string \<times> js_string) list \<Rightarrow> (js_string \<times> js_string) list" where
  "obj_set k v [] = [(k, v)]"
| "obj_set k v ((k', v') # kvs) = (if k' = k then (k, v) # kvs else (k', v') # obj_set k v kvs)"

definition node_headers :: "(js_string \<times> js_string list) list \<Rightarrow> (js_string \<times> js_string) list" where
  "node_headers kvs = foldl (\<lambda>hdrs (key, values). obj_set key (js_join (js '', '') values) hdrs) [] kvs"

definition spread :: "node_options \<Rightarrow> https_options option \<Rightarrow> node_options" where
  "spread p https =
     (case https of
        None \<Rightarrow> p
      | Some s \<Rightarrow>
          \<lparr>optHost = (case setHost s of None \<Rightarrow> optHost p | Some v \<Rightarrow> v),
           optPort = (case setPort s of None \<Rightarrow> optPort p | Some v \<Rightarrow> v),
           optPath = (case setPath s of None \<Rightarrow> optPath p | Some v \<Rightarrow> v),
           optHeaders = (case setHeaders s of None \<Rightarrow> optHeaders p | Some v \<Rightarrow> v),
           optMethod = (case setMethod s of None \<Rightarrow> optMethod p | Some v \<Rightarrow> v)\<rparr>)"

definition node_start ::
  "node_platform \<Rightarrow> ('m, 'a) metadata_ops \<Rightarrow> 'm \<Rightarrow> node_transport
     \<Rightarrow> js_error option \<times> node_transport"
where
  "node_start P M md t =
     (let hdrs = node_headers (md_entries M md);
          parsedUrl = url_parse P (nodeUrl t);
          httpOptions =
            \<lparr>optHost = urlHostname parsedUrl,
             optPort = (if urlPort parsedUrl \<noteq> [] then Some (parseInt (urlPort parsedUrl)) else None),
             optPath = urlPath parsedUrl, optHeaders = hdrs, optMethod = js ''POST''\<rparr>;
          https = (urlProtocol parsedUrl = js ''https:'');
          opts = (if https then spread httpOptions (httpsOptions t) else httpOptions)
      in case requestError P https opts of
           Some e \<Rightarrow> (Some e, t)
         | None \<Rightarrow>
             (None, t\<lparr>node_request := Some
                \<lparr>secure = https, options = opts, contentLength = None, written = [], ended = False,
                 nodeAborted = False\<rparr>\<rparr>))"

text \<open>
  \<^verbatim>\<open>setHeader\<close> throws once the request has ended; \<^verbatim>\<open>write\<close> after the end does not throw but
  raises the error event.
\<close>

definition node_sendMessage :: "bytes \<Rightarrow> node_transport \<Rightarrow> js_error option \<times> node_transport" where
  "node_sendMessage msgBytes t =
     (case node_request t of
        None \<Rightarrow> (Some (TypeError (js ''request is undefined'')), t)
      | Some r \<Rightarrow>
          if nodeUnary t \<and> ended r
          then (Some (Error (js ''Cannot set headers after they are sent to the client'')), t)
          else
            (let r = (if nodeUnary t then r\<lparr>contentLength := Some (length msgBytes)\<rparr> else r);
                 r = (if ended r then r else r\<lparr>written := written r @ toBuffer msgBytes, ended := True\<rparr>)
             in (None, t\<lparr>node_request := Some r\<rparr>)))"

definition node_cancel :: "node_transport \<Rightarrow> js_error option \<times> node_transport" where
  "node_cancel t =
     (case node_request t of
        None \<Rightarrow> (Some (TypeError (js ''request is undefined'')), t)
      | Some r \<Rightarrow> (None, t\<lparr>node_request := Some (r\<lparr>nodeAborted := True\<rparr>)\<rparr>))"

fun node_call ::
  "node_platform \<Rightarrow> ('m, 'a) metadata_ops \<Rightarrow> 'm tcall \<Rightarrow> node_transport
     \<Rightarrow> js_error option \<times> node_transport"
where
  "node_call P M (TStart md) t = node_start P M md t"
| "node_call P M (TSend msgBytes) t = node_sendMessage msgBytes t"
| "node_call P M TFinish t = (None, t)"
| "node_call P M TCancel t = node_cancel t"

section \<open>Events\<close>

datatype node_event =
    Response js_object int
  | ResponseData bytes
  | ResponseEnd
  | RequestError

definition node_handle ::
  "((js_string \<times> header_value) list \<Rightarrow> 'a) \<Rightarrow> ('m, 'a, 'req, 'res, 'cb, 'u, node_transport) env
     \<Rightarrow> node_event \<Rightarrow> ('m, 'res, 'cb, 'u, node_transport) client
     \<Rightarrow> ('m, 'res, 'cb, 'u, node_transport) client"
where
  "node_handle to_arg E ev c =
     (if node_request (transport c) = None then c
      else
        case ev of
          Response hdrs statusCode \<Rightarrow>
            (case md_of_arg (metadata E) (to_arg (filterHeadersForUndefined hdrs)) of
               Inl e \<Rightarrow> c
             | Inr h \<Rightarrow>
                 (let c = onTransportHeaders E h statusCode c
                  in c\<lparr>transport := (transport c)\<lparr>responding := True\<rparr>\<rparr>))
        | ResponseData chunk \<Rightarrow>
            if responding (transport c) then snd (onTransportChunk E (toArrayBuffer chunk) c) else c
        | ResponseEnd \<Rightarrow> if responding (transport c) then onTransportEnd E c else c
        | RequestError \<Rightarrow> onTransportEnd E c)"

section \<open>Copying keeps the bytes\<close>

lemma copy_loop:
  "n \<le> length buf \<Longrightarrow> length v = length buf \<Longrightarrow>
     foldl (\<lambda>view i. view[i := buf ! i]) v [0..<n] = take n buf @ drop n v"
proof (induction n)
  case (Suc n)
  then have "(take n buf @ drop n v)[n := buf ! n] = take n buf @ (drop n v)[0 := buf ! n]"
    by (simp add: list_update_append)
  also have "(drop n v)[0 := buf ! n] = buf ! n # drop (Suc n) v"
    using Suc.prems by (simp add: Cons_nth_drop_Suc [symmetric])
  also have "take n buf @ buf ! n # drop (Suc n) v = take (Suc n) buf @ drop (Suc n) v"
    using Suc.prems by (simp add: take_Suc_conv_app_nth)
  finally show ?case using Suc by simp
qed simp

lemma toArrayBuffer_id [simp]: "toArrayBuffer buf = buf"
  by (simp add: toArrayBuffer_def copy_loop new_buffer_def)

lemma toBuffer_id [simp]: "toBuffer ab = ab"
  by (simp add: toBuffer_def copy_loop new_buffer_def)

section \<open>What the client is driven by\<close>

definition node_view :: "node_transport \<Rightarrow> bool \<times> bool" where
  "node_view t = (node_request t \<noteq> None, responding t)"

interpretation node_same: transport_view "node_call P M" node_view for P M
proof unfold_locales
  fix x :: "'a tcall" and t
  assume "\<not> is_start x"
  then show "node_view (snd (node_call P M x t)) = node_view t"
    by (cases x)
      (simp_all add: node_view_def node_sendMessage_def node_cancel_def Let_def split: option.split)
qed

lemma node_step_view:
  assumes "transportCall E = node_call P M" "started c"
  shows "started (step E i c)" "node_view (transport (step E i c)) = node_view (transport c)"
  using node_same.star_view [OF step_micro [OF callbacks_in_any admissible_any] assms(1), of c i] assms(2)
  by simp_all

lemma node_body_driven:
  assumes E: "transportCall E = node_call P M"
  shows "started c \<Longrightarrow> node_view (transport c) = (True, True) \<Longrightarrow>
    driven E (map TransportChunk bs @ [TransportEnd]) c
      (fold (node_handle to_arg E) (map ResponseData bs @ [ResponseEnd]) c)"
proof (induction bs arbitrary: c)
  case Nil
  then have "node_handle to_arg E ResponseEnd c = step E TransportEnd c"
    by (auto simp: node_handle_def node_view_def)
  then show ?case using driven_run [of E "[TransportEnd]" c] by (simp add: run_def)
next
  case (Cons b bs)
  have "node_handle to_arg E (ResponseData b) c = step E (TransportChunk b) c"
    using Cons.prems by (auto simp: node_handle_def node_view_def)
  then have d: "driven E [TransportChunk b] c (node_handle to_arg E (ResponseData b) c)"
    using driven_run [of E "[TransportChunk b]" c] by (simp add: run_def)
  from \<open>node_handle to_arg E (ResponseData b) c = step E (TransportChunk b) c\<close>
    node_step_view [OF E Cons.prems(1), of "TransportChunk b"] Cons.prems(2)
  have "driven E (map TransportChunk bs @ [TransportEnd]) (node_handle to_arg E (ResponseData b) c)
      (fold (node_handle to_arg E) (map ResponseData bs @ [ResponseEnd]) (node_handle to_arg E (ResponseData b) c))"
    by (intro Cons.IH) simp_all
  from driven_append [OF d this] show ?case by simp
qed

lemma node_response_driven:
  assumes E: "transportCall E = node_call P M"
    and c: "started c" "node_request (transport c) \<noteq> None"
    and h: "md_of_arg (metadata E) (to_arg (filterHeadersForUndefined hdrs)) = Inr h"
  shows "driven E (TransportHeaders h status # map TransportChunk bs @ [TransportEnd]) c
    (fold (node_handle to_arg E) (Response hdrs status # map ResponseData bs @ [ResponseEnd]) c)"
proof -
  let ?d = "step E (TransportHeaders h status) c"
  let ?c = "node_handle to_arg E (Response hdrs status) c"
  have eq: "?c = ?d\<lparr>transport := (transport ?d)\<lparr>responding := True\<rparr>\<rparr>"
    using c(2) h by (auto simp: node_handle_def Let_def)
  have "driven E [TransportHeaders h status] c ?d"
    using driven_run [of E "[TransportHeaders h status]" c] by (simp add: run_def)
  then have d: "driven E [TransportHeaders h status] c ?c"
    unfolding eq by (rule driven_then_change)
  have "started ?c" "node_view (transport ?c) = (True, True)"
    using node_step_view [OF E c(1), of "TransportHeaders h status"] c(2)
    by (simp_all add: eq node_view_def del: step.simps)
  from driven_append [OF d node_body_driven [OF E this]] show ?thesis by simp
qed

section \<open>unary over Node\<close>

lemma node_start_request:
  assumes "node_start P M m (new_NodeHttp md https url) = (None, t)"
  obtains r where "node_request t = Some r" "nodeUnary t = (\<not> requestStream md \<and> \<not> responseStream md)"
    "written r = []" "\<not> ended r" "optHeaders (options r) = node_headers (md_entries M m) \<or> secure r \<and> https \<noteq> None"
  using assms
  by (auto simp: node_start_def new_NodeHttp_def spread_def Let_def split: option.splits if_splits)

lemma node_unary:
  assumes E: "E = unary_env M sl md (node_call P M) body"
    and c: "unary E (Some (NodeHttpTransport md https)) df host request arg u = (e, Some c)"
    and req: "requestHeaders_of M arg = Inr rh" "serializeBinary md request = Inr q"
      "node_start P M rh (new_NodeHttp md https (request_url host md)) = (None, t1)"
    and ok: "bodies_in observing body"
      "md_of_arg M (to_arg (filterHeadersForUndefined hdrs)) = Inr h"
    and hd: "status \<noteq> 0" "headers_code (getStatusFromHeaders M h) status = code OK"
    and frames: "list_all (\<lambda>d. length d < 2 ^ 32) ds" "length t < 2 ^ 32" "concat bs = response_stream ds t"
    and msgs: "list_all2 (\<lambda>d r. deserializeBinary md d = Inr r) ds rs" "parseTrailerData M t = Inr m"
    and stat: "status_of M (md_copy M m) = Some (s, msg)"
  shows "(\<exists>r. node_request (transport c) = Some r \<and> written r = frame_message q \<and> ended r \<and>
      contentLength r = Some (length q + 5) \<and>
      (optHeaders (options r) = node_headers (md_entries M rh) \<or> secure r \<and> https \<noteq> None)) \<and>
    outputs (user (fold (node_handle to_arg E)
        (Response hdrs status # map ResponseData bs @ [ResponseEnd]) c)) =
     [\<lparr>out_status = s, out_statusMessage = msg, out_headers = h,
       out_message = (if rs = [] then None else Some (last rs)), out_trailers = md_copy M m\<rparr>]"
proof -
  let ?url = "request_url host md"
  have un: "\<not> requestStream md" "\<not> responseStream md"
    using c by (auto simp: unary_def E split: if_splits)
  from req(3) obtain r where r: "node_request t1 = Some r" "nodeUnary t1" "written r = []" "\<not> ended r"
    "optHeaders (options r) = node_headers (md_entries M rh) \<or> secure r \<and> https \<noteq> None"
    by (rule node_start_request) (use un in simp)
  let ?r = "r\<lparr>contentLength := Some (length q + 5), written := frame_message q, ended := True\<rparr>"
  let ?t = "t1\<lparr>node_request := Some ?r\<rparr>"
  have "length (frame_message q) = length q + 5" by (simp add: frame_message_eq)
  then have "node_sendMessage (frame_message q) t1 = (None, ?t)"
    using r(1-4) by (simp add: node_sendMessage_def)
  then have t: "started c" "transport c = ?t"
    using unary_transport [OF c, of "new_NodeHttp md https ?url" rh q t1 ?t ?t] req
    by (simp_all add: E NodeHttpTransport_def)
  have "driven E (TransportHeaders h status # map TransportChunk bs @ [TransportEnd]) c
      (fold (node_handle to_arg E) (Response hdrs status # map ResponseData bs @ [ResponseEnd]) c)"
    by (rule node_response_driven) (use E t ok(2) in simp_all)
  from unary_delivers [OF c [unfolded E] this [unfolded E] ok(1) hd frames _ msgs(2) stat] msgs(1) t(2) r(5)
  show ?thesis by (simp add: E deserialized_def)
qed

end
