(* ===== verification/Protobuf.thy ===== *)
theory Protobuf
  imports JsStdlib
begin

text \<open>
  \<^verbatim>\<open>google-protobuf\<close> (\<^verbatim>\<open>jspb\<close>), on which the message classes that \<^verbatim>\<open>protoc\<close> generates
  stand, is not part of the repository.  It is a parameter: the record \<open>jspb_ops\<close> of the
  operations that the generated code calls, with the behaviour the protocol buffers
  documentation gives them as the laws of the locale \<open>jspb\<close>.  \<open>wire_jspb\<close> is an executable
  instance over the real wire format (variable-length integers, tagged fields), on which the
  witnesses are evaluated.
\<close>

section \<open>Values, fields and operations\<close>

text \<open>What a field of a message holds, as JavaScript sees it; and the field on the wire.\<close>

datatype field_value = NumberValue js_num | StringValue js_string

datatype wire_value =
    Value field_value
  | Other bytes \<comment> \<open>a wire type that the generated code never reads, only skips\<close>

type_synonym wire_field = "nat \<times> wire_value"

text \<open>
  Objects are passed and returned.  An operation of a reader or writer may throw; reader,
  writer and the message being read are local to the call that made them, so what they hold
  after a throw is not seen.
\<close>

record ('g, 'r, 'w) jspb_ops =
  initialize :: "field_value option list option \<Rightarrow> 'g"
    \<comment> \<open>\<^verbatim>\<open>jspb.Message.initialize(this, opt_data, 0, -1, null, null)\<close> on a new object\<close>
  getFieldWithDefault :: "'g \<Rightarrow> nat \<Rightarrow> field_value \<Rightarrow> field_value"
  setProto3IntField :: "'g \<Rightarrow> nat \<Rightarrow> field_value \<Rightarrow> 'g"
  setProto3StringField :: "'g \<Rightarrow> nat \<Rightarrow> field_value \<Rightarrow> 'g"
  new_BinaryReader :: "bytes \<Rightarrow> 'r"
  nextField :: "'r \<Rightarrow> (bool \<times> 'r) result"
  isEndGroup :: "'r \<Rightarrow> bool"
  getFieldNumber :: "'r \<Rightarrow> nat"
  readInt64 :: "'r \<Rightarrow> (field_value \<times> 'r) result"
  readString :: "'r \<Rightarrow> (field_value \<times> 'r) result"
  skipField :: "'r \<Rightarrow> 'r result"
  new_BinaryWriter :: 'w
  writeInt64 :: "nat \<Rightarrow> field_value \<Rightarrow> 'w \<Rightarrow> 'w result"
  writeString :: "nat \<Rightarrow> field_value \<Rightarrow> 'w \<Rightarrow> 'w result"
  getResultBuffer :: "'w \<Rightarrow> bytes result"

abbreviation zero :: field_value where
  "zero \<equiv> NumberValue (Num 0)"

abbreviation empty_string :: field_value where
  "empty_string \<equiv> StringValue []"

section \<open>The laws of the package\<close>

text \<open>
  \<open>reads r fs\<close>: the fields left to a reader; \<open>at_value r v fs\<close>: it stands before the value
  \<open>v\<close> of a field whose number it has read; \<open>wrote w fs\<close>: what a writer holds.  A value is
  \<open>encodable\<close> when the wire format keeps it: an integer that a double holds exactly, a
  well-formed string.
\<close>

locale jspb =
  fixes J :: "('g, 'r, 'w) jspb_ops"
    and reads :: "'r \<Rightarrow> wire_field list \<Rightarrow> bool"
    and at_value :: "'r \<Rightarrow> wire_value \<Rightarrow> wire_field list \<Rightarrow> bool"
    and wrote :: "'w \<Rightarrow> wire_field list \<Rightarrow> bool"
    and encodable :: "field_value \<Rightarrow> bool"
  assumes new_get: "getFieldWithDefault J (initialize J None) n d = d"
    and data_get: "getFieldWithDefault J (initialize J (Some xs)) (Suc i) d =
      (if i < length xs then (case xs ! i of Some v \<Rightarrow> v | None \<Rightarrow> d) else d)"
    and int_get: "getFieldWithDefault J (setProto3IntField J g n v) k d =
      (if k = n then (if v = zero then d else v) else getFieldWithDefault J g k d)"
    and string_get: "getFieldWithDefault J (setProto3StringField J g n v) k d =
      (if k = n then (if v = empty_string then d else v) else getFieldWithDefault J g k d)"
    and next_end: "reads r [] \<Longrightarrow>
      \<exists>found q. nextField J r = Inr (found, q) \<and> (found \<longrightarrow> isEndGroup J q)"
    and next_field: "reads r ((n, u) # fs) \<Longrightarrow>
      \<exists>q. nextField J r = Inr (True, q) \<and> \<not> isEndGroup J q \<and> getFieldNumber J q = n \<and> at_value q u fs"
    and read_int: "at_value q (Value (NumberValue x)) fs \<Longrightarrow>
      \<exists>r. readInt64 J q = Inr (NumberValue x, r) \<and> reads r fs"
    and read_string: "at_value q (Value (StringValue s)) fs \<Longrightarrow>
      \<exists>r. readString J q = Inr (StringValue s, r) \<and> reads r fs"
    and skip: "at_value q u fs \<Longrightarrow> \<exists>r. skipField J q = Inr r \<and> reads r fs"
    and read_int_refuses: "at_value q u fs \<Longrightarrow> \<nexists>x. u = Value (NumberValue x) \<Longrightarrow>
      \<exists>e. readInt64 J q = Inl e"
    and read_string_refuses: "at_value q u fs \<Longrightarrow> \<nexists>s. u = Value (StringValue s) \<Longrightarrow>
      \<exists>e. readString J q = Inl e"
    and write_nothing: "wrote (new_BinaryWriter J) []"
    and write_int: "wrote w fs \<Longrightarrow> 0 < n \<Longrightarrow> encodable (NumberValue x) \<Longrightarrow>
      \<exists>w'. writeInt64 J n (NumberValue x) w = Inr w' \<and> wrote w' (fs @ [(n, Value (NumberValue x))])"
    and write_string: "wrote w fs \<Longrightarrow> 0 < n \<Longrightarrow> encodable (StringValue s) \<Longrightarrow>
      \<exists>w'. writeString J n (StringValue s) w = Inr w' \<and> wrote w' (fs @ [(n, Value (StringValue s))])"
    and read_back: "wrote w fs \<Longrightarrow> \<exists>b. getResultBuffer J w = Inr b \<and> reads (new_BinaryReader J b) fs"

section \<open>The shape of a generated class\<close>

text \<open>
  The loop that every generated \<^verbatim>\<open>deserializeBinaryFromReader\<close> is, up to the \<^verbatim>\<open>switch\<close> in its
  body, which \<open>on_field\<close> stands for.  A reader that always finds another field would keep it
  running: then it has no value.
\<close>

partial_function (option) read_loop ::
  "('g, 'r, 'w) jspb_ops \<Rightarrow> (nat \<Rightarrow> 'g \<Rightarrow> 'r \<Rightarrow> ('g \<times> 'r) result) \<Rightarrow> 'g \<Rightarrow> 'r \<Rightarrow> 'g result option"
where
  "read_loop J on_field msg reader =
     (case nextField J reader of
        Inl e \<Rightarrow> Some (Inl e)
      | Inr (found, reader) \<Rightarrow>
          if \<not> found then Some (Inr msg)
          else if isEndGroup J reader then Some (Inr msg)
          else
            case on_field (getFieldNumber J reader) msg reader of
              Inl e \<Rightarrow> Some (Inl e)
            | Inr (msg, reader) \<Rightarrow> read_loop J on_field msg reader)"

declare read_loop.simps [code]

text \<open>\<^verbatim>\<open>f.length > 0\<close>: on a number, \<^verbatim>\<open>length\<close> is undefined and the comparison false.\<close>

fun length_positive :: "field_value \<Rightarrow> bool" where
  "length_positive (StringValue s) = (s \<noteq> [])"
| "length_positive (NumberValue _) = False"

text \<open>The fields of a class as its \<^verbatim>\<open>.proto\<close> file declares them, for the specification.\<close>

datatype field_kind = Int64Field | StringField

fun default_of :: "field_kind \<Rightarrow> field_value" where
  "default_of Int64Field = zero"
| "default_of StringField = empty_string"

fun of_kind :: "field_kind \<Rightarrow> field_value \<Rightarrow> bool" where
  "of_kind Int64Field (NumberValue _) = True"
| "of_kind StringField (StringValue _) = True"
| "of_kind _ _ = False"

type_synonym schema = "(nat \<times> field_kind) list"

text \<open>The value of a field after reading: the last one on the wire, else the one before.\<close>

fun last_value :: "nat \<Rightarrow> wire_field list \<Rightarrow> field_value \<Rightarrow> field_value" where
  "last_value n [] d = d"
| "last_value n ((k, Value v) # fs) d = last_value n fs (if k = n then v else d)"
| "last_value n ((k, Other _) # fs) d = last_value n fs d"

text \<open>Known fields have the type the schema gives them; others are free.\<close>

definition conforms :: "schema \<Rightarrow> wire_field \<Rightarrow> bool" where
  "conforms S f \<longleftrightarrow>
     (case map_of S (fst f) of
        None \<Rightarrow> True
      | Some k \<Rightarrow> (case snd f of Value v \<Rightarrow> of_kind k v | Other _ \<Rightarrow> False))"

definition wire_fields :: "('g, 'r, 'w) jspb_ops \<Rightarrow> schema \<Rightarrow> 'g \<Rightarrow> wire_field list" where
  "wire_fields J S g =
     [(n, Value (getFieldWithDefault J g n (default_of k))).
        (n, k) \<leftarrow> S, getFieldWithDefault J g n (default_of k) \<noteq> default_of k]"

definition well_typed ::
  "('g, 'r, 'w) jspb_ops \<Rightarrow> (field_value \<Rightarrow> bool) \<Rightarrow> schema \<Rightarrow> 'g \<Rightarrow> bool"
where
  "well_typed J encodable S g \<longleftrightarrow>
     (\<forall>(n, k) \<in> set S. of_kind k (getFieldWithDefault J g n (default_of k)) \<and>
        encodable (getFieldWithDefault J g n (default_of k)))"

text \<open>
  What a generated class promises, for the schema it was generated from: its switch reads each
  known field with the reader of its type and skips the others, and its writer writes the
  fields that do not have their default value.
\<close>

locale message_class = jspb J reads at_value wrote encodable
  for J :: "('g, 'r, 'w) jspb_ops" and reads at_value wrote encodable +
  fixes S :: schema
    and on_field :: "nat \<Rightarrow> 'g \<Rightarrow> 'r \<Rightarrow> ('g \<times> 'r) result"
    and to_writer :: "'g \<Rightarrow> 'w \<Rightarrow> 'w result"
  assumes numbers: "distinct (map fst S)"
    and on_int: "map_of S n = Some Int64Field \<Longrightarrow> on_field n g q =
      js_bind (readInt64 J q) (\<lambda>(v, r). Inr (setProto3IntField J g n v, r))"
    and on_string: "map_of S n = Some StringField \<Longrightarrow> on_field n g q =
      js_bind (readString J q) (\<lambda>(v, r). Inr (setProto3StringField J g n v, r))"
    and on_unknown: "map_of S n = None \<Longrightarrow> on_field n g q =
      js_bind (skipField J q) (\<lambda>r. Inr (g, r))"
    and writes: "well_typed J encodable S g \<Longrightarrow> wrote w fs \<Longrightarrow>
      \<exists>w'. to_writer g w = Inr w' \<and> wrote w' (fs @ wire_fields J S g)"
begin

definition field :: "'g \<Rightarrow> nat \<times> field_kind \<Rightarrow> field_value" where
  "field g = (\<lambda>(n, k). getFieldWithDefault J g n (default_of k))"

lemma on_field_conforms:
  assumes "at_value q u fs" "conforms S (n, u)"
  shows "\<exists>g' r. on_field n g q = Inr (g', r) \<and> reads r fs \<and>
    (\<forall>(k, t) \<in> set S. field g' (k, t) = last_value k [(n, u)] (field g (k, t)))"
proof (cases "map_of S n")
  case None
  then have "\<forall>t. (n, t) \<notin> set S" by (auto simp: map_of_eq_None_iff image_iff)
  with None skip [OF assms(1)] show ?thesis
    by (cases u) (auto simp: on_unknown)
next
  case (Some t)
  have unique: "t' = t" if "(n, t') \<in> set S" for t'
    using Some that numbers by (metis map_of_is_SomeI option.inject)
  show ?thesis
  proof (cases t)
    case Int64Field
    with assms(2) Some obtain x where u: "u = Value (NumberValue x)"
      by (auto simp: conforms_def split: wire_value.splits elim: of_kind.elims)
    from read_int [OF assms(1) [unfolded u]] on_int [of n g q] Some Int64Field u unique show ?thesis
      by (fastforce simp: field_def int_get)
  next
    case StringField
    with assms(2) Some obtain x where u: "u = Value (StringValue x)"
      by (auto simp: conforms_def split: wire_value.splits elim: of_kind.elims)
    from read_string [OF assms(1) [unfolded u]] on_string [of n g q] Some StringField u unique show ?thesis
      by (fastforce simp: field_def string_get)
  qed
qed

lemma on_field_refuses:
  assumes "at_value q u fs" "\<not> conforms S (n, u)"
  shows "\<exists>e. on_field n g q = Inl e"
proof -
  from assms(2) obtain t where t: "map_of S n = Some t"
    "case u of Value v \<Rightarrow> \<not> of_kind t v | Other _ \<Rightarrow> True"
    by (auto simp: conforms_def split: option.splits wire_value.splits)
  show ?thesis
  proof (cases t)
    case Int64Field
    with t have "\<nexists>x. u = Value (NumberValue x)" by auto
    from read_int_refuses [OF assms(1) this] t Int64Field show ?thesis by (auto simp: on_int)
  next
    case StringField
    with t have "\<nexists>x. u = Value (StringValue x)" by auto
    from read_string_refuses [OF assms(1) this] t StringField show ?thesis by (auto simp: on_string)
  qed
qed

lemma read_loop_end: "reads r [] \<Longrightarrow> read_loop J on_field g r = Some (Inr g)"
  by (subst read_loop.simps) (auto dest: next_end)

lemma read_loop_field:
  assumes "reads r ((n, u) # fs)"
  obtains q where "at_value q u fs"
    "read_loop J on_field g r =
       (case on_field n g q of Inl e \<Rightarrow> Some (Inl e) | Inr (g', r') \<Rightarrow> read_loop J on_field g' r')"
  using next_field [OF assms] by (auto simp: read_loop.simps [of J on_field g r])

lemma last_value_Cons: "last_value n (f # fs) d = last_value n fs (last_value n [f] d)"
  by (cases f; cases "snd f") auto

lemma read_loop_conforms:
  "reads r fs \<Longrightarrow> list_all (conforms S) fs \<Longrightarrow>
     \<exists>g'. read_loop J on_field g r = Some (Inr g') \<and>
       (\<forall>(k, t) \<in> set S. field g' (k, t) = last_value k fs (field g (k, t)))"
proof (induction fs arbitrary: r g)
  case Nil
  then show ?case by (auto simp: read_loop_end)
next
  case (Cons f fs)
  obtain n u where f: "f = (n, u)" by fastforce
  obtain q where q: "at_value q u fs" "read_loop J on_field g r =
      (case on_field n g q of Inl e \<Rightarrow> Some (Inl e) | Inr (g', r') \<Rightarrow> read_loop J on_field g' r')"
    by (rule read_loop_field [OF Cons.prems(1) [unfolded f]])
  from on_field_conforms [OF q(1), of n g] Cons.prems(2) f obtain g1 r1 where
    g1: "on_field n g q = Inr (g1, r1)" "reads r1 fs"
    "\<forall>(k, t) \<in> set S. field g1 (k, t) = last_value k [(n, u)] (field g (k, t))" by auto
  from Cons.IH [OF g1(2), of g1] Cons.prems(2) obtain g2 where
    "read_loop J on_field g1 r1 = Some (Inr g2)"
    "\<forall>(k, t) \<in> set S. field g2 (k, t) = last_value k fs (field g1 (k, t))" by auto
  with q(2) g1 show ?case
    unfolding f by (fastforce simp: last_value_Cons [of _ "(n, u)" fs])
qed

lemma read_loop_refuses:
  "reads r (fs @ (n, u) # rest) \<Longrightarrow> list_all (conforms S) fs \<Longrightarrow> \<not> conforms S (n, u) \<Longrightarrow>
     \<exists>e. read_loop J on_field g r = Some (Inl e)"
proof (induction fs arbitrary: r g)
  case Nil
  obtain q where q: "at_value q u rest" "read_loop J on_field g r =
      (case on_field n g q of Inl e \<Rightarrow> Some (Inl e) | Inr (g', r') \<Rightarrow> read_loop J on_field g' r')"
    by (rule read_loop_field) (use Nil.prems(1) in simp)
  with on_field_refuses [OF q(1) Nil.prems(3), of g] show ?case by auto
next
  case (Cons f fs)
  obtain k v where f: "f = (k, v)" by fastforce
  obtain q where q: "at_value q v (fs @ (n, u) # rest)" "read_loop J on_field g r =
      (case on_field k g q of Inl e \<Rightarrow> Some (Inl e) | Inr (g', r') \<Rightarrow> read_loop J on_field g' r')"
    by (rule read_loop_field) (use Cons.prems(1) f in simp)
  from on_field_conforms [OF q(1), of k g] Cons.prems(2) f obtain g1 r1 where
    "on_field k g q = Inr (g1, r1)" "reads r1 (fs @ (n, u) # rest)" by auto
  with q(2) Cons.IH [of r1 g1] Cons.prems(2,3) show ?case by simp
qed

lemma read_loop_returns:
  assumes "reads r fs"
  shows "\<exists>x. read_loop J on_field g r = Some x"
proof (cases "list_all (conforms S) fs")
  case True
  with read_loop_conforms [OF assms] show ?thesis by blast
next
  case False
  then have "\<exists>f \<in> set fs. \<not> conforms S f" by (simp add: list_all_iff)
  from split_list_first_prop [OF this] obtain xs f ys where fs: "fs = xs @ f # ys"
    "\<not> conforms S f" "\<forall>y \<in> set xs. \<not> \<not> conforms S y" by blast
  with read_loop_refuses [of r xs "fst f" "snd f" ys g] assms show ?thesis
    by (auto simp: list_all_iff)
qed

text \<open>A message that is written and read into a new one has the same fields.\<close>

lemma last_value_none: "n \<notin> fst ` set fs \<Longrightarrow> last_value n fs d = d"
  by (induction n fs d rule: last_value.induct) auto

lemma wire_fields_numbers: "fst ` set (wire_fields J S g) \<subseteq> fst ` set S"
  by (force simp: wire_fields_def)

lemma last_value_wire_fields:
  "distinct (map fst T) \<Longrightarrow> (n, k) \<in> set T \<Longrightarrow>
     last_value n (wire_fields J T g) (default_of k) = getFieldWithDefault J g n (default_of k)"
proof (induction T)
  case (Cons t T)
  obtain m l where t: "t = (m, l)" by fastforce
  have rest: "fst ` set (wire_fields J T g) \<subseteq> fst ` set T"
    by (force simp: wire_fields_def)
  have w: "wire_fields J (t # T) g =
      (if getFieldWithDefault J g m (default_of l) \<noteq> default_of l
       then [(m, Value (getFieldWithDefault J g m (default_of l)))] else []) @ wire_fields J T g"
    by (simp add: wire_fields_def t)
  show ?case
  proof (cases "m = n")
    case True
    with Cons.prems t have "k = l" "n \<notin> fst ` set T" by (auto simp: image_iff)
    with rest have "n \<notin> fst ` set (wire_fields J T g)" by auto
    with True \<open>k = l\<close> show ?thesis by (simp add: w last_value_none)
  next
    case False
    with Cons.prems t have "(n, k) \<in> set T" "distinct (map fst T)" by auto
    from Cons.IH [OF this(2,1)] False show ?thesis by (simp add: w)
  qed
qed simp

lemma wire_fields_conform:
  assumes "well_typed J encodable S g"
  shows "list_all (conforms S) (wire_fields J S g)"
proof -
  have "map_of S n = Some k" if "(n, k) \<in> set S" for n k
    using that numbers by simp
  with assms show ?thesis
    by (auto simp: wire_fields_def list_all_iff conforms_def well_typed_def)
qed

lemma new_field: "field (initialize J None) (n, k) = default_of k"
  by (simp add: field_def new_get)

lemma round_trip:
  assumes "well_typed J encodable S g"
  shows "\<exists>w b g'. to_writer g (new_BinaryWriter J) = Inr w \<and> getResultBuffer J w = Inr b \<and>
    read_loop J on_field (initialize J None) (new_BinaryReader J b) = Some (Inr g') \<and>
    (\<forall>f \<in> set S. field g' f = field g f)"
proof -
  from writes [OF assms write_nothing] obtain w where
    w: "to_writer g (new_BinaryWriter J) = Inr w" "wrote w (wire_fields J S g)" by auto
  from read_back [OF w(2)] obtain b where
    b: "getResultBuffer J w = Inr b" "reads (new_BinaryReader J b) (wire_fields J S g)" by blast
  from read_loop_conforms [OF b(2) wire_fields_conform [OF assms], of "initialize J None"] obtain g'
    where "read_loop J on_field (initialize J None) (new_BinaryReader J b) = Some (Inr g')"
      "\<forall>(k, t) \<in> set S. field g' (k, t) = last_value k (wire_fields J S g) (default_of t)"
    by (auto simp: new_field)
  with w b last_value_wire_fields [OF numbers, of _ _ g] show ?thesis
    by (fastforce simp: field_def)
qed

end

end
