(* ===== verification/BookMessages.thy ===== *)
theory BookMessages
  imports Protobuf
begin

text \<open>
  \<^verbatim>\<open>grpc-web-react-example/ts/_proto/examplecom/library/book_service_pb.js\<close>: the message
  classes \<^verbatim>\<open>Book\<close>, \<^verbatim>\<open>GetBookRequest\<close> and \<^verbatim>\<open>QueryBooksRequest\<close> that \<^verbatim>\<open>protoc\<close> generated for the
  example service, each with its constructor, accessors, \<^verbatim>\<open>toObject\<close>, reader and writer, over
  the operations \<open>J\<close> of \<^verbatim>\<open>google-protobuf\<close>.  Each is shown to be a \<open>message_class\<close> for its
  schema, from which its round trip and its reading of foreign messages follow.
\<close>

section \<open>Book\<close>

definition new_Book :: "('g, 'r, 'w) jspb_ops \<Rightarrow> field_value option list option \<Rightarrow> 'g" where
  "new_Book J opt_data = initialize J opt_data"

definition Book_getIsbn :: "('g, 'r, 'w) jspb_ops \<Rightarrow> 'g \<Rightarrow> field_value" where
  "Book_getIsbn J this = getFieldWithDefault J this 1 zero"

definition Book_setIsbn :: "('g, 'r, 'w) jspb_ops \<Rightarrow> field_value \<Rightarrow> 'g \<Rightarrow> 'g" where
  "Book_setIsbn J val this = setProto3IntField J this 1 val"

definition Book_getTitle :: "('g, 'r, 'w) jspb_ops \<Rightarrow> 'g \<Rightarrow> field_value" where
  "Book_getTitle J this = getFieldWithDefault J this 2 empty_string"

definition Book_setTitle :: "('g, 'r, 'w) jspb_ops \<Rightarrow> field_value \<Rightarrow> 'g \<Rightarrow> 'g" where
  "Book_setTitle J val this = setProto3StringField J this 2 val"

definition Book_getAuthor :: "('g, 'r, 'w) jspb_ops \<Rightarrow> 'g \<Rightarrow> field_value" where
  "Book_getAuthor J this = getFieldWithDefault J this 3 empty_string"

definition Book_setAuthor :: "('g, 'r, 'w) jspb_ops \<Rightarrow> field_value \<Rightarrow> 'g \<Rightarrow> 'g" where
  "Book_setAuthor J val this = setProto3StringField J this 3 val"

record 'g Book_object =
  book_isbn :: field_value
  book_title :: field_value
  book_author :: field_value
  book_instance :: "'g option" \<comment> \<open>\<^verbatim>\<open>$jspbMessageInstance\<close>\<close>

definition Book_toObject :: "('g, 'r, 'w) jspb_ops \<Rightarrow> bool \<Rightarrow> 'g \<Rightarrow> 'g Book_object" where
  "Book_toObject J includeInstance msg =
     (let obj = \<lparr>book_isbn = getFieldWithDefault J msg 1 zero,
                 book_title = getFieldWithDefault J msg 2 empty_string,
                 book_author = getFieldWithDefault J msg 3 empty_string,
                 book_instance = None\<rparr>
      in if includeInstance then obj\<lparr>book_instance := Some msg\<rparr> else obj)"

text \<open>The \<^verbatim>\<open>switch\<close> in the loop, and the loop.\<close>

definition Book_on_field ::
  "('g, 'r, 'w) jspb_ops \<Rightarrow> nat \<Rightarrow> 'g \<Rightarrow> 'r \<Rightarrow> ('g \<times> 'r) result"
where
  "Book_on_field J fld msg reader =
     (if fld = 1 then js_bind (readInt64 J reader) (\<lambda>(val, reader). Inr (Book_setIsbn J val msg, reader))
      else if fld = 2 then js_bind (readString J reader) (\<lambda>(val, reader). Inr (Book_setTitle J val msg, reader))
      else if fld = 3 then js_bind (readString J reader) (\<lambda>(val, reader). Inr (Book_setAuthor J val msg, reader))
      else js_bind (skipField J reader) (\<lambda>reader. Inr (msg, reader)))"

definition Book_deserializeBinaryFromReader ::
  "('g, 'r, 'w) jspb_ops \<Rightarrow> 'g \<Rightarrow> 'r \<Rightarrow> 'g result option"
where
  "Book_deserializeBinaryFromReader J msg reader = read_loop J (Book_on_field J) msg reader"

definition Book_deserializeBinary :: "('g, 'r, 'w) jspb_ops \<Rightarrow> bytes \<Rightarrow> 'g result option" where
  "Book_deserializeBinary J b =
     (let reader = new_BinaryReader J b;
          msg = new_Book J None
      in Book_deserializeBinaryFromReader J msg reader)"

definition Book_serializeBinaryToWriter :: "('g, 'r, 'w) jspb_ops \<Rightarrow> 'g \<Rightarrow> 'w \<Rightarrow> 'w result" where
  "Book_serializeBinaryToWriter J msg writer =
     js_bind (let f = Book_getIsbn J msg in
              if f \<noteq> zero then writeInt64 J 1 f writer else Inr writer) (\<lambda>writer.
     js_bind (let f = Book_getTitle J msg in
              if length_positive f then writeString J 2 f writer else Inr writer) (\<lambda>writer.
     (let f = Book_getAuthor J msg in
      if length_positive f then writeString J 3 f writer else Inr writer)))"

definition Book_serializeBinary :: "('g, 'r, 'w) jspb_ops \<Rightarrow> 'g \<Rightarrow> bytes result" where
  "Book_serializeBinary J this =
     js_bind (Book_serializeBinaryToWriter J this (new_BinaryWriter J)) (getResultBuffer J)"

section \<open>GetBookRequest\<close>

definition new_GetBookRequest :: "('g, 'r, 'w) jspb_ops \<Rightarrow> field_value option list option \<Rightarrow> 'g" where
  "new_GetBookRequest J opt_data = initialize J opt_data"

definition GetBookRequest_getIsbn :: "('g, 'r, 'w) jspb_ops \<Rightarrow> 'g \<Rightarrow> field_value" where
  "GetBookRequest_getIsbn J this = getFieldWithDefault J this 1 zero"

definition GetBookRequest_setIsbn :: "('g, 'r, 'w) jspb_ops \<Rightarrow> field_value \<Rightarrow> 'g \<Rightarrow> 'g" where
  "GetBookRequest_setIsbn J val this = setProto3IntField J this 1 val"

record 'g GetBookRequest_object =
  request_isbn :: field_value
  request_instance :: "'g option"

definition GetBookRequest_toObject ::
  "('g, 'r, 'w) jspb_ops \<Rightarrow> bool \<Rightarrow> 'g \<Rightarrow> 'g GetBookRequest_object"
where
  "GetBookRequest_toObject J includeInstance msg =
     (let obj = \<lparr>request_isbn = getFieldWithDefault J msg 1 zero, request_instance = None\<rparr>
      in if includeInstance then obj\<lparr>request_instance := Some msg\<rparr> else obj)"

definition GetBookRequest_on_field ::
  "('g, 'r, 'w) jspb_ops \<Rightarrow> nat \<Rightarrow> 'g \<Rightarrow> 'r \<Rightarrow> ('g \<times> 'r) result"
where
  "GetBookRequest_on_field J fld msg reader =
     (if fld = 1
      then js_bind (readInt64 J reader) (\<lambda>(val, reader). Inr (GetBookRequest_setIsbn J val msg, reader))
      else js_bind (skipField J reader) (\<lambda>reader. Inr (msg, reader)))"

definition GetBookRequest_deserializeBinaryFromReader ::
  "('g, 'r, 'w) jspb_ops \<Rightarrow> 'g \<Rightarrow> 'r \<Rightarrow> 'g result option"
where
  "GetBookRequest_deserializeBinaryFromReader J msg reader =
     read_loop J (GetBookRequest_on_field J) msg reader"

definition GetBookRequest_deserializeBinary ::
  "('g, 'r, 'w) jspb_ops \<Rightarrow> bytes \<Rightarrow> 'g result option"
where
  "GetBookRequest_deserializeBinary J b =
     (let reader = new_BinaryReader J b;
          msg = new_GetBookRequest J None
      in GetBookRequest_deserializeBinaryFromReader J msg reader)"

definition GetBookRequest_serializeBinaryToWriter ::
  "('g, 'r, 'w) jspb_ops \<Rightarrow> 'g \<Rightarrow> 'w \<Rightarrow> 'w result"
where
  "GetBookRequest_serializeBinaryToWriter J msg writer =
     (let f = GetBookRequest_getIsbn J msg in
      if f \<noteq> zero then writeInt64 J 1 f writer else Inr writer)"

definition GetBookRequest_serializeBinary :: "('g, 'r, 'w) jspb_ops \<Rightarrow> 'g \<Rightarrow> bytes result" where
  "GetBookRequest_serializeBinary J this =
     js_bind (GetBookRequest_serializeBinaryToWriter J this (new_BinaryWriter J)) (getResultBuffer J)"

section \<open>QueryBooksRequest\<close>

definition new_QueryBooksRequest :: "('g, 'r, 'w) jspb_ops \<Rightarrow> field_value option list option \<Rightarrow> 'g" where
  "new_QueryBooksRequest J opt_data = initialize J opt_data"

definition QueryBooksRequest_getAuthorPrefix :: "('g, 'r, 'w) jspb_ops \<Rightarrow> 'g \<Rightarrow> field_value" where
  "QueryBooksRequest_getAuthorPrefix J this = getFieldWithDefault J this 1 empty_string"

definition QueryBooksRequest_setAuthorPrefix :: "('g, 'r, 'w) jspb_ops \<Rightarrow> field_value \<Rightarrow> 'g \<Rightarrow> 'g" where
  "QueryBooksRequest_setAuthorPrefix J val this = setProto3StringField J this 1 val"

record 'g QueryBooksRequest_object =
  query_authorPrefix :: field_value
  query_instance :: "'g option"

definition QueryBooksRequest_toObject ::
  "('g, 'r, 'w) jspb_ops \<Rightarrow> bool \<Rightarrow> 'g \<Rightarrow> 'g QueryBooksRequest_object"
where
  "QueryBooksRequest_toObject J includeInstance msg =
     (let obj = \<lparr>query_authorPrefix = getFieldWithDefault J msg 1 empty_string, query_instance = None\<rparr>
      in if includeInstance then obj\<lparr>query_instance := Some msg\<rparr> else obj)"

definition QueryBooksRequest_on_field ::
  "('g, 'r, 'w) jspb_ops \<Rightarrow> nat \<Rightarrow> 'g \<Rightarrow> 'r \<Rightarrow> ('g \<times> 'r) result"
where
  "QueryBooksRequest_on_field J fld msg reader =
     (if fld = 1
      then js_bind (readString J reader)
        (\<lambda>(val, reader). Inr (QueryBooksRequest_setAuthorPrefix J val msg, reader))
      else js_bind (skipField J reader) (\<lambda>reader. Inr (msg, reader)))"

definition QueryBooksRequest_deserializeBinaryFromReader ::
  "('g, 'r, 'w) jspb_ops \<Rightarrow> 'g \<Rightarrow> 'r \<Rightarrow> 'g result option"
where
  "QueryBooksRequest_deserializeBinaryFromReader J msg reader =
     read_loop J (QueryBooksRequest_on_field J) msg reader"

definition QueryBooksRequest_deserializeBinary ::
  "('g, 'r, 'w) jspb_ops \<Rightarrow> bytes \<Rightarrow> 'g result option"
where
  "QueryBooksRequest_deserializeBinary J b =
     (let reader = new_BinaryReader J b;
          msg = new_QueryBooksRequest J None
      in QueryBooksRequest_deserializeBinaryFromReader J msg reader)"

definition QueryBooksRequest_serializeBinaryToWriter ::
  "('g, 'r, 'w) jspb_ops \<Rightarrow> 'g \<Rightarrow> 'w \<Rightarrow> 'w result"
where
  "QueryBooksRequest_serializeBinaryToWriter J msg writer =
     (let f = QueryBooksRequest_getAuthorPrefix J msg in
      if length_positive f then writeString J 1 f writer else Inr writer)"

definition QueryBooksRequest_serializeBinary :: "('g, 'r, 'w) jspb_ops \<Rightarrow> 'g \<Rightarrow> bytes result" where
  "QueryBooksRequest_serializeBinary J this =
     js_bind (QueryBooksRequest_serializeBinaryToWriter J this (new_BinaryWriter J)) (getResultBuffer J)"

section \<open>The schemas, and the classes as implementations of them\<close>

definition Book_schema :: schema where
  "Book_schema = [(1, Int64Field), (2, StringField), (3, StringField)]"

definition GetBookRequest_schema :: schema where
  "GetBookRequest_schema = [(1, Int64Field)]"

definition QueryBooksRequest_schema :: schema where
  "QueryBooksRequest_schema = [(1, StringField)]"

text \<open>The two kinds of conditional write, shared by the classes.\<close>

context jspb begin

lemma write_int_field:
  assumes "wrote w fs" "0 < n" "of_kind Int64Field v" "encodable v"
  shows "\<exists>w'. (if v \<noteq> zero then writeInt64 J n v w else Inr w) = Inr w' \<and>
    wrote w' (fs @ (if v \<noteq> zero then [(n, Value v)] else []))"
  using assms write_int [OF assms(1,2)] by (cases v) auto

lemma write_string_field:
  assumes "wrote w fs" "0 < n" "of_kind StringField v" "encodable v"
  shows "\<exists>w'. (if length_positive v then writeString J n v w else Inr w) = Inr w' \<and>
    wrote w' (fs @ (if v \<noteq> empty_string then [(n, Value v)] else []))"
  using assms write_string [OF assms(1,2)] by (cases v) auto

sublocale Book: message_class J reads at_value wrote encodable Book_schema "Book_on_field J"
    "Book_serializeBinaryToWriter J"
proof unfold_locales
  fix g w fs assume t: "well_typed J encodable Book_schema g" "wrote w fs"
  from t(1) have ok: "of_kind Int64Field (Book_getIsbn J g)" "encodable (Book_getIsbn J g)"
    "of_kind StringField (Book_getTitle J g)" "encodable (Book_getTitle J g)"
    "of_kind StringField (Book_getAuthor J g)" "encodable (Book_getAuthor J g)"
    by (simp_all add: well_typed_def Book_schema_def Book_getIsbn_def Book_getTitle_def Book_getAuthor_def)
  obtain w1 where w1: "(if Book_getIsbn J g \<noteq> zero then writeInt64 J 1 (Book_getIsbn J g) w else Inr w) = Inr w1"
    "wrote w1 (fs @ (if Book_getIsbn J g \<noteq> zero then [(1, Value (Book_getIsbn J g))] else []))" (is "wrote w1 ?f1")
    using write_int_field [OF t(2) _ ok(1,2), of 1] by auto
  obtain w2 where w2: "(if length_positive (Book_getTitle J g) then writeString J 2 (Book_getTitle J g) w1 else Inr w1) = Inr w2"
    "wrote w2 (?f1 @ (if Book_getTitle J g \<noteq> empty_string then [(2, Value (Book_getTitle J g))] else []))" (is "wrote w2 ?f2")
    using write_string_field [OF w1(2) _ ok(3,4), of 2] by auto
  obtain w3 where w3: "(if length_positive (Book_getAuthor J g) then writeString J 3 (Book_getAuthor J g) w2 else Inr w2) = Inr w3"
    "wrote w3 (?f2 @ (if Book_getAuthor J g \<noteq> empty_string then [(3, Value (Book_getAuthor J g))] else []))"
    using write_string_field [OF w2(2) _ ok(5,6), of 3] by auto
  have "Book_serializeBinaryToWriter J g w = Inr w3"
    using w1(1) w2(1) w3(1) by (simp add: Book_serializeBinaryToWriter_def Let_def)
  moreover have "wrote w3 (fs @ wire_fields J Book_schema g)"
    using w3(2) by (simp add: wire_fields_def Book_schema_def Book_getIsbn_def Book_getTitle_def
        Book_getAuthor_def split: if_splits)
  ultimately show "\<exists>w'. Book_serializeBinaryToWriter J g w = Inr w' \<and>
      wrote w' (fs @ wire_fields J Book_schema g)" by blast
qed (auto simp: Book_schema_def Book_on_field_def Book_setIsbn_def Book_setTitle_def Book_setAuthor_def
    split: if_splits)

sublocale GetBookRequest: message_class J reads at_value wrote encodable GetBookRequest_schema
    "GetBookRequest_on_field J" "GetBookRequest_serializeBinaryToWriter J"
proof unfold_locales
  fix g w fs assume t: "well_typed J encodable GetBookRequest_schema g" "wrote w fs"
  with write_int_field [OF t(2), of 1 "GetBookRequest_getIsbn J g"]
  show "\<exists>w'. GetBookRequest_serializeBinaryToWriter J g w = Inr w' \<and>
      wrote w' (fs @ wire_fields J GetBookRequest_schema g)"
    by (auto simp: well_typed_def wire_fields_def GetBookRequest_schema_def GetBookRequest_getIsbn_def
        GetBookRequest_serializeBinaryToWriter_def Let_def)
qed (auto simp: GetBookRequest_schema_def GetBookRequest_on_field_def GetBookRequest_setIsbn_def
    split: if_splits)

sublocale QueryBooksRequest: message_class J reads at_value wrote encodable QueryBooksRequest_schema
    "QueryBooksRequest_on_field J" "QueryBooksRequest_serializeBinaryToWriter J"
proof unfold_locales
  fix g w fs assume t: "well_typed J encodable QueryBooksRequest_schema g" "wrote w fs"
  with write_string_field [OF t(2), of 1 "QueryBooksRequest_getAuthorPrefix J g"]
  show "\<exists>w'. QueryBooksRequest_serializeBinaryToWriter J g w = Inr w' \<and>
      wrote w' (fs @ wire_fields J QueryBooksRequest_schema g)"
    by (auto simp: well_typed_def wire_fields_def QueryBooksRequest_schema_def
        QueryBooksRequest_getAuthorPrefix_def QueryBooksRequest_serializeBinaryToWriter_def Let_def)
qed (auto simp: QueryBooksRequest_schema_def QueryBooksRequest_on_field_def
    QueryBooksRequest_setAuthorPrefix_def split: if_splits)

end

end
