(* ===== verification/BookService.thy ===== *)
theory BookService
  imports Requests BookMessages
begin

text \<open>
  \<^verbatim>\<open>grpc-web-react-example/ts/_proto/examplecom/library/book_service_pb_service.js\<close>: the client
  stub that \<^verbatim>\<open>ts-protoc-gen\<close> generated for the example service.  \<^verbatim>\<open>getBook\<close> is \<^verbatim>\<open>unary\<close> with a
  Node-style callback, \<^verbatim>\<open>queryBooks\<close> is \<^verbatim>\<open>invoke\<close> with event listeners; both return an object
  with \<^verbatim>\<open>cancel\<close>.  The user's functions are names; what one does with its argument is a change of
  the user's own state and a list of calls on that object.
\<close>

section \<open>The service\<close>

text \<open>
  A generated reader that never returns has no place among the results of a client; the laws
  of \<open>jspb\<close> exclude it for every reader they describe.
\<close>

definition never_returns :: js_error where
  "never_returns = Error (js ''deserializeBinary did not return'')"

definition returned :: "'x result option \<Rightarrow> 'x result" where
  "returned r = (case r of Some x \<Rightarrow> x | None \<Rightarrow> Inl never_returns)"

definition BookService_serviceName :: js_string where
  "BookService_serviceName = js ''examplecom.library.BookService''"

definition BookService_GetBook :: "('g, 'r, 'w) jspb_ops \<Rightarrow> ('g, 'g) method_definition" where
  "BookService_GetBook J =
     \<lparr>methodName = js ''GetBook'', serviceName = BookService_serviceName,
      requestStream = False, responseStream = False,
      serializeBinary = GetBookRequest_serializeBinary J,
      deserializeBinary = (\<lambda>b. returned (Book_deserializeBinary J b))\<rparr>"

definition BookService_QueryBooks :: "('g, 'r, 'w) jspb_ops \<Rightarrow> ('g, 'g) method_definition" where
  "BookService_QueryBooks J =
     \<lparr>methodName = js ''QueryBooks'', serviceName = BookService_serviceName,
      requestStream = False, responseStream = True,
      serializeBinary = QueryBooksRequest_serializeBinary J,
      deserializeBinary = (\<lambda>b. returned (Book_deserializeBinary J b))\<rparr>"

text \<open>\<^verbatim>\<open>options || {}\<close>: of the options only \<^verbatim>\<open>transport\<close> is modelled.\<close>

record 't book_service_client =
  serviceHost :: js_string
  transportOption :: "(js_string \<Rightarrow> 't result) option"

definition new_BookServiceClient ::
  "js_string \<Rightarrow> (js_string \<Rightarrow> 't result) option option \<Rightarrow> 't book_service_client"
where
  "new_BookServiceClient host opts =
     \<lparr>serviceHost = host, transportOption = (case opts of Some tp \<Rightarrow> tp | None \<Rightarrow> None)\<rparr>"

section \<open>getBook\<close>

text \<open>
  An argument is a function or something to build metadata from; \<^verbatim>\<open>undefined\<close> and \<^verbatim>\<open>null\<close> are
  \<open>None\<close>.  The user's function is given an error, or null and the message.
\<close>

datatype ('a, 'k) js_argument = FunctionArg 'k | MetadataArg 'a

datatype ('m, 'g) book_event =
    BookFailed js_string js_num 'm \<comment> \<open>\<^verbatim>\<open>callback(err, null)\<close>: message, \<^verbatim>\<open>code\<close>, \<^verbatim>\<open>metadata\<close> of \<^verbatim>\<open>err\<close>\<close>
  | BookReply "'g option" \<comment> \<open>\<^verbatim>\<open>callback(null, response.message)\<close>\<close>

datatype stub_call = Cancel | Raise js_error

text \<open>What it comes to on the client: \<^verbatim>\<open>cancel\<close> calls \<^verbatim>\<open>client.close()\<close>.\<close>

fun client_call :: "stub_call \<Rightarrow> ('x, 'q, 'cb) action" where
  "client_call Cancel = Close"
| "client_call (Raise e) = Throw e"

record ('m, 'g, 'a, 'k, 'v) book_state =
  callbackVar :: "('a, 'k) js_argument option"
  bookCalls :: "('k \<times> ('m, 'g) book_event) list" \<comment> \<open>history of the invocations of the user's function\<close>
  bookUser :: 'v

text \<open>The calls of the user's function up to the first that throws; \<^verbatim>\<open>cancel\<close> clears the variable.\<close>

fun book_calls ::
  "stub_call list \<Rightarrow> ('m, 'g, 'a, 'k, 'v) book_state
     \<Rightarrow> ('m, 'g, 'a, 'k, 'v) book_state \<times> stub_call list"
where
  "book_calls [] s = (s, [])"
| "book_calls (Cancel # as) s =
     (let (s, acts) = book_calls as (s\<lparr>callbackVar := None\<rparr>) in (s, Cancel # acts))"
| "book_calls (Raise e # as) s = (s, [Raise e])"

definition getBook_onEnd ::
  "('k \<Rightarrow> ('m, 'g) book_event \<Rightarrow> 'v \<Rightarrow> 'v \<times> stub_call list)
     \<Rightarrow> ('m, 'g) unary_output \<Rightarrow> ('m, 'g, 'a, 'k, 'v) book_state
     \<Rightarrow> ('m, 'g, 'a, 'k, 'v) book_state \<times> ('x, 'q, unary_callback) action list"
where
  "getBook_onEnd body out s =
     (case callbackVar s of
        None \<Rightarrow> (s, [])
      | Some (MetadataArg _) \<Rightarrow> (s, [Throw (TypeError (js ''callback is not a function''))])
      | Some (FunctionArg k) \<Rightarrow>
          (let ev = (if out_status out \<noteq> code OK
                     then BookFailed (out_statusMessage out) (out_status out) (out_trailers out)
                     else BookReply (out_message out));
               (v, as) = body k ev (bookUser s);
               (s, acts) = book_calls as (s\<lparr>bookCalls := bookCalls s @ [(k, ev)], bookUser := v\<rparr>)
           in (s, map client_call acts)))"

definition getBook_env ::
  "('m, ('a, 'k) js_argument) metadata_ops \<Rightarrow> bool \<Rightarrow> ('g, 'r, 'w) jspb_ops
     \<Rightarrow> ('m tcall \<Rightarrow> 't \<Rightarrow> js_error option \<times> 't)
     \<Rightarrow> ('k \<Rightarrow> ('m, 'g) book_event \<Rightarrow> 'v \<Rightarrow> 'v \<times> stub_call list)
     \<Rightarrow> ('m, ('a, 'k) js_argument, 'g, 'g, unary_callback,
         ('m, 'g, ('m, 'g, 'a, 'k, 'v) book_state) unary_state, 't) env"
where
  "getBook_env M sl J tc body = unary_env M sl (BookService_GetBook J) tc (getBook_onEnd body)"

text \<open>
  \<open>args\<close> are the arguments after the request.  With one, it is also the callback, and still
  what \<^verbatim>\<open>metadata\<close> names.
\<close>

definition argument :: "nat \<Rightarrow> 'x option list \<Rightarrow> 'x option" where
  "argument i args = (if i < length args then args ! i else None)"

definition getBook ::
  "('m, ('a, 'k) js_argument) metadata_ops \<Rightarrow> bool \<Rightarrow> ('g, 'r, 'w) jspb_ops
     \<Rightarrow> ('m tcall \<Rightarrow> 't \<Rightarrow> js_error option \<times> 't)
     \<Rightarrow> ('k \<Rightarrow> ('m, 'g) book_event \<Rightarrow> 'v \<Rightarrow> 'v \<times> stub_call list)
     \<Rightarrow> (js_string \<Rightarrow> 't result) \<Rightarrow> 't book_service_client
     \<Rightarrow> 'g \<Rightarrow> ('a, 'k) js_argument option list \<Rightarrow> 'v
     \<Rightarrow> js_error option \<times>
        ('m, 'g, unary_callback, ('m, 'g, ('m, 'g, 'a, 'k, 'v) book_state) unary_state, 't) client option"
where
  "getBook M sl J tc body df this request args v =
     (let md = argument 0 args;
          cb = (if length args = 1 then argument 0 args else argument 1 args)
      in unary (getBook_env M sl J tc body) (transportOption this) df (serviceHost this) request md
           \<lparr>callbackVar = cb, bookCalls = [], bookUser = v\<rparr>)"

definition getBook_cancel ::
  "('m, 'x, 'g, 'g, unary_callback, ('m, 'g, ('m, 'g, 'a, 'k, 'v) book_state) unary_state, 't) env
     \<Rightarrow> ('m, 'g, unary_callback, ('m, 'g, ('m, 'g, 'a, 'k, 'v) book_state) unary_state, 't) client
     \<Rightarrow> js_error option \<times>
        ('m, 'g, unary_callback, ('m, 'g, ('m, 'g, 'a, 'k, 'v) book_state) unary_state, 't) client"
where
  "getBook_cancel E c =
     close E (c\<lparr>user := (user c)\<lparr>outer := (outer (user c))\<lparr>callbackVar := None\<rparr>\<rparr>\<rparr>)"

section \<open>queryBooks\<close>

record 'k listeners =
  dataListeners :: "'k list"
  endListeners :: "'k list"
  statusListeners :: "'k list"

text \<open>\<^verbatim>\<open>status\<close> and \<^verbatim>\<open>end\<close> listeners are given \<^verbatim>\<open>{ code, details, metadata }\<close>.\<close>

datatype ('m, 'g) query_event =
    DataHeard 'g
  | StatusHeard js_num js_string 'm
  | EndHeard js_num js_string 'm

datatype 'k query_call = On js_string 'k | CancelQuery | RaiseQuery js_error

record ('m, 'g, 'k, 'v) query_state =
  listenersVar :: "'k listeners option"
  heard :: "('k \<times> ('m, 'g) query_event) list" \<comment> \<open>history of the invocations of the listeners\<close>
  queryUser :: 'v

datatype query_callback = QueryOnMessage | QueryOnEnd

definition null_listeners :: js_error where
  "null_listeners = TypeError (js ''Cannot read property of null'')"

text \<open>\<^verbatim>\<open>on(type, handler)\<close>: \<^verbatim>\<open>listeners[type].push(handler)\<close>.\<close>

definition query_on ::
  "js_string \<Rightarrow> 'k \<Rightarrow> ('m, 'g, 'k, 'v) query_state \<Rightarrow> js_error option \<times> ('m, 'g, 'k, 'v) query_state"
where
  "query_on ty k s =
     (case listenersVar s of
        None \<Rightarrow> (Some null_listeners, s)
      | Some l \<Rightarrow>
          if ty = js ''data''
          then (None, s\<lparr>listenersVar := Some (l\<lparr>dataListeners := dataListeners l @ [k]\<rparr>)\<rparr>)
          else if ty = js ''end''
          then (None, s\<lparr>listenersVar := Some (l\<lparr>endListeners := endListeners l @ [k]\<rparr>)\<rparr>)
          else if ty = js ''status''
          then (None, s\<lparr>listenersVar := Some (l\<lparr>statusListeners := statusListeners l @ [k]\<rparr>)\<rparr>)
          else (Some (TypeError (js ''Cannot read property 'push' of undefined'')), s))"

text \<open>
  A listener runs while the client is in a callback, hence open; its first \<^verbatim>\<open>cancel\<close> closes the
  client, a second one throws, as \<^verbatim>\<open>close\<close> does.  \<open>gone\<close> says whether one has been made in this
  callback.  What is thrown leaves the listener and the loop over the listeners: the result says
  whether anything was, and lists the calls on the client, with the one that
  throws last: \<open>Cancel\<close> for \<^verbatim>\<open>client.close()\<close>, \<open>Raise\<close> for an error.
  (The transports' \<^verbatim>\<open>cancel\<close> does not throw.)
\<close>

fun query_calls ::
  "'k query_call list \<Rightarrow> bool \<Rightarrow> ('m, 'g, 'k, 'v) query_state
     \<Rightarrow> bool \<times> bool \<times> ('m, 'g, 'k, 'v) query_state \<times> stub_call list"
where
  "query_calls [] gone s = (False, gone, s, [])"
| "query_calls (On ty k # as) gone s =
     (case query_on ty k s of
        (Some e, s) \<Rightarrow> (True, gone, s, [Raise e])
      | (None, s) \<Rightarrow> query_calls as gone s)"
| "query_calls (CancelQuery # as) gone s =
     (let s = s\<lparr>listenersVar := None\<rparr> in
      if gone then (True, gone, s, [Cancel])
      else
        let (thrown, gone, s, acts) = query_calls as True s in (thrown, gone, s, Cancel # acts))"
| "query_calls (RaiseQuery e # as) gone s = (True, gone, s, [Raise e])"

text \<open>\<^verbatim>\<open>forEach(handler => handler(ev))\<close> over the listeners there were when it began.\<close>

fun tell_listeners ::
  "('k \<Rightarrow> ('m, 'g) query_event \<Rightarrow> 'v \<Rightarrow> 'v \<times> 'k query_call list) \<Rightarrow> ('m, 'g) query_event
     \<Rightarrow> 'k list \<Rightarrow> bool \<Rightarrow> ('m, 'g, 'k, 'v) query_state
     \<Rightarrow> bool \<times> bool \<times> ('m, 'g, 'k, 'v) query_state \<times> stub_call list"
where
  "tell_listeners body ev [] gone s = (False, gone, s, [])"
| "tell_listeners body ev (k # ks) gone s =
     (let (v, as) = body k ev (queryUser s);
          (thrown, gone, s, acts) =
            query_calls as gone (s\<lparr>heard := heard s @ [(k, ev)], queryUser := v\<rparr>)
      in if thrown then (True, gone, s, acts)
         else
           let (thrown, gone, s, acts') = tell_listeners body ev ks gone s
           in (thrown, gone, s, acts @ acts'))"

definition queryBooks_onMessage ::
  "('k \<Rightarrow> ('m, 'g) query_event \<Rightarrow> 'v \<Rightarrow> 'v \<times> 'k query_call list) \<Rightarrow> 'g
     \<Rightarrow> ('m, 'g, 'k, 'v) query_state
     \<Rightarrow> ('m, 'g, 'k, 'v) query_state \<times> stub_call list"
where
  "queryBooks_onMessage body responseMessage s =
     (case listenersVar s of
        None \<Rightarrow> (s, [Raise null_listeners])
      | Some l \<Rightarrow>
          (let (thrown, gone, s, acts) =
                 tell_listeners body (DataHeard responseMessage) (dataListeners l) False s
           in (s, acts)))"

definition queryBooks_onEnd ::
  "('k \<Rightarrow> ('m, 'g) query_event \<Rightarrow> 'v \<Rightarrow> 'v \<times> 'k query_call list)
     \<Rightarrow> js_num \<Rightarrow> js_string \<Rightarrow> 'm \<Rightarrow> ('m, 'g, 'k, 'v) query_state
     \<Rightarrow> ('m, 'g, 'k, 'v) query_state \<times> stub_call list"
where
  "queryBooks_onEnd body status statusMessage trailers s =
     (case listenersVar s of
        None \<Rightarrow> (s, [Raise null_listeners])
      | Some l \<Rightarrow>
          (let (thrown, gone, s, acts) =
                 tell_listeners body (StatusHeard status statusMessage trailers) (statusListeners l) False s
           in if thrown then (s, acts)
              else
                case listenersVar s of
                  None \<Rightarrow> (s, acts @ [Raise null_listeners])
                | Some l \<Rightarrow>
                    (let (thrown, gone, s, acts') =
                           tell_listeners body (EndHeard status statusMessage trailers) (endListeners l) gone s
                     in if thrown then (s, acts @ acts')
                        else (s\<lparr>listenersVar := None\<rparr>, acts @ acts'))))"

fun queryBooks_closure ::
  "('k \<Rightarrow> ('m, 'g) query_event \<Rightarrow> 'v \<Rightarrow> 'v \<times> 'k query_call list)
     \<Rightarrow> query_callback \<Rightarrow> ('m, 'g) cb_event \<Rightarrow> ('m, 'g, 'k, 'v) query_state
     \<Rightarrow> ('m, 'g, 'k, 'v) query_state \<times> ('x, 'q, query_callback) action list"
where
  "queryBooks_closure body QueryOnMessage (MessageEv responseMessage) s =
     (let (s, acts) = queryBooks_onMessage body responseMessage s in (s, map client_call acts))"
| "queryBooks_closure body QueryOnEnd (EndEv status statusMessage trailers) s =
     (let (s, acts) = queryBooks_onEnd body status statusMessage trailers s in (s, map client_call acts))"
| "queryBooks_closure body _ _ s = (s, [])"

definition queryBooks_env ::
  "('m, 'a) metadata_ops \<Rightarrow> bool \<Rightarrow> ('g, 'r, 'w) jspb_ops
     \<Rightarrow> ('m tcall \<Rightarrow> 't \<Rightarrow> js_error option \<times> 't)
     \<Rightarrow> ('k \<Rightarrow> ('m, 'g) query_event \<Rightarrow> 'v \<Rightarrow> 'v \<times> 'k query_call list)
     \<Rightarrow> ('m, 'a, 'g, 'g, query_callback, ('m, 'g, 'k, 'v) query_state, 't) env"
where
  "queryBooks_env M sl J tc body =
     \<lparr>metadata = M, hasSlice = sl, methodDefinition = BookService_QueryBooks J, transportCall = tc,
      callback = queryBooks_closure body\<rparr>"

definition new_query_state :: "'v \<Rightarrow> ('m, 'g, 'k, 'v) query_state" where
  "new_query_state v =
     \<lparr>listenersVar = Some \<lparr>dataListeners = [], endListeners = [], statusListeners = []\<rparr>,
      heard = [], queryUser = v\<rparr>"

definition queryBooks ::
  "('m, 'a) metadata_ops \<Rightarrow> bool \<Rightarrow> ('g, 'r, 'w) jspb_ops
     \<Rightarrow> ('m tcall \<Rightarrow> 't \<Rightarrow> js_error option \<times> 't)
     \<Rightarrow> ('k \<Rightarrow> ('m, 'g) query_event \<Rightarrow> 'v \<Rightarrow> 'v \<times> 'k query_call list)
     \<Rightarrow> (js_string \<Rightarrow> 't result) \<Rightarrow> 't book_service_client \<Rightarrow> 'g \<Rightarrow> 'a option \<Rightarrow> 'v
     \<Rightarrow> js_error option \<times> ('m, 'g, query_callback, ('m, 'g, 'k, 'v) query_state, 't) client option"
where
  "queryBooks M sl J tc body df this request md v =
     invoke (queryBooks_env M sl J tc body) (transportOption this) df (serviceHost this)
       \<lparr>requestProp = request, metadataProp = md, onHeadersProp = None,
        onMessageProp = Some QueryOnMessage, onEndProp = Some QueryOnEnd\<rparr>
       (new_query_state v)"

text \<open>The methods of the object it returns, called from outside any listener.\<close>

definition queryBooks_on ::
  "js_string \<Rightarrow> 'k \<Rightarrow> ('m, 'g, query_callback, ('m, 'g, 'k, 'v) query_state, 't) client
     \<Rightarrow> js_error option \<times> ('m, 'g, query_callback, ('m, 'g, 'k, 'v) query_state, 't) client"
where
  "queryBooks_on ty k c = (let (e, s) = query_on ty k (user c) in (e, c\<lparr>user := s\<rparr>))"

definition queryBooks_cancel ::
  "('m, 'a, 'g, 'g, query_callback, ('m, 'g, 'k, 'v) query_state, 't) env
     \<Rightarrow> ('m, 'g, query_callback, ('m, 'g, 'k, 'v) query_state, 't) client
     \<Rightarrow> js_error option \<times> ('m, 'g, query_callback, ('m, 'g, 'k, 'v) query_state, 't) client"
where
  "queryBooks_cancel E c = close E (c\<lparr>user := (user c)\<lparr>listenersVar := None\<rparr>\<rparr>)"

end
