(* ===== verification/WireFormat.thy ===== *)
theory WireFormat
  imports BookMessages
begin

text \<open>
  An executable instance of \<open>jspb_ops\<close> over the wire format that the protocol buffers
  documentation specifies: base-128 integers, a tag of field number and wire type before
  each field, 64-bit two's complement for \<^verbatim>\<open>int64\<close>, a length before a string.  Integers are kept
  within those a double holds exactly, strings within ASCII; outside, the instance throws.
  It satisfies the laws of the locale \<open>jspb\<close>; the witnesses are evaluated on it.
\<close>

section \<open>Base-128 integers\<close>

fun varint :: "nat \<Rightarrow> bytes" where
  "varint n = (if n < 128 then [of_nat n] else of_nat (n mod 128 + 128) # varint (n div 128))"

declare varint.simps [simp del]

fun read_varint :: "bytes \<Rightarrow> (nat \<times> bytes) option" where
  "read_varint [] = None"
| "read_varint (b # bs) =
     (if unat b < 128 then Some (unat b, bs)
      else map_option (\<lambda>(n, r). (unat b - 128 + 128 * n, r)) (read_varint bs))"

lemma unat_of_nat_byte: "n < 256 \<Longrightarrow> unat (of_nat n :: byte) = n"
  by (simp add: unat_of_nat take_bit_nat_eq_self)

lemma read_varint: "read_varint (varint n @ r) = Some (n, r)"
proof (induction n rule: varint.induct)
  case (1 n)
  show ?case
  proof (cases "n < 128")
    case True
    then show ?thesis by (simp add: varint.simps [of n] unat_of_nat_byte)
  next
    case False
    have m: "n mod 128 + 128 < 256" using mod_less_divisor [of 128 n] by linarith
    have "varint n @ r = of_nat (n mod 128 + 128) # varint (n div 128) @ r"
      using False by (simp add: varint.simps [of n])
    with 1 False unat_of_nat_byte [OF m] show ?thesis
      by (simp del: of_nat_add)
  qed
qed

lemma varint_nonempty [simp]: "varint n \<noteq> []"
  by (subst varint.simps) simp

definition to_int64 :: "int \<Rightarrow> nat" where
  "to_int64 i = nat (i mod 2 ^ 64)"

definition of_int64 :: "nat \<Rightarrow> int" where
  "of_int64 n = (if n < 2 ^ 63 then int n else int n - 2 ^ 64)"

definition safe :: "int \<Rightarrow> bool" where
  "safe i \<longleftrightarrow> \<bar>i\<bar> \<le> 2 ^ 53"

lemma of_to_int64:
  assumes "safe i"
  shows "of_int64 (to_int64 i) = i"
proof (cases "0 \<le> i")
  case True
  with assms have "i mod 2 ^ 64 = i" by (intro mod_pos_pos_trivial) (simp_all add: safe_def)
  with True assms show ?thesis by (simp add: of_int64_def to_int64_def safe_def)
next
  case False
  have "i mod 2 ^ 64 = (i + 2 ^ 64) mod 2 ^ 64" by simp
  also have "\<dots> = i + 2 ^ 64"
    using assms False by (intro mod_pos_pos_trivial) (simp_all add: safe_def)
  finally show ?thesis using assms False by (simp add: of_int64_def to_int64_def safe_def)
qed

section \<open>Fields\<close>

fun wire_encodable :: "field_value \<Rightarrow> bool" where
  "wire_encodable (NumberValue (Num i)) = safe i"
| "wire_encodable (NumberValue NaN) = False"
| "wire_encodable (StringValue s) = list_all (\<lambda>c. c < 0x80) s"

fun wire_type :: "wire_value \<Rightarrow> nat" where
  "wire_type (Value (NumberValue _)) = 0"
| "wire_type (Value (StringValue _)) = 2"
| "wire_type (Other _) = 5"

fun payload :: "wire_value \<Rightarrow> bytes" where
  "payload (Value (NumberValue (Num i))) = varint (to_int64 i)"
| "payload (Value (NumberValue NaN)) = []"
| "payload (Value (StringValue s)) = varint (length (utf8_encode s)) @ utf8_encode s"
| "payload (Other b) = b"

fun field_ok :: "wire_field \<Rightarrow> bool" where
  "field_ok (n, Value v) = (0 < n \<and> wire_encodable v)"
| "field_ok (n, Other b) = (0 < n \<and> length b = 4)"

definition field_bytes :: "wire_field \<Rightarrow> bytes" where
  "field_bytes f = varint (8 * fst f + wire_type (snd f)) @ payload (snd f)"

definition fields_bytes :: "wire_field list \<Rightarrow> bytes" where
  "fields_bytes fs = concat (map field_bytes fs)"

section \<open>Reader, writer, message\<close>

text \<open>A reader: the bytes left, and number and wire type of the field it stands at.\<close>

type_synonym wire_reader = "bytes \<times> nat \<times> nat"

definition malformed :: js_error where
  "malformed = Error (js ''Assertion failed'')"

definition wire_nextField :: "wire_reader \<Rightarrow> (bool \<times> wire_reader) result" where
  "wire_nextField = (\<lambda>(b, n, t).
     if b = [] then Inr (False, (b, n, t))
     else case read_varint b of
        None \<Rightarrow> Inl malformed
      | Some (key, r) \<Rightarrow>
          if key div 8 = 0 then Inl malformed else Inr (True, (r, key div 8, key mod 8)))"

definition wire_readInt64 :: "wire_reader \<Rightarrow> (field_value \<times> wire_reader) result" where
  "wire_readInt64 = (\<lambda>(b, n, t).
     if t \<noteq> 0 then Inl malformed
     else case read_varint b of
        None \<Rightarrow> Inl malformed
      | Some (k, r) \<Rightarrow> Inr (NumberValue (Num (of_int64 k)), (r, n, t)))"

definition wire_readString :: "wire_reader \<Rightarrow> (field_value \<times> wire_reader) result" where
  "wire_readString = (\<lambda>(b, n, t).
     if t \<noteq> 2 then Inl malformed
     else case read_varint b of
        None \<Rightarrow> Inl malformed
      | Some (k, r) \<Rightarrow>
          if length r < k \<or> \<not> list_all (\<lambda>c. c < 0x80) (take k r) then Inl malformed
          else Inr (StringValue (map ucast (take k r)), (drop k r, n, t)))"

definition wire_skipField :: "wire_reader \<Rightarrow> wire_reader result" where
  "wire_skipField = (\<lambda>(b, n, t).
     if t = 0 then (case read_varint b of None \<Rightarrow> Inl malformed | Some (k, r) \<Rightarrow> Inr (r, n, t))
     else if t = 2 then
       (case read_varint b of
          None \<Rightarrow> Inl malformed
        | Some (k, r) \<Rightarrow> if length r < k then Inl malformed else Inr (drop k r, n, t))
     else if t = 5 then (if length b < 4 then Inl malformed else Inr (drop 4 b, n, t))
     else Inl malformed)"

definition wire_write :: "nat \<Rightarrow> field_value \<Rightarrow> bytes \<Rightarrow> bytes result" where
  "wire_write n v w = (if wire_encodable v then Inr (w @ field_bytes (n, Value v)) else Inl malformed)"

definition wire_initialize :: "field_value option list option \<Rightarrow> nat \<Rightarrow> field_value option" where
  "wire_initialize opt_data n =
     (case opt_data of
        None \<Rightarrow> None
      | Some xs \<Rightarrow> (case n of 0 \<Rightarrow> None | Suc i \<Rightarrow> if i < length xs then xs ! i else None))"

definition wire_jspb :: "(nat \<Rightarrow> field_value option, wire_reader, bytes) jspb_ops" where
  "wire_jspb =
     \<lparr>initialize = wire_initialize,
      getFieldWithDefault = (\<lambda>g n d. case g n of None \<Rightarrow> d | Some v \<Rightarrow> v),
      setProto3IntField = (\<lambda>g n v. g(n := if v = zero then None else Some v)),
      setProto3StringField = (\<lambda>g n v. g(n := if v = empty_string then None else Some v)),
      new_BinaryReader = (\<lambda>b. (b, 0, 0)),
      nextField = wire_nextField,
      isEndGroup = (\<lambda>(b, n, t). t = 4),
      getFieldNumber = (\<lambda>(b, n, t). n),
      readInt64 = wire_readInt64,
      readString = wire_readString,
      skipField = wire_skipField,
      new_BinaryWriter = [],
      writeInt64 = wire_write,
      writeString = wire_write,
      getResultBuffer = Inr\<rparr>"

lemma wire_jspb_simps [simp]:
  "initialize wire_jspb = wire_initialize"
  "getFieldWithDefault wire_jspb g n d = (case g n of None \<Rightarrow> d | Some v \<Rightarrow> v)"
  "setProto3IntField wire_jspb g n v = g(n := if v = zero then None else Some v)"
  "setProto3StringField wire_jspb g n v = g(n := if v = empty_string then None else Some v)"
  "new_BinaryReader wire_jspb b = (b, 0, 0)"
  "nextField wire_jspb = wire_nextField"
  "isEndGroup wire_jspb (b, n, t) = (t = 4)"
  "getFieldNumber wire_jspb (b, n, t) = n"
  "readInt64 wire_jspb = wire_readInt64"
  "readString wire_jspb = wire_readString"
  "skipField wire_jspb = wire_skipField"
  "new_BinaryWriter wire_jspb = []"
  "writeInt64 wire_jspb = wire_write"
  "writeString wire_jspb = wire_write"
  "getResultBuffer wire_jspb = Inr"
  by (simp_all add: wire_jspb_def)

section \<open>The laws\<close>

text \<open>The fields end with the bytes, or with the tag that closes an enclosing group.\<close>

definition ends_fields :: "bytes \<Rightarrow> bool" where
  "ends_fields b \<longleftrightarrow> b = [] \<or> (\<exists>n r. 0 < n \<and> b = varint (8 * n + 4) @ r)"

definition wire_reads :: "wire_reader \<Rightarrow> wire_field list \<Rightarrow> bool" where
  "wire_reads r fs \<longleftrightarrow>
     (\<exists>e. fst r = fields_bytes fs @ e \<and> ends_fields e \<and> list_all field_ok fs)"

definition wire_at :: "wire_reader \<Rightarrow> wire_value \<Rightarrow> wire_field list \<Rightarrow> bool" where
  "wire_at r u fs \<longleftrightarrow>
     (\<exists>e. fst r = payload u @ fields_bytes fs @ e \<and> ends_fields e \<and> list_all field_ok fs) \<and>
     snd (snd r) = wire_type u \<and> field_ok (1, u)"

definition wire_wrote :: "bytes \<Rightarrow> wire_field list \<Rightarrow> bool" where
  "wire_wrote w fs \<longleftrightarrow> w = fields_bytes fs \<and> list_all field_ok fs"

lemma fields_bytes_simps [simp]:
  "fields_bytes [] = []"
  "fields_bytes (f # fs) = field_bytes f @ fields_bytes fs"
  "fields_bytes (fs @ fs') = fields_bytes fs @ fields_bytes fs'"
  by (simp_all add: fields_bytes_def)

lemma tag_fields: "t < 8 \<Longrightarrow> (8 * n + t) div 8 = (n :: nat)" "t < 8 \<Longrightarrow> (8 * n + t) mod 8 = (t :: nat)"
  by simp_all

lemma wire_type_small: "wire_type u < 8" "wire_type u \<noteq> 4"
  by (cases u rule: wire_type.cases; simp)+

lemma nextField_tag:
  "0 < n \<Longrightarrow> t < 8 \<Longrightarrow> wire_nextField (varint (8 * n + t) @ r, m, t') = Inr (True, (r, n, t))"
  by (simp add: wire_nextField_def read_varint tag_fields)

lemma ascii_octets:
  assumes "list_all (\<lambda>c. c < 0x80) s"
  shows "list_all (\<lambda>c. c < 0x80) (utf8_encode s)" "map ucast (utf8_encode s) = s"
proof -
  have "(ucast c :: byte) < 0x80" if "c < 0x80" for c :: js_char
    using that by (simp add: word_less_nat_alt unsigned_ucast_eq unsigned_take_bit_eq take_bit_nat_eq_self)
  with assms show "list_all (\<lambda>c. c < 0x80) (utf8_encode s)"
    unfolding utf8_encode_ascii(1) [OF assms] by (simp add: list_all_iff)
qed (rule utf8_encode_ascii(2) [OF assms])

interpretation wire: jspb wire_jspb wire_reads wire_at wire_wrote wire_encodable
proof unfold_locales
  fix r assume "wire_reads r []"
  then obtain b m t where r: "r = (b, m, t)" "ends_fields b"
    by (cases r) (auto simp: wire_reads_def)
  then consider "b = []" | n q where "0 < n" "b = varint (8 * n + 4) @ q"
    by (auto simp: ends_fields_def)
  then show "\<exists>found q. nextField wire_jspb r = Inr (found, q) \<and> (found \<longrightarrow> isEndGroup wire_jspb q)"
  proof cases
    case 1
    then show ?thesis by (auto simp: r wire_nextField_def)
  next
    case (2 n q)
    then show ?thesis by (auto simp: r nextField_tag)
  qed
next
  fix r n u fs assume a: "wire_reads r ((n, u) # fs)"
  then obtain b m t e where r: "r = (b, m, t)"
    and b: "b = varint (8 * n + wire_type u) @ payload u @ fields_bytes fs @ e" "ends_fields e"
    by (cases r) (auto simp: wire_reads_def field_bytes_def)
  from a have ok: "field_ok (n, u)" "list_all field_ok fs" by (auto simp: wire_reads_def)
  then have n: "0 < n" "field_ok (1, u)" by (cases u; auto)+
  show "\<exists>q. nextField wire_jspb r = Inr (True, q) \<and> \<not> isEndGroup wire_jspb q \<and>
      getFieldNumber wire_jspb q = n \<and> wire_at q u fs"
    using n ok b(2) wire_type_small [of u]
    by (intro exI [of _ "(payload u @ fields_bytes fs @ e, n, wire_type u)"])
      (auto simp: r b(1) nextField_tag wire_at_def)
next
  fix q x fs assume a: "wire_at q (Value (NumberValue x)) fs"
  then obtain b m e where q: "q = (b, m, 0)" "b = payload (Value (NumberValue x)) @ fields_bytes fs @ e"
    "ends_fields e" "list_all field_ok fs" by (cases q) (auto simp: wire_at_def)
  from a obtain i where x: "x = Num i" "safe i" by (cases x) (auto simp: wire_at_def)
  show "\<exists>r. readInt64 wire_jspb q = Inr (NumberValue x, r) \<and> wire_reads r fs"
    using q x by (auto simp: wire_readInt64_def read_varint of_to_int64 wire_reads_def)
next
  fix q s fs assume a: "wire_at q (Value (StringValue s)) fs"
  then obtain b m e where q: "q = (b, m, 2)" "b = payload (Value (StringValue s)) @ fields_bytes fs @ e"
    "ends_fields e" "list_all field_ok fs" by (cases q) (auto simp: wire_at_def)
  from a have s: "list_all (\<lambda>c. c < 0x80) s" by (simp add: wire_at_def)
  show "\<exists>r. readString wire_jspb q = Inr (StringValue s, r) \<and> wire_reads r fs"
    using q ascii_octets [OF s] by (auto simp: wire_readString_def read_varint wire_reads_def)
next
  fix q u fs assume a: "wire_at q u fs"
  then obtain b m e where q: "q = (b, m, wire_type u)" "b = payload u @ fields_bytes fs @ e"
    "ends_fields e" "list_all field_ok fs" "field_ok (1, u)" by (cases q) (auto simp: wire_at_def)
  then show "\<exists>r. skipField wire_jspb q = Inr r \<and> wire_reads r fs"
    by (cases u rule: payload.cases) (auto simp: wire_skipField_def read_varint wire_reads_def)
next
  fix q u fs assume a: "wire_at q u fs"
  then have t: "snd (snd q) = wire_type u" by (simp add: wire_at_def)
  { assume "\<nexists>x. u = Value (NumberValue x)"
    then have "wire_type u \<noteq> 0" by (cases u rule: wire_type.cases) auto
    with t show "\<exists>e. readInt64 wire_jspb q = Inl e" by (cases q) (auto simp: wire_readInt64_def) }
  { assume "\<nexists>s. u = Value (StringValue s)"
    then have "wire_type u \<noteq> 2" by (cases u rule: wire_type.cases) auto
    with t show "\<exists>e. readString wire_jspb q = Inl e" by (cases q) (auto simp: wire_readString_def) }
qed (auto simp: wire_initialize_def wire_wrote_def wire_write_def wire_reads_def ends_fields_def)

end
