(* ===== verification/Message_Properties.thy ===== *)
theory Message_Properties
  imports WireFormat
begin

text \<open>
  The properties of the generated message classes, for every implementation of
  \<^verbatim>\<open>google-protobuf\<close> that obeys the laws of the locale \<open>jspb\<close>.
\<close>

section \<open>From the contract to the classes\<close>

text \<open>What a \<^verbatim>\<open>Book\<close> must hold after the fields \<open>fs\<close> were read into a new one.\<close>

definition book_holds :: "('g, 'r, 'w) jspb_ops \<Rightarrow> wire_field list \<Rightarrow> 'g \<Rightarrow> bool" where
  "book_holds J fs g \<longleftrightarrow>
     Book_getIsbn J g = last_value 1 fs zero \<and>
     Book_getTitle J g = last_value 2 fs empty_string \<and>
     Book_getAuthor J g = last_value 3 fs empty_string"

lemmas getter_defs = Book_getIsbn_def Book_getTitle_def Book_getAuthor_def
  GetBookRequest_getIsbn_def QueryBooksRequest_getAuthorPrefix_def

lemmas toObject_defs = Book_toObject_def GetBookRequest_toObject_def QueryBooksRequest_toObject_def

lemmas deserialize_defs =
  Book_deserializeBinary_def Book_deserializeBinaryFromReader_def new_Book_def
  GetBookRequest_deserializeBinary_def GetBookRequest_deserializeBinaryFromReader_def
  new_GetBookRequest_def
  QueryBooksRequest_deserializeBinary_def QueryBooksRequest_deserializeBinaryFromReader_def
  new_QueryBooksRequest_def

context jspb begin

lemma book_round_trips:
  assumes "well_typed J encodable Book_schema g"
  shows "\<exists>b g'. Book_serializeBinary J g = Inr b \<and> Book_deserializeBinary J b = Some (Inr g') \<and>
    Book_toObject J False g' = Book_toObject J False g"
  using Book.round_trip [OF assms]
  by (auto simp: Book_serializeBinary_def deserialize_defs toObject_defs Book_schema_def
      Book.field_def)

lemma get_book_request_round_trips:
  assumes "well_typed J encodable GetBookRequest_schema g"
  shows "\<exists>b g'. GetBookRequest_serializeBinary J g = Inr b \<and>
    GetBookRequest_deserializeBinary J b = Some (Inr g') \<and>
    GetBookRequest_toObject J False g' = GetBookRequest_toObject J False g"
  using GetBookRequest.round_trip [OF assms]
  by (auto simp: GetBookRequest_serializeBinary_def deserialize_defs toObject_defs
      GetBookRequest_schema_def GetBookRequest.field_def)

lemma query_books_request_round_trips:
  assumes "well_typed J encodable QueryBooksRequest_schema g"
  shows "\<exists>b g'. QueryBooksRequest_serializeBinary J g = Inr b \<and>
    QueryBooksRequest_deserializeBinary J b = Some (Inr g') \<and>
    QueryBooksRequest_toObject J False g' = QueryBooksRequest_toObject J False g"
  using QueryBooksRequest.round_trip [OF assms]
  by (auto simp: QueryBooksRequest_serializeBinary_def deserialize_defs toObject_defs
      QueryBooksRequest_schema_def QueryBooksRequest.field_def)

lemma book_reads:
  assumes "reads (new_BinaryReader J b) fs" "list_all (conforms Book_schema) fs"
  shows "\<exists>g. Book_deserializeBinary J b = Some (Inr g) \<and> book_holds J fs g"
  using Book.read_loop_conforms [OF assms, of "initialize J None"]
  by (auto simp: deserialize_defs book_holds_def getter_defs Book_schema_def Book.field_def new_get)

lemma book_refuses:
  assumes "reads (new_BinaryReader J b) fs" "\<not> list_all (conforms Book_schema) fs"
  shows "\<exists>e. Book_deserializeBinary J b = Some (Inl e)"
proof -
  from assms(2) have "\<exists>f \<in> set fs. \<not> conforms Book_schema f" by (simp add: list_all_iff)
  from split_list_first_prop [OF this] obtain xs f ys where fs: "fs = xs @ f # ys"
    "\<not> conforms Book_schema f" "\<forall>y \<in> set xs. \<not> \<not> conforms Book_schema y" by blast
  obtain n u where "f = (n, u)" by fastforce
  with Book.read_loop_refuses [of "new_BinaryReader J b" xs n u ys "initialize J None"] assms(1) fs
  show ?thesis by (auto simp: deserialize_defs list_all_iff)
qed

lemma request_written:
  assumes "well_typed J encodable GetBookRequest_schema g"
  shows "\<exists>b. GetBookRequest_serializeBinary J g = Inr b \<and>
    reads (new_BinaryReader J b) (wire_fields J GetBookRequest_schema g)"
proof -
  from GetBookRequest.writes [OF assms write_nothing] obtain w where
    "GetBookRequest_serializeBinaryToWriter J g (new_BinaryWriter J) = Inr w"
    "wrote w (wire_fields J GetBookRequest_schema g)" by auto
  with read_back [OF this(2)] show ?thesis by (auto simp: GetBookRequest_serializeBinary_def)
qed

end

section \<open>Properties\<close>

text \<open>
  C12. The three message classes round trip: a message whose fields have their declared types and
  encodable values is serialized without an error, and what the class reads back has the same
  fields, default values (which are not written) included.
\<close>

theorem messages_round_trip:
  assumes "jspb J reads at_value wrote encodable"
    and "well_typed J encodable Book_schema book"
    and "well_typed J encodable GetBookRequest_schema request"
    and "well_typed J encodable QueryBooksRequest_schema query"
  shows "(\<exists>b g. Book_serializeBinary J book = Inr b \<and> Book_deserializeBinary J b = Some (Inr g) \<and>
      Book_toObject J False g = Book_toObject J False book) \<and>
    (\<exists>b g. GetBookRequest_serializeBinary J request = Inr b \<and>
      GetBookRequest_deserializeBinary J b = Some (Inr g) \<and>
      GetBookRequest_toObject J False g = GetBookRequest_toObject J False request) \<and>
    (\<exists>b g. QueryBooksRequest_serializeBinary J query = Inr b \<and>
      QueryBooksRequest_deserializeBinary J b = Some (Inr g) \<and>
      QueryBooksRequest_toObject J False g = QueryBooksRequest_toObject J False query)"
  using jspb.book_round_trips [OF assms(1,2)] jspb.get_book_request_round_trips [OF assms(1,3)]
    jspb.query_books_request_round_trips [OF assms(1,4)] by blast

definition demo_book :: "nat \<Rightarrow> field_value option" where
  "demo_book = new_Book wire_jspb (Some [Some (NumberValue (Num (- 300))), Some (StringValue (js ''Emma''))])"

definition demo_request :: "nat \<Rightarrow> field_value option" where
  "demo_request = GetBookRequest_setIsbn wire_jspb (NumberValue (Num 60929871)) (new_GetBookRequest wire_jspb None)"

definition demo_query :: "nat \<Rightarrow> field_value option" where
  "demo_query = QueryBooksRequest_setAuthorPrefix wire_jspb (StringValue (js ''Geor''))
     (new_QueryBooksRequest wire_jspb None)"

lemma demo_typed:
  "well_typed wire_jspb wire_encodable Book_schema demo_book"
  "well_typed wire_jspb wire_encodable GetBookRequest_schema demo_request"
  "well_typed wire_jspb wire_encodable QueryBooksRequest_schema demo_query"
  by code_simp+

lemma demo_book_bytes:
  "Book_serializeBinary wire_jspb demo_book =
     Inr [8, 0xD4, 0xFD, 0xFF, 0xFF, 0xFF, 0xFF, 0xFF, 0xFF, 0xFF, 1, 18, 4, 69, 109, 109, 97]"
proof -
  have isbn: "Book_getIsbn wire_jspb demo_book = NumberValue (Num (- 300))"
    and title: "Book_getTitle wire_jspb demo_book = StringValue (js ''Emma'')"
    and author: "Book_getAuthor wire_jspb demo_book = StringValue []" by code_simp+
  have "varint (to_int64 (- 300)) = [0xD4, 0xFD, 0xFF, 0xFF, 0xFF, 0xFF, 0xFF, 0xFF, 0xFF, 1]"
    by (simp add: to_int64_def varint.simps)
  then have i: "field_bytes (1, Value (NumberValue (Num (- 300)))) =
      [8, 0xD4, 0xFD, 0xFF, 0xFF, 0xFF, 0xFF, 0xFF, 0xFF, 0xFF, 1]"
    by (simp add: field_bytes_def varint.simps)
  have t: "field_bytes (2, Value (StringValue (js ''Emma''))) = [18, 4, 69, 109, 109, 97]"
    by code_simp
  have ok: "wire_encodable (NumberValue (Num (- 300)))" "wire_encodable (StringValue (js ''Emma''))"
    by (simp add: safe_def) code_simp
  have "length_positive (StringValue (js ''Emma''))" by simp
  show ?thesis
    unfolding Book_serializeBinary_def Book_serializeBinaryToWriter_def isbn title author
    using i t ok \<open>length_positive _\<close> by (simp add: wire_write_def del: js_Cons)
qed

theorem messages_round_trip_witness:
  "\<exists>g. Book_deserializeBinary wire_jspb
       [8, 0xD4, 0xFD, 0xFF, 0xFF, 0xFF, 0xFF, 0xFF, 0xFF, 0xFF, 1, 18, 4, 69, 109, 109, 97] = Some (Inr g) \<and>
     book_isbn (Book_toObject wire_jspb False g) = NumberValue (Num (- 300)) \<and>
     book_title (Book_toObject wire_jspb False g) = StringValue (js ''Emma'') \<and>
     book_author (Book_toObject wire_jspb False g) = StringValue []"
proof -
  have "book_isbn (Book_toObject wire_jspb False demo_book) = NumberValue (Num (- 300))"
    "book_title (Book_toObject wire_jspb False demo_book) = StringValue (js ''Emma'')"
    "book_author (Book_toObject wire_jspb False demo_book) = StringValue []" by code_simp+
  with messages_round_trip [OF wire.jspb_axioms demo_typed] demo_book_bytes show ?thesis by auto
qed

text \<open>
  C15. Reading a \<^verbatim>\<open>Book\<close> always returns, whatever fields arrive and in whatever order: it throws
  exactly when a known field has a wire type other than its own; otherwise the book holds the last
  value of each known field, its default if it did not arrive, and fields that the schema does not
  know are skipped.
\<close>

theorem book_reads_fields:
  assumes "jspb J reads at_value wrote encodable" "reads (new_BinaryReader J b) fs"
  shows "if list_all (conforms Book_schema) fs
    then \<exists>g. Book_deserializeBinary J b = Some (Inr g) \<and> book_holds J fs g
    else \<exists>e. Book_deserializeBinary J b = Some (Inl e)"
  using jspb.book_reads [OF assms] jspb.book_refuses [OF assms] by simp

text \<open>Fields out of order, a title twice and a field the schema does not know.\<close>

definition demo_fields :: "wire_field list" where
  "demo_fields = [(3, Value (StringValue (js ''A''))), (2, Value (StringValue (js ''X''))),
     (9, Other [1, 2, 3, 4]), (2, Value (StringValue (js ''Y'')))]"

lemma demo_fields_read:
  "wire_reads (new_BinaryReader wire_jspb [26, 1, 65, 18, 1, 88, 77, 1, 2, 3, 4, 18, 1, 89]) demo_fields"
proof -
  have "fields_bytes demo_fields = [26, 1, 65, 18, 1, 88, 77, 1, 2, 3, 4, 18, 1, 89] \<and>
      list_all field_ok demo_fields"
    by code_simp
  then show ?thesis by (simp add: wire_reads_def ends_fields_def)
qed

theorem book_reads_fields_witness:
  "\<exists>g. Book_deserializeBinary wire_jspb [26, 1, 65, 18, 1, 88, 77, 1, 2, 3, 4, 18, 1, 89] = Some (Inr g) \<and>
     Book_getTitle wire_jspb g = StringValue (js ''Y'') \<and> Book_getIsbn wire_jspb g = NumberValue (Num 0)"
proof -
  have c: "list_all (conforms Book_schema) demo_fields" by code_simp
  have v: "last_value 2 demo_fields empty_string = StringValue (js ''Y'')"
    "last_value 1 demo_fields zero = zero" by code_simp+
  from book_reads_fields [OF wire.jspb_axioms demo_fields_read] c show ?thesis
    by (auto simp: book_holds_def v v(2) [unfolded One_nat_def])
qed

end
