(* ===== verification/BookService_Steps.thy ===== *)
theory BookService_Steps
  imports BookService Message_Properties Websocket Xhr
begin

text \<open>
  How the two stub methods behave on their client: what an invocation of a closure does to the
  stub's variables, what the user of the returned object and the transport can do in any order
  (\<open>book_use\<close>, \<open>query_use\<close>), and the invariants that hold throughout.
\<close>

section \<open>getBook\<close>

lemma getBook_env_fields [simp]:
  "metadata (getBook_env M sl J tc body) = M"
  "methodDefinition (getBook_env M sl J tc body) = BookService_GetBook J"
  "transportCall (getBook_env M sl J tc body) = tc"
  "callback (getBook_env M sl J tc body) = unary_closure M (getBook_onEnd body)"
  by (simp_all add: getBook_env_def)

lemma client_call_simps [simp]:
  "\<not> registers (client_call a)"
  "observing (client_call a) \<longleftrightarrow> a \<noteq> Cancel"
  by (cases a; simp)+

lemma book_calls_fields:
  "bookCalls (fst (book_calls as s)) = bookCalls s"
  "callbackVar s = None \<Longrightarrow> callbackVar (fst (book_calls as s)) = None"
  "Cancel \<notin> set as \<Longrightarrow> Cancel \<notin> set (snd (book_calls as s))"
  by (induction as s rule: book_calls.induct) (auto simp: case_prod_beta Let_def)

lemma getBook_onEnd_fields:
  "length (bookCalls (fst (getBook_onEnd body out s))) \<le> Suc (length (bookCalls s))"
  "callbackVar s = None \<Longrightarrow> getBook_onEnd body out s = (s, [])"
  "list_all (\<lambda>a. \<not> registers a) (snd (getBook_onEnd body out s))"
  by (auto simp: getBook_onEnd_def book_calls_fields case_prod_beta Let_def list_all_iff
      split: option.split js_argument.split)

lemma getBook_in: "bodies_in (\<lambda>a. \<not> registers a) (getBook_onEnd body)"
  by (simp add: bodies_in_def getBook_onEnd_fields)

text \<open>A function of the user that never cancels.\<close>

definition keeps_request :: "('k \<Rightarrow> 'e \<Rightarrow> 'v \<Rightarrow> 'v \<times> stub_call list) \<Rightarrow> bool" where
  "keeps_request body \<longleftrightarrow> (\<forall>k ev v. Cancel \<notin> set (snd (body k ev v)))"

lemma getBook_observing: "keeps_request body \<Longrightarrow> bodies_in observing (getBook_onEnd body)"
  by (auto simp: bodies_in_def getBook_onEnd_def keeps_request_def book_calls_fields
      case_prod_beta Let_def list_all_iff split: option.split js_argument.split)

text \<open>What the user's function is given for an output.\<close>

definition book_event_of :: "('m, 'g) unary_output \<Rightarrow> ('m, 'g) book_event" where
  "book_event_of out =
     (if out_status out \<noteq> code OK
      then BookFailed (out_statusMessage out) (out_status out) (out_trailers out)
      else BookReply (out_message out))"

lemma getBook_onEnd_calls:
  "callbackVar s = Some (FunctionArg k) \<Longrightarrow>
     bookCalls (fst (getBook_onEnd body out s)) = bookCalls s @ [(k, book_event_of out)]"
  by (simp add: getBook_onEnd_def book_calls_fields case_prod_beta Let_def book_event_of_def)

lemma getBook_calls:
  assumes "getBook M sl J tc body df this request args v = (e, Some c)"
    and "driven (getBook_env M sl J tc body) is c d"
    and "(if length args = 1 then argument 0 args else argument 1 args) = Some (FunctionArg k)"
    and "outputs (user d) = [out]"
  shows "bookCalls (outer (user d)) = [(k, book_event_of out)]"
  using unary_outer [OF assms(1) [unfolded getBook_def Let_def getBook_env_def] assms(2) [unfolded getBook_env_def]]
    assms(3,4)
  by (simp add: getBook_onEnd_calls)

text \<open>
  Everything that can happen to a call that \<^verbatim>\<open>getBook\<close> made: its transport speaks, in any order,
  and the user cancels, any number of times.
\<close>

inductive book_use ::
  "('m, 'x, 'g, 'g, unary_callback, ('m, 'g, ('m, 'g, 'a, 'k, 'v) book_state) unary_state, 't) env
     \<Rightarrow> ('m, 'g, unary_callback, ('m, 'g, ('m, 'g, 'a, 'k, 'v) book_state) unary_state, 't) client
     \<Rightarrow> ('m, 'g, unary_callback, ('m, 'g, ('m, 'g, 'a, 'k, 'v) book_state) unary_state, 't) client
     \<Rightarrow> bool"
  for E
where
  begun: "book_use E c c"
| told: "book_use E c d \<Longrightarrow> driven E is d f \<Longrightarrow> list_all (admissible (\<lambda>_. False)) is \<Longrightarrow> book_use E c f"
| cancelled: "book_use E c d \<Longrightarrow> book_use E c (snd (getBook_cancel E d))"

text \<open>What a step of the client keeps and cancelling keeps holds in every use.\<close>

lemma book_use_keeps:
  assumes "book_use E c d" "P c"
    and "\<And>i c. admissible (\<lambda>_. False) i \<Longrightarrow> P c \<Longrightarrow> P (step E i c)"
    and "\<And>t c. P c \<Longrightarrow> P (c\<lparr>transport := t\<rparr>)"
    and "\<And>c. P c \<Longrightarrow> P (snd (getBook_cancel E c))"
  shows "P d"
  using assms(1,2)
proof (induction rule: book_use.induct)
  case (told c d "is" f)
  from told(4) [OF told(5)] show ?case
    by (rule driven_keeps [OF told(2) _ told(3)]) (auto intro: assms(3,4))
qed (simp_all add: assms(5))

lemma getBook_cancel_fields:
  "bookCalls (outer (user (snd (getBook_cancel E c)))) = bookCalls (outer (user c))"
  "callbackVar (outer (user (snd (getBook_cancel E c)))) = None"
  "callback_lists (snd (getBook_cancel E c)) = callback_lists c"
  "ends (snd (getBook_cancel E c)) = ends c"
  "completed (snd (getBook_cancel E c)) = completed c"
proof -
  let ?c = "c\<lparr>user := (user c)\<lparr>outer := (outer (user c))\<lparr>callbackVar := None\<rparr>\<rparr>\<rparr>"
  have "user (snd (close E ?c)) = user ?c"
    using run_action_fields(5) [of E Close ?c] by simp
  then show "bookCalls (outer (user (snd (getBook_cancel E c)))) = bookCalls (outer (user c))"
    "callbackVar (outer (user (snd (getBook_cancel E c)))) = None"
    by (simp_all add: getBook_cancel_def)
  show "callback_lists (snd (getBook_cancel E c)) = callback_lists c"
    using run_action_lists [of Close E ?c] by (simp add: getBook_cancel_def callback_lists_def)
  show "ends (snd (getBook_cancel E c)) = ends c"
    using run_actions_notified [of E "[Close]" ?c]
    by (simp add: getBook_cancel_def ends_def split: prod.splits option.splits)
  show "completed (snd (getBook_cancel E c)) = completed c"
    using run_action_fields(1) [of E Close ?c] by (simp add: getBook_cancel_def)
qed

text \<open>Each invocation of the user's function is an end of the request; after \<^verbatim>\<open>cancel\<close> there is none.\<close>

type_synonym ('m, 'g, 'a, 'k, 'v, 't) book_client =
  "('m, 'g, unary_callback, ('m, 'g, ('m, 'g, 'a, 'k, 'v) book_state) unary_state, 't) client"

definition calls_counted :: "('m, 'g, 'a, 'k, 'v, 't) book_client \<Rightarrow> bool" where
  "calls_counted c \<longleftrightarrow> length (bookCalls (outer (user c))) \<le> length (ends c)"

definition book_silent ::
  "('k \<times> ('m, 'g) book_event) list \<Rightarrow> ('m, 'g, 'a, 'k, 'v, 't) book_client \<Rightarrow> bool"
where
  "book_silent K c \<longleftrightarrow> callbackVar (outer (user c)) = None \<and> bookCalls (outer (user c)) = K"

lemma unary_closure_calls:
  "length (bookCalls (outer (fst (unary_closure M (getBook_onEnd body) cb ev s)))) \<le>
     length (bookCalls (outer s)) + (if is_end ev then 1 else 0)"
  using getBook_onEnd_fields(1) [of body _ "outer s"]
  by (cases cb; cases ev) (auto simp: Let_def case_prod_beta)

interpretation book_calls:
  client_invariant "getBook_env M sl J tc body" any_action calls_counted for M sl J tc body
proof unfold_locales
  fix c c' assume "micro (getBook_env M sl J tc body) any_action c c'" "calls_counted c"
  then show "calls_counted c'"
  proof (induction rule: micro.induct)
    case (api a c)
    then show ?case
      using run_actions_notified [of "getBook_env M sl J tc body" "[a]" c]
        run_action_fields(5) [of "getBook_env M sl J tc body" a c]
      by (simp add: calls_counted_def ends_def split: prod.splits option.splits)
  next
    case (notify ev c cb)
    let ?d = "entered (getBook_env M sl J tc body) ev cb c"
    have "length (ends ?d) = length (ends c) + (if is_end ev then 1 else 0)"
      by (simp add: ends_def flag_simps trace_simps)
    moreover have "length (bookCalls (outer (user ?d))) \<le>
        length (bookCalls (outer (user c))) + (if is_end ev then 1 else 0)"
      using unary_closure_calls [of M body cb ev "user c"] by (simp add: flag_simps)
    ultimately show ?case using notify(2) unfolding calls_counted_def by linarith
  qed (simp_all add: calls_counted_def ends_def trace_simps)
qed

interpretation book_cancelled:
  client_invariant "getBook_env M sl J tc body" any_action "book_silent K" for M sl J tc body K
proof unfold_locales
  fix c c' assume "micro (getBook_env M sl J tc body) any_action c c'" "book_silent K c"
  then show "book_silent K c'"
  proof (induction rule: micro.induct)
    case (api a c)
    then show ?case
      using run_action_fields(5) [of "getBook_env M sl J tc body" a c] by (simp add: book_silent_def)
  next
    case (notify ev c cb)
    then show ?case
      by (cases cb; cases ev) (simp_all add: book_silent_def flag_simps getBook_onEnd_fields(2))
  qed (simp_all add: book_silent_def)
qed

lemma book_use_cancelled:
  assumes "book_use (getBook_env M sl J tc body) (snd (getBook_cancel (getBook_env M sl J tc body) c)) d"
  shows "bookCalls (outer (user d)) = bookCalls (outer (user c))"
proof -
  let ?K = "bookCalls (outer (user c))"
  have "book_silent ?K d"
  proof (rule book_use_keeps [OF assms, where P = "book_silent ?K"])
    show "book_silent ?K (step (getBook_env M sl J tc body) i d)" if "book_silent ?K d" for i d
      using book_cancelled.run_inv [of M sl J tc body "[i]" ?K d] that by (simp add: run_def)
  qed (simp_all add: getBook_cancel_fields book_silent_def)
  then show ?thesis by (simp add: book_silent_def)
qed

definition book_ok :: "('m, 'g, 'a, 'k, 'v, 't) book_client \<Rightarrow> bool" where
  "book_ok c \<longleftrightarrow> end_batch c \<and> onEndCallbacks c = [UnaryOnEnd] \<and> calls_counted c"

lemma book_ok_step:
  assumes "admissible (\<lambda>_. False) i" "book_ok c"
  shows "book_ok (step (getBook_env M sl J tc body) i c)"
proof -
  let ?E = "getBook_env M sl J tc body"
  have "callbacks_in ?E (\<lambda>a. \<not> registers a)"
    unfolding getBook_env_def by (rule unary_callbacks_in [OF getBook_in])
  moreover have "admissible (\<lambda>a. \<not> registers a) i" using assms(1) by (cases i) simp_all
  ultimately have "callback_lists (step ?E i c) = callback_lists c"
    using same_lists.run_inv [of ?E "[i]" c "callback_lists c"] by (simp add: run_def)
  with assms(2) show ?thesis
    using book_calls.run_inv [of M sl J tc body "[i]" c] step_end_batch [of c ?E i]
    by (simp add: book_ok_def run_def callback_lists_def)
qed

lemma book_ok_cancel: "book_ok c \<Longrightarrow> book_ok (snd (getBook_cancel E c))"
  using getBook_cancel_fields [of E c]
  unfolding book_ok_def calls_counted_def end_batch_def callback_lists_def by (metis prod.inject)

lemma book_use_once:
  assumes "getBook M sl J tc body df this request args v = (e, Some c)"
    and "book_use (getBook_env M sl J tc body) c d"
  shows "length (bookCalls (outer (user d))) \<le> 1"
proof -
  note fresh = unary_fresh [OF assms(1) [unfolded getBook_def Let_def]]
  have "book_ok d"
  proof (rule book_use_keeps [OF assms(2), where P = book_ok])
    show "book_ok c"
      using fresh fresh_with_end_batch [OF fresh]
      by (simp add: book_ok_def calls_counted_def fresh_with_def face_def new_unary_state_def)
  qed (simp_all add: book_ok_step book_ok_cancel, simp add: book_ok_def calls_counted_def ends_def)
  then have "length (ends d) \<le> 1" "length (bookCalls (outer (user d))) \<le> length (ends d)"
    by (auto simp: book_ok_def calls_counted_def end_batch_def dest: prefix_length_le)
  then show ?thesis by simp
qed

section \<open>queryBooks\<close>

type_synonym ('m, 'g, 'k, 'v, 't) query_client =
  "('m, 'g, query_callback, ('m, 'g, 'k, 'v) query_state, 't) client"

lemma queryBooks_env_fields [simp]:
  "metadata (queryBooks_env M sl J tc body) = M"
  "methodDefinition (queryBooks_env M sl J tc body) = BookService_QueryBooks J"
  "transportCall (queryBooks_env M sl J tc body) = tc"
  "callback (queryBooks_env M sl J tc body) = queryBooks_closure body"
  by (simp_all add: queryBooks_env_def)

text \<open>What a loop over listeners does to the history and to the variable.\<close>

lemma query_on_fields:
  "heard (snd (query_on ty k s)) = heard s"
  "listenersVar s = None \<Longrightarrow> query_on ty k s = (Some null_listeners, s)"
  by (auto simp: query_on_def split: option.split)

lemma query_calls_heard: "heard (fst (snd (snd (query_calls as gone s)))) = heard s"
  by (induction as gone s rule: query_calls.induct)
    (auto simp: Let_def case_prod_beta query_on_def split: option.split)

lemma tell_listeners_heard:
  "\<exists>ks'. prefix ks' ks \<and>
     heard (fst (snd (snd (tell_listeners body ev ks gone s)))) = heard s @ map (\<lambda>k. (k, ev)) ks'"
proof (induction ks arbitrary: gone s)
  case (Cons k ks)
  let ?s = "s\<lparr>heard := heard s @ [(k, ev)], queryUser := fst (body k ev (queryUser s))\<rparr>"
  let ?q = "query_calls (snd (body k ev (queryUser s))) gone ?s"
  have h: "heard (fst (snd (snd ?q))) = heard s @ [(k, ev)]" by (simp add: query_calls_heard)
  show ?case
  proof (cases "fst ?q")
    case True
    with h show ?thesis by (intro exI [of _ "[k]"]) (simp add: Let_def case_prod_beta)
  next
    case False
    obtain ks' where "prefix ks' ks"
      "heard (fst (snd (snd (tell_listeners body ev ks (fst (snd ?q)) (fst (snd (snd ?q))))))) =
         heard (fst (snd (snd ?q))) @ map (\<lambda>k. (k, ev)) ks'"
      using Cons.IH by blast
    with False h show ?thesis by (intro exI [of _ "k # ks'"]) (simp add: Let_def case_prod_beta)
  qed
qed simp

text \<open>Listeners that make no calls are all told, in order.\<close>

definition quiet_listeners :: "('k \<Rightarrow> 'e \<Rightarrow> 'v \<Rightarrow> 'v \<times> 'k query_call list) \<Rightarrow> bool" where
  "quiet_listeners body \<longleftrightarrow> (\<forall>k ev v. snd (body k ev v) = [])"

lemma tell_quiet_listeners:
  assumes "quiet_listeners body"
  shows "\<exists>v. tell_listeners body ev ks gone s =
     (False, gone, s\<lparr>heard := heard s @ map (\<lambda>k. (k, ev)) ks, queryUser := v\<rparr>, [])"
proof (induction ks arbitrary: s)
  case Nil
  show ?case by (intro exI [of _ "queryUser s"]) simp
next
  case (Cons k ks)
  have "snd (body k ev (queryUser s)) = []" using assms by (simp add: quiet_listeners_def)
  with Cons.IH [of "s\<lparr>heard := heard s @ [(k, ev)], queryUser := fst (body k ev (queryUser s))\<rparr>"]
  show ?case by (auto simp: Let_def case_prod_beta)
qed

section \<open>What the listeners hear of a response\<close>

definition hears :: "'k list \<Rightarrow> ('m, 'g) query_event \<Rightarrow> ('k \<times> ('m, 'g) query_event) list" where
  "hears ks ev = map (\<lambda>k. (k, ev)) ks"

lemma replay_Cons: "replay E ((cb, ev) # evs) u = replay E evs (fst (callback E cb ev u))"
  by (simp add: replay_def)

lemma data_told:
  assumes "quiet_listeners body" "listenersVar s = Some l"
  shows "\<exists>v. queryBooks_onMessage body r s =
    (s\<lparr>heard := heard s @ hears (dataListeners l) (DataHeard r), queryUser := v\<rparr>, [])"
  using tell_quiet_listeners [OF assms(1), of "DataHeard r" "dataListeners l" False s] assms(2)
  by (auto simp: queryBooks_onMessage_def hears_def)

lemma replay_data:
  assumes "quiet_listeners body" "listenersVar s = Some l"
  shows "\<exists>v. replay (queryBooks_env M sl J tc body) (map (\<lambda>r. (QueryOnMessage, MessageEv r)) rs) s =
    s\<lparr>heard := heard s @ concat (map (\<lambda>r. hears (dataListeners l) (DataHeard r)) rs), queryUser := v\<rparr>"
  using assms(2)
proof (induction rs arbitrary: s)
  case Nil
  show ?case by (intro exI [of _ "queryUser s"]) (simp add: replay_def)
next
  case (Cons r rs)
  obtain v where v: "queryBooks_onMessage body r s =
      (s\<lparr>heard := heard s @ hears (dataListeners l) (DataHeard r), queryUser := v\<rparr>, [])"
    using data_told [OF assms(1) Cons.prems] by blast
  with Cons.IH [of "s\<lparr>heard := heard s @ hears (dataListeners l) (DataHeard r), queryUser := v\<rparr>"] Cons.prems
  show ?case by (auto simp: replay_Cons)
qed

lemma end_told:
  assumes "quiet_listeners body" "listenersVar s = Some l"
  shows "\<exists>v. queryBooks_onEnd body st msg m s =
    (s\<lparr>heard := heard s @ hears (statusListeners l) (StatusHeard st msg m) @
               hears (endListeners l) (EndHeard st msg m),
       queryUser := v, listenersVar := None\<rparr>, [])"
proof -
  let ?st = "StatusHeard st msg m" and ?en = "EndHeard st msg m"
  obtain v where v: "tell_listeners body ?st (statusListeners l) False s =
      (False, False, s\<lparr>heard := heard s @ hears (statusListeners l) ?st, queryUser := v\<rparr>, [])"
    using tell_quiet_listeners [OF assms(1)] unfolding hears_def by blast
  let ?s = "s\<lparr>heard := heard s @ hears (statusListeners l) ?st, queryUser := v\<rparr>"
  obtain w where "tell_listeners body ?en (endListeners l) False ?s =
      (False, False, ?s\<lparr>heard := heard ?s @ hears (endListeners l) ?en, queryUser := w\<rparr>, [])"
    using tell_quiet_listeners [OF assms(1)] unfolding hears_def by blast
  with v assms(2) show ?thesis
    by (intro exI [of _ w]) (simp add: queryBooks_onEnd_def)
qed

lemma closure_observing:
  assumes "quiet_listeners body"
  shows "list_all observing (snd (queryBooks_closure body cb ev s))"
proof (cases "listenersVar s")
  case None
  then show ?thesis
    by (cases cb; cases ev) (simp_all add: queryBooks_onMessage_def queryBooks_onEnd_def)
next
  case (Some l)
  show ?thesis
  proof (cases cb)
    case QueryOnMessage
    then show ?thesis
    proof (cases ev)
      case (MessageEv r)
      with QueryOnMessage data_told [OF assms Some, of r] show ?thesis by auto
    qed simp_all
  next
    case QueryOnEnd
    then show ?thesis
    proof (cases ev)
      case (EndEv st msg m)
      with QueryOnEnd end_told [OF assms Some, of st msg m] show ?thesis by auto
    qed simp_all
  qed
qed

lemma queryBooks_observers: "quiet_listeners body \<Longrightarrow> observers (queryBooks_env M sl J tc body)"
  by (simp add: observers_def closure_observing)

text \<open>The listeners that a list of calls of \<^verbatim>\<open>on\<close> registers, on the object \<^verbatim>\<open>queryBooks\<close> returned.\<close>

fun register_all ::
  "(js_string \<times> 'k) list \<Rightarrow> ('m, 'g, 'k, 'v, 't) query_client \<Rightarrow> ('m, 'g, 'k, 'v, 't) query_client"
where
  "register_all [] c = c"
| "register_all ((ty, k) # ons) c = register_all ons (snd (queryBooks_on ty k c))"

definition of_type :: "js_string \<Rightarrow> (js_string \<times> 'k) list \<Rightarrow> 'k list" where
  "of_type ty ons = map snd (filter (\<lambda>(t, k). t = ty) ons)"

lemma of_type_simps:
  "of_type ty [] = []"
  "of_type ty (p # ons) = of_type ty [p] @ of_type ty ons"
  by (simp_all add: of_type_def)

lemma query_on_adds:
  assumes "listenersVar s = Some l"
  shows "snd (query_on ty k s) = s\<lparr>listenersVar := Some
      \<lparr>dataListeners = dataListeners l @ of_type (js ''data'') [(ty, k)],
       endListeners = endListeners l @ of_type (js ''end'') [(ty, k)],
       statusListeners = statusListeners l @ of_type (js ''status'') [(ty, k)]\<rparr>\<rparr>"
proof -
  have d: "js ''data'' \<noteq> js ''end''" "js ''data'' \<noteq> js ''status''" "js ''end'' \<noteq> js ''status''"
    by simp_all
  consider "ty = js ''data''" | "ty = js ''end''" | "ty = js ''status''"
    | "ty \<noteq> js ''data''" "ty \<noteq> js ''end''" "ty \<noteq> js ''status''" by blast
  then show ?thesis
    using assms d by cases (simp_all add: query_on_def of_type_def del: js_Cons)
qed

lemma register_all_listeners:
  "listenersVar (user c) = Some l \<Longrightarrow>
     register_all ons c = c\<lparr>user := (user c)\<lparr>listenersVar := Some
       \<lparr>dataListeners = dataListeners l @ of_type (js ''data'') ons,
        endListeners = endListeners l @ of_type (js ''end'') ons,
        statusListeners = statusListeners l @ of_type (js ''status'') ons\<rparr>\<rparr>\<rparr>"
proof (induction ons arbitrary: c l)
  case (Cons p ons)
  obtain ty k where p: "p = (ty, k)" by fastforce
  let ?l = "\<lparr>dataListeners = dataListeners l @ of_type (js ''data'') [(ty, k)],
       endListeners = endListeners l @ of_type (js ''end'') [(ty, k)],
       statusListeners = statusListeners l @ of_type (js ''status'') [(ty, k)]\<rparr>"
  have "snd (queryBooks_on ty k c) = c\<lparr>user := (user c)\<lparr>listenersVar := Some ?l\<rparr>\<rparr>"
    using query_on_adds [OF Cons.prems, of ty k] by (simp add: queryBooks_on_def case_prod_beta Let_def)
  with Cons.IH [of "snd (queryBooks_on ty k c)" ?l] show ?case
    by (simp add: p of_type_simps(2) [of _ "(ty, k)" ons] del: js_Cons)
qed (simp add: of_type_simps)

lemma queryBooks_fresh:
  assumes "queryBooks M sl J tc body df this request md v = (e, Some c)"
  shows "fresh_with [] [QueryOnMessage] [QueryOnEnd] (user (register_all ons c)) (register_all ons c)"
    and "user (register_all ons c) = (new_query_state v)\<lparr>listenersVar := Some
      \<lparr>dataListeners = of_type (js ''data'') ons, endListeners = of_type (js ''end'') ons,
       statusListeners = of_type (js ''status'') ons\<rparr>\<rparr>"
proof -
  have f: "fresh_with [] [QueryOnMessage] [QueryOnEnd] (new_query_state v) c"
    using invoke_fresh [OF assms [unfolded queryBooks_def]] by (simp add: option_list_def)
  then have u: "user c = new_query_state v" by (simp add: fresh_with_def)
  have r: "register_all ons c = c\<lparr>user := (user c)\<lparr>listenersVar := Some
      \<lparr>dataListeners = of_type (js ''data'') ons, endListeners = of_type (js ''end'') ons,
       statusListeners = of_type (js ''status'') ons\<rparr>\<rparr>\<rparr>"
    using register_all_listeners [of c "\<lparr>dataListeners = [], endListeners = [], statusListeners = []\<rparr>" ons]
    by (simp add: u new_query_state_def)
  from fresh_user [OF f] show "fresh_with [] [QueryOnMessage] [QueryOnEnd] (user (register_all ons c)) (register_all ons c)"
    unfolding r by simp
  show "user (register_all ons c) = (new_query_state v)\<lparr>listenersVar := Some
      \<lparr>dataListeners = of_type (js ''data'') ons, endListeners = of_type (js ''end'') ons,
       statusListeners = of_type (js ''status'') ons\<rparr>\<rparr>"
    unfolding r by (simp add: u)
qed

lemma query_delivers:
  assumes "queryBooks M sl J tc body df this request md v = (e, Some c)"
    and "driven (queryBooks_env M sl J tc body)
      (TransportHeaders h status # map TransportChunk bs @ [TransportEnd]) (register_all ons c) d"
    and "quiet_listeners body"
    and "status \<noteq> 0" "headers_code (getStatusFromHeaders M h) status = code OK"
    and "list_all (\<lambda>d. length d < 2 ^ 32) ds" "length t < 2 ^ 32" "concat bs = response_stream ds t"
    and "list_all2 (\<lambda>d r. returned (Book_deserializeBinary J d) = Inr r) ds rs" "parseTrailerData M t = Inr m"
    and "status_of M (md_copy M m) = Some (st, msg)"
  shows "heard (user d) =
      concat (map (\<lambda>r. hears (of_type (js ''data'') ons) (DataHeard r)) rs) @
      hears (of_type (js ''status'') ons) (StatusHeard st msg (md_copy M m)) @
      hears (of_type (js ''end'') ons) (EndHeard st msg (md_copy M m)) \<and>
    listenersVar (user d) = None"
proof -
  let ?E = "queryBooks_env M sl J tc body" and ?s = "user (register_all ons c)"
  let ?l = "\<lparr>dataListeners = of_type (js ''data'') ons, endListeners = of_type (js ''end'') ons,
       statusListeners = of_type (js ''status'') ons\<rparr>"
  note fresh = queryBooks_fresh [OF assms(1), of ons]
  have n: "notified (trace d) = map (\<lambda>r. (QueryOnMessage, MessageEv r)) rs @
      [(QueryOnEnd, EndEv st msg (md_copy M m))]"
    using fresh_delivers [OF fresh(1) assms(2) queryBooks_observers [OF assms(3)], of ds t rs m st msg] assms(4-11)
    by (simp add: deserialized_def BookService_QueryBooks_def message_events_single)
  have l: "listenersVar ?s = Some ?l" "heard ?s = []" using fresh(2) by (simp_all add: new_query_state_def)
  obtain w where w: "replay ?E (map (\<lambda>r. (QueryOnMessage, MessageEv r)) rs) ?s = ?s\<lparr>heard := heard ?s @
      concat (map (\<lambda>r. hears (dataListeners ?l) (DataHeard r)) rs), queryUser := w\<rparr>"
    using replay_data [OF assms(3) l(1)] by blast
  let ?s' = "?s\<lparr>heard := concat (map (\<lambda>r. hears (of_type (js ''data'') ons) (DataHeard r)) rs), queryUser := w\<rparr>"
  have "listenersVar ?s' = Some ?l" using l by simp
  from end_told [OF assms(3) this, of st msg "md_copy M m"] obtain x where
    "queryBooks_onEnd body st msg (md_copy M m) ?s' =
      (?s'\<lparr>heard := heard ?s' @ hears (statusListeners ?l) (StatusHeard st msg (md_copy M m)) @
        hears (endListeners ?l) (EndHeard st msg (md_copy M m)), queryUser := x, listenersVar := None\<rparr>, [])"
    by blast
  moreover have "user d = replay ?E [(QueryOnEnd, EndEv st msg (md_copy M m))] ?s'"
    using unary_user [OF assms(2) fresh(1)] w l(2) by (simp add: n replay_append del: js_Cons)
  ultimately show ?thesis by (simp add: replay_def del: js_Cons)
qed

section \<open>Everything that can happen to a call of queryBooks\<close>

inductive query_use ::
  "('m, 'a, 'g, 'g, query_callback, ('m, 'g, 'k, 'v) query_state, 't) env
     \<Rightarrow> ('m, 'g, 'k, 'v, 't) query_client \<Rightarrow> ('m, 'g, 'k, 'v, 't) query_client \<Rightarrow> bool"
  for E
where
  query_begun: "query_use E c c"
| query_told: "query_use E c d \<Longrightarrow> driven E is d f \<Longrightarrow> list_all (admissible (\<lambda>_. False)) is \<Longrightarrow> query_use E c f"
| query_listens: "query_use E c d \<Longrightarrow> query_use E c (snd (queryBooks_on ty k d))"
| query_cancelled: "query_use E c d \<Longrightarrow> query_use E c (snd (queryBooks_cancel E d))"

lemma query_use_keeps:
  assumes "query_use E c d" "P c"
    and "\<And>i c. admissible (\<lambda>_. False) i \<Longrightarrow> P c \<Longrightarrow> P (step E i c)"
    and "\<And>t c. P c \<Longrightarrow> P (c\<lparr>transport := t\<rparr>)"
    and "\<And>ty k c. P c \<Longrightarrow> P (snd (queryBooks_on ty k c))"
    and "\<And>c. P c \<Longrightarrow> P (snd (queryBooks_cancel E c))"
  shows "P d"
  using assms(1,2)
proof (induction rule: query_use.induct)
  case (query_told c d "is" f)
  from query_told(4) [OF query_told(5)] show ?case
    by (rule driven_keeps [OF query_told(2) _ query_told(3)]) (auto intro: assms(3,4))
qed (simp_all add: assms(5,6))

lemma queryBooks_on_fields:
  "heard (user (snd (queryBooks_on ty k c))) = heard (user c)"
  "listenersVar (user c) = None \<Longrightarrow> queryBooks_on ty k c = (Some null_listeners, c)"
  "callback_lists (snd (queryBooks_on ty k c)) = callback_lists c"
  "trace (snd (queryBooks_on ty k c)) = trace c"
  "completed (snd (queryBooks_on ty k c)) = completed c"
  by (simp_all add: queryBooks_on_def query_on_fields callback_lists_def case_prod_beta Let_def)

lemma queryBooks_cancel_fields:
  "heard (user (snd (queryBooks_cancel E c))) = heard (user c)"
  "listenersVar (user (snd (queryBooks_cancel E c))) = None"
  "callback_lists (snd (queryBooks_cancel E c)) = callback_lists c"
  "notified (trace (snd (queryBooks_cancel E c))) = notified (trace c)"
  "completed (snd (queryBooks_cancel E c)) = completed c"
proof -
  let ?c = "c\<lparr>user := (user c)\<lparr>listenersVar := None\<rparr>\<rparr>"
  have "user (snd (close E ?c)) = user ?c"
    using run_action_fields(5) [of E Close ?c] by simp
  then show "heard (user (snd (queryBooks_cancel E c))) = heard (user c)"
    "listenersVar (user (snd (queryBooks_cancel E c))) = None"
    by (simp_all add: queryBooks_cancel_def)
  show "callback_lists (snd (queryBooks_cancel E c)) = callback_lists c"
    using run_action_lists [of Close E ?c] by (simp add: queryBooks_cancel_def callback_lists_def)
  show "notified (trace (snd (queryBooks_cancel E c))) = notified (trace c)"
    using run_actions_notified [of E "[Close]" ?c]
    by (simp add: queryBooks_cancel_def split: prod.splits option.splits)
  show "completed (snd (queryBooks_cancel E c)) = completed c"
    using run_action_fields(1) [of E Close ?c] by (simp add: queryBooks_cancel_def)
qed

text \<open>Without listeners nothing is heard any more.\<close>

definition query_silent ::
  "('k \<times> ('m, 'g) query_event) list \<Rightarrow> ('m, 'g, 'k, 'v, 't) query_client \<Rightarrow> bool"
where
  "query_silent K c \<longleftrightarrow> listenersVar (user c) = None \<and> heard (user c) = K"

interpretation query_silent:
  client_invariant "queryBooks_env M sl J tc body" any_action "query_silent K" for M sl J tc body K
proof unfold_locales
  fix c c' assume "micro (queryBooks_env M sl J tc body) any_action c c'" "query_silent K c"
  then show "query_silent K c'"
  proof (induction rule: micro.induct)
    case (api a c)
    then show ?case
      using run_action_fields(5) [of "queryBooks_env M sl J tc body" a c] by (simp add: query_silent_def)
  next
    case (notify ev c cb)
    then show ?case
      by (cases cb; cases ev)
        (simp_all add: query_silent_def flag_simps queryBooks_onMessage_def queryBooks_onEnd_def)
  qed (simp_all add: query_silent_def)
qed

lemma query_use_silent:
  assumes "query_use (queryBooks_env M sl J tc body) c d" "listenersVar (user c) = None"
  shows "heard (user d) = heard (user c) \<and> queryBooks_on ty k d = (Some null_listeners, d)"
proof -
  let ?K = "heard (user c)"
  have "query_silent ?K d"
  proof (rule query_use_keeps [OF assms(1), where P = "query_silent ?K"])
    show "query_silent ?K (step (queryBooks_env M sl J tc body) i d)" if "query_silent ?K d" for i d
      using query_silent.run_inv [of M sl J tc body "[i]" ?K d] that by (simp add: run_def)
  qed (simp_all add: query_silent_def assms(2) queryBooks_cancel_fields(1,2) queryBooks_on_fields(2))
  then show ?thesis by (simp add: query_silent_def queryBooks_on_fields(2))
qed

text \<open>The order in which listeners are told: data, then the status, then the end.\<close>

fun is_data :: "('m, 'g) query_event \<Rightarrow> bool" where
  "is_data (DataHeard _) = True"
| "is_data _ = False"

lemma is_data_iff: "is_data ev \<longleftrightarrow> (\<exists>g. ev = DataHeard g)"
  by (cases ev) simp_all

lemma data_events: "list_all is_data (map snd ds) \<Longrightarrow> \<forall>(k, ev) \<in> set ds. \<exists>g. ev = DataHeard g"
  by (auto simp: list_all_iff is_data_iff)

definition query_order :: "('k \<times> ('m, 'g) query_event) list \<Rightarrow> bool" where
  "query_order hs \<longleftrightarrow>
     (\<exists>ds ks es st msg m. hs = ds @ hears ks (StatusHeard st msg m) @ hears es (EndHeard st msg m) \<and>
        list_all is_data (map snd ds))"

lemma query_orderI:
  "list_all is_data (map snd ds) \<Longrightarrow>
     query_order (ds @ hears ks (StatusHeard st msg m) @ hears es (EndHeard st msg m))"
  unfolding query_order_def by blast

lemma query_order_data: "list_all is_data (map snd ds) \<Longrightarrow> query_order ds"
  using query_orderI [of ds "[]" _ _ _ "[]"] by (simp add: hears_def)

lemma onMessage_heard:
  "\<exists>ks. heard (fst (queryBooks_onMessage body r s)) = heard s @ hears ks (DataHeard r)"
proof (cases "listenersVar s")
  case None
  then show ?thesis by (intro exI [of _ "[]"]) (simp add: queryBooks_onMessage_def hears_def)
next
  case (Some l)
  with tell_listeners_heard [of "dataListeners l" body "DataHeard r" False s] show ?thesis
    by (auto simp: queryBooks_onMessage_def hears_def case_prod_beta)
qed

lemma onEnd_heard:
  "\<exists>ks es. heard (fst (queryBooks_onEnd body st msg m s)) =
     heard s @ hears ks (StatusHeard st msg m) @ hears es (EndHeard st msg m)"
proof (cases "listenersVar s")
  case None
  then show ?thesis by (intro exI [of _ "[]"]) (simp add: queryBooks_onEnd_def hears_def)
next
  case (Some l)
  let ?r = "tell_listeners body (StatusHeard st msg m) (statusListeners l) False s"
  let ?s = "fst (snd (snd ?r))"
  obtain ks where ks: "heard ?s = heard s @ hears ks (StatusHeard st msg m)"
    using tell_listeners_heard [of "statusListeners l" body "StatusHeard st msg m" False s]
    by (auto simp: hears_def)
  show ?thesis
  proof (cases "fst ?r \<or> listenersVar ?s = None")
    case True
    with Some ks show ?thesis
      by (intro exI [of _ ks] exI [of _ "[]"])
        (auto simp: queryBooks_onEnd_def case_prod_beta hears_def)
  next
    case False
    then obtain l' where l': "listenersVar ?s = Some l'" "\<not> fst ?r" by auto
    obtain es where
      "heard (fst (snd (snd (tell_listeners body (EndHeard st msg m) (endListeners l') (fst (snd ?r)) ?s)))) =
         heard ?s @ hears es (EndHeard st msg m)"
      using tell_listeners_heard [of "endListeners l'" body "EndHeard st msg m" "fst (snd ?r)" ?s]
      by (auto simp: hears_def)
    with Some ks l' show ?thesis
      by (intro exI [of _ ks] exI [of _ es])
        (simp add: queryBooks_onEnd_def case_prod_beta hears_def)
  qed
qed

definition heard_ordered :: "('m, 'g, 'k, 'v, 't) query_client \<Rightarrow> bool" where
  "heard_ordered c \<longleftrightarrow>
     (ends c = [] \<longrightarrow> list_all is_data (map snd (heard (user c)))) \<and>
     (length (ends c) = 1 \<longrightarrow> query_order (heard (user c)))"

lemma entered_ordered:
  assumes "allowed ev c" "end_order c" "heard_ordered c"
  shows "heard_ordered (entered (queryBooks_env M sl J tc body) ev cb c)"
proof -
  let ?d = "entered (queryBooks_env M sl J tc body) ev cb c"
  have ends: "ends ?d = ends c @ (if is_end ev then [(cb, ev)] else [])"
    by (simp add: ends_def flag_simps trace_simps)
  have none: "ends c = []" if "\<not> is_end ev"
  proof -
    from that assms(1,2) have "list_all (\<lambda>e. \<not> is_end e) (events c)"
      by (simp add: end_order_def allowed_end)
    then show ?thesis by (auto simp: ends_def list_all_iff filter_empty_conv)
  qed
  consider r where "cb = QueryOnMessage" "ev = MessageEv r"
    | st msg m where "cb = QueryOnEnd" "ev = EndEv st msg m"
    | "heard (user ?d) = heard (user c)"
    by (cases cb; cases ev) (auto simp: flag_simps)
  then show ?thesis
  proof cases
    case (1 r)
    obtain ks where "heard (user ?d) = heard (user c) @ hears ks (DataHeard r)"
      using onMessage_heard [of body r "user c"] 1 by (auto simp: flag_simps case_prod_beta)
    with 1 ends none assms(3) show ?thesis
      by (auto simp: heard_ordered_def hears_def list_all_iff)
  next
    case (2 st msg m)
    obtain ks es where "heard (user ?d) =
        heard (user c) @ hears ks (StatusHeard st msg m) @ hears es (EndHeard st msg m)"
      using onEnd_heard [of body st msg m "user c"] 2 by (auto simp: flag_simps case_prod_beta)
    with 2 ends assms(3) show ?thesis
      by (cases "ends c") (simp_all add: heard_ordered_def query_orderI)
  next
    case 3
    with ends none assms(3) show ?thesis
      by (cases "ends c") (auto simp: heard_ordered_def query_order_data)
  qed
qed

interpretation query_ordered:
  client_invariant "queryBooks_env M sl J tc body" any_action "\<lambda>c. end_order c \<and> heard_ordered c"
  for M sl J tc body
proof unfold_locales
  fix c c' assume m: "micro (queryBooks_env M sl J tc body) any_action c c'"
    and c: "end_order c \<and> heard_ordered c"
  from m have "heard_ordered c'"
    using c
  proof (induction rule: micro.induct)
    case (api a c)
    then show ?case
      using run_actions_notified [of "queryBooks_env M sl J tc body" "[a]" c]
        run_action_fields(5) [of "queryBooks_env M sl J tc body" a c]
      by (simp add: heard_ordered_def ends_def split: prod.splits option.splits)
  next
    case (notify ev c cb)
    then show ?case by (simp add: entered_ordered)
  qed (simp_all add: heard_ordered_def ends_def trace_simps)
  with end_order.micro_keeps [OF m] c show "end_order c' \<and> heard_ordered c'" by simp
qed

text \<open>The end is announced to the one callback that the stub registered.\<close>

definition query_ok :: "('m, 'g, 'k, 'v, 't) query_client \<Rightarrow> bool" where
  "query_ok c \<longleftrightarrow> end_batch c \<and> onEndCallbacks c = [QueryOnEnd] \<and> end_order c \<and> heard_ordered c"

lemma queryBooks_registers: "callbacks_in (queryBooks_env M sl J tc body) (\<lambda>a. \<not> registers a)"
  unfolding callbacks_in_def
proof (intro allI)
  fix cb ev s
  show "list_all (\<lambda>a. \<not> registers a) (snd (callback (queryBooks_env M sl J tc body) cb ev s))"
    by (cases cb; cases ev) (simp_all add: case_prod_beta list_all_iff)
qed

lemma query_ok_step:
  assumes "admissible (\<lambda>_. False) i" "query_ok c"
  shows "query_ok (step (queryBooks_env M sl J tc body) i c)"
proof -
  let ?E = "queryBooks_env M sl J tc body"
  have "admissible (\<lambda>a. \<not> registers a) i" using assms(1) by (cases i) simp_all
  then have "callback_lists (step ?E i c) = callback_lists c"
    using same_lists.run_inv [OF queryBooks_registers, of "[i]" c "callback_lists c"] by (simp add: run_def)
  with assms(2) show ?thesis
    using query_ordered.run_inv [of M sl J tc body "[i]" c] step_end_batch [of c ?E i]
    by (simp add: query_ok_def run_def callback_lists_def)
qed

lemma query_ok_change:
  assumes "query_ok c" "callback_lists d = callback_lists c" "notified (trace d) = notified (trace c)"
    and "completed d = completed c" "heard (user d) = heard (user c)"
  shows "query_ok d"
proof -
  have e: "ends d = ends c" by (simp add: ends_def assms(3))
  have l: "onEndCallbacks d = onEndCallbacks c" using assms(2) by (simp add: callback_lists_def)
  have "end_batch d" using assms(1) unfolding query_ok_def end_batch_def e l assms(4) by blast
  with assms(1) show ?thesis
    by (simp add: query_ok_def end_order_def heard_ordered_def e l assms(3-5))
qed

lemma query_ok_transport: "query_ok c \<Longrightarrow> query_ok (c\<lparr>transport := t\<rparr>)"
  by (rule query_ok_change [of c]) (simp_all add: callback_lists_def)

lemma query_ok_on: "query_ok c \<Longrightarrow> query_ok (snd (queryBooks_on ty k c))"
  by (rule query_ok_change [of c]) (simp_all add: queryBooks_on_fields)

lemma query_ok_cancel: "query_ok c \<Longrightarrow> query_ok (snd (queryBooks_cancel E c))"
  by (rule query_ok_change [of c]) (simp_all add: queryBooks_cancel_fields)

lemma query_use_ordered:
  assumes "queryBooks M sl J tc body df this request md v = (e, Some c)"
    and "query_use (queryBooks_env M sl J tc body) c d"
  shows "query_order (heard (user d))"
proof -
  have fresh: "fresh_with [] [QueryOnMessage] [QueryOnEnd] (new_query_state v) c"
    using invoke_fresh [OF assms(1) [unfolded queryBooks_def]] by (simp add: option_list_def)
  have "query_ok d"
  proof (rule query_use_keeps [OF assms(2), where P = query_ok])
    show "query_ok c"
      using fresh fresh_with_end_batch [OF fresh]
      by (simp add: query_ok_def fresh_with_def face_def end_order_def heard_ordered_def
          query_order_def new_query_state_def ends_def)
  qed (simp_all add: query_ok_step query_ok_on query_ok_cancel query_ok_transport)
  then have "length (ends d) \<le> 1" "heard_ordered d"
    by (auto simp: query_ok_def end_batch_def dest: prefix_length_le)
  then consider "ends d = []" | "length (ends d) = 1" by (cases "ends d") auto
  then show ?thesis
  proof cases
    case 1
    with \<open>heard_ordered d\<close> show ?thesis by (simp add: heard_ordered_def query_order_data)
  next
    case 2
    with \<open>heard_ordered d\<close> show ?thesis by (simp add: heard_ordered_def)
  qed
qed

end
