(* ===== verification/BookService_Properties.thy ===== *)
theory BookService_Properties
  imports BookService_Steps Request_Properties
begin

text \<open>
  The properties of the service stub: whole calls of \<^verbatim>\<open>getBook\<close> and \<^verbatim>\<open>queryBooks\<close> over a
  transport, from the fields of the request message to the fields of the books the user is given,
  and what holds whatever the transport and the user do.
\<close>

section \<open>getBook\<close>

lemma GetBook_fields [simp]:
  "serializeBinary (BookService_GetBook J) = GetBookRequest_serializeBinary J"
  "deserializeBinary (BookService_GetBook J) b = returned (Book_deserializeBinary J b)"
  by (simp_all add: BookService_GetBook_def)

lemma get_book_ws:
  assumes J: "jspb J reads at_value wrote encodable"
    and c: "getBook M sl J (ws_call newWebSocket) body df this request args v = (e, Some c)"
    and tp: "transportOption this = Some websocketRequest" "\<forall>a. newWebSocket a = None"
    and args: "(if length args = 1 then argument 0 args else argument 1 args) = Some (FunctionArg k)"
    and req: "requestHeaders_of M (argument 0 args) = Inr h" "headersToBytes M h = Inr hb"
      "well_typed J encodable GetBookRequest_schema request"
    and body: "keeps_request body"
    and th: "concat hs = frame_bytes (0x80, th)" "length th < 2 ^ 32" "parseTrailerData M th = Inr mh"
    and reply: "reads (new_BinaryReader J p) fs" "list_all (conforms Book_schema) fs" "length p < 2 ^ 32"
    and t: "length t < 2 ^ 32" "concat bs = response_stream [p] t" "parseTrailerData M t = Inr m"
      "status_of M (md_copy M m) = Some (s, msg)"
    and E: "E = getBook_env M sl J (ws_call newWebSocket) body"
  shows "\<exists>b book. GetBookRequest_serializeBinary J request = Inr b \<and>
    reads (new_BinaryReader J b) (wire_fields J GetBookRequest_schema request) \<and>
    (\<exists>w. ws (transport (ws_handle E Opened c)) = Some w \<and> wire w = [hb, 0 # frame_message b, [1]]) \<and>
    book_holds J fs book \<and>
    bookCalls (outer (user (fold (ws_handle E)
        (Opened # map Received (hs @ bs) @ [Closed]) c))) =
      [(k, if s = code OK then BookReply (Some book) else BookFailed msg s (md_copy M m))]"
proof -
  note c' = c [unfolded getBook_def Let_def getBook_env_def tp(1)]
  from jspb.request_written [OF J req(3)] obtain b where
    b: "GetBookRequest_serializeBinary J request = Inr b"
    "reads (new_BinaryReader J b) (wire_fields J GetBookRequest_schema request)" by blast
  from jspb.book_reads [OF J reply(1,2)] obtain book where
    book: "Book_deserializeBinary J p = Some (Inr book)" "book_holds J fs book" by blast
  note E' = E [unfolded getBook_env_def]
  let ?evs = "Opened # map Received (hs @ bs) @ [Closed]"
  have sb: "serializeBinary (BookService_GetBook J) request = Inr b" by (simp add: b)
  have w: "\<exists>w. ws (transport (ws_handle E Opened c)) = Some w \<and> wire w = [hb, 0 # frame_message b, [1]]"
    using unary_over_ws [OF E' c' [folded E'] tp(2) req(1,2) sb] by blast
  have "outputs (user (fold (ws_handle E) ?evs c)) =
      [\<lparr>out_status = s, out_statusMessage = msg, out_headers = md_copy M mh,
        out_message = Some book, out_trailers = md_copy M m\<rparr>]"
    using unary_ws_response [OF E' c' [folded E'] tp(2) req(1,2) sb getBook_observing [OF body] th, of "[p]" t bs "[book]"]
      reply(3) t book(1) by (simp add: returned_def del: ws_handle.simps)
  moreover have "driven E (map TransportChunk (hs @ bs) @ [TransportEnd]) c
      (fold (ws_handle E) ?evs c)"
    using unary_ws_driven [OF E' c' [folded E'] tp(2) req(1,2) sb, of "hs @ bs"] by simp
  ultimately have "bookCalls (outer (user (fold (ws_handle E) ?evs c))) =
      [(k, if s = code OK then BookReply (Some book) else BookFailed msg s (md_copy M m))]"
    using getBook_calls [OF c _ args] unfolding E by (simp add: book_event_of_def del: ws_handle.simps)
  with b w book(2) show ?thesis by blast
qed

text \<open>
  C10. A whole call of \<^verbatim>\<open>getBook\<close> over a WebSocket, from fields to fields: the request goes out as one
  framed message from which the request's fields can be read back; and when the server answers with
  any message whose known fields have their types, the user's callback is called exactly once, with
  the book that holds those fields if the status is OK, and otherwise with an error that carries
  status, message and trailers.
\<close>

theorem get_book_over_websocket:
  assumes "jspb J reads at_value wrote encodable"
    and "getBook M sl J (ws_call newWebSocket) body df this request args v = (e, Some c)"
    and "transportOption this = Some websocketRequest" "\<forall>a. newWebSocket a = None"
    and "(if length args = 1 then argument 0 args else argument 1 args) = Some (FunctionArg k)"
    and "requestHeaders_of M (argument 0 args) = Inr h" "headersToBytes M h = Inr hb"
      "well_typed J encodable GetBookRequest_schema request"
    and "keeps_request body"
    and "concat hs = frame_bytes (0x80, th)" "length th < 2 ^ 32" "parseTrailerData M th = Inr mh"
    and "reads (new_BinaryReader J p) fs" "list_all (conforms Book_schema) fs" "length p < 2 ^ 32"
    and "length t < 2 ^ 32" "concat bs = response_stream [p] t" "parseTrailerData M t = Inr m"
      "status_of M (md_copy M m) = Some (s, msg)"
    and "E = getBook_env M sl J (ws_call newWebSocket) body"
  shows "\<exists>b book. GetBookRequest_serializeBinary J request = Inr b \<and>
    reads (new_BinaryReader J b) (wire_fields J GetBookRequest_schema request) \<and>
    (\<exists>w. ws (transport (ws_handle E Opened c)) = Some w \<and> wire w = [hb, 0 # frame_message b, [1]]) \<and>
    book_holds J fs book \<and>
    bookCalls (outer (user (fold (ws_handle E)
        (Opened # map Received (hs @ bs) @ [Closed]) c))) =
      [(k, if s = code OK then BookReply (Some book) else BookFailed msg s (md_copy M m))]"
  by (rule get_book_ws [OF assms])

text \<open>Metadata for the witnesses; a function has no headers.\<close>

definition book_metadata :: "(assoc, (assoc, nat) js_argument) metadata_ops" where
  "book_metadata =
     \<lparr>md_of_text = assoc_of_text,
      md_of_arg = (\<lambda>a. case a of MetadataArg m \<Rightarrow> Inr m | FunctionArg _ \<Rightarrow> Inr []),
      md_of_obj = map (\<lambda>(k, v). (k, [v])),
      md_copy = (\<lambda>m. m), md_get = assoc_get, md_set = assoc_set, md_entries = (\<lambda>m. m)\<rparr>"

definition note_call :: "nat \<Rightarrow> 'e \<Rightarrow> unit \<Rightarrow> unit \<times> stub_call list" where
  "note_call k ev v = (v, [])"

lemma note_call_keeps: "keeps_request note_call"
  by (simp add: keeps_request_def note_call_def)

lemma book_metadata_status:
  "parseTrailerData book_metadata status_block = Inr status_md"
  "status_of book_metadata status_md = Some (Num 0, [])" "md_copy book_metadata m = m"
  by code_simp+

definition ws_service :: "assoc ws_transport book_service_client" where
  "ws_service = new_BookServiceClient (js ''http://h'') (Some (Some websocketRequest))"

abbreviation ask_book where
  "ask_book \<equiv> getBook book_metadata True wire_jspb (ws_call (\<lambda>_. None)) note_call websocketRequest ws_service
     demo_request [None, Some (FunctionArg 1)] ()"

abbreviation ask_env where
  "ask_env \<equiv> getBook_env book_metadata True wire_jspb (ws_call (\<lambda>_. None)) note_call"

lemma ask_book_client: "\<exists>e c. ask_book = (e, Some c)"
proof -
  have "\<exists>t. websocketRequest (request_url (js ''http://h'') (BookService_GetBook wire_jspb)) =
      (Inr t :: assoc ws_transport result)"
    by (simp add: websocketRequest_def constructWebSocketAddress_def js_substr_def request_url_def)
  then have "snd ask_book \<noteq> None"
    by (auto simp: getBook_def Let_def getBook_env_def unary_no_client createTransport_def
        ws_service_def new_BookServiceClient_def BookService_GetBook_def)
  then show ?thesis by (metis not_None_eq prod.collapse)
qed

lemma ask_book_headers:
  "\<exists>h hb. requestHeaders_of book_metadata None = Inr h \<and> headersToBytes book_metadata h = Inr hb"
proof -
  have "(case requestHeaders_of book_metadata None of Inl e \<Rightarrow> False
      | Inr h \<Rightarrow> list_all isValidHeaderAscii (header_block book_metadata h))"
    by code_simp
  then show ?thesis
    by (auto simp: headersToBytes_def encodeASCII_def encodeASCII_from_eq split: sum.splits)
qed

theorem get_book_over_websocket_witness:
  "\<exists>e c book. ask_book = (e, Some c) \<and> Book_getTitle wire_jspb book = StringValue (js ''Y'') \<and>
     bookCalls (outer (user (fold (ws_handle ask_env)
       [Opened, Received (frame_bytes (0x80, status_block)),
        Received (response_stream [[26, 1, 65, 18, 1, 88, 77, 1, 2, 3, 4, 18, 1, 89]] status_block), Closed] c))) =
     [(1, BookReply (Some book))]"
proof -
  obtain e c where c: "ask_book = (e, Some c)" using ask_book_client by blast
  obtain h hb where h: "requestHeaders_of book_metadata None = Inr h" "headersToBytes book_metadata h = Inr hb"
    using ask_book_headers by blast
  have conf: "list_all (conforms Book_schema) demo_fields"
    "last_value 2 demo_fields empty_string = StringValue (js ''Y'')" by code_simp+
  have args: "(if length [None, Some (FunctionArg (1 :: nat))] = 1 then argument 0 [None, Some (FunctionArg 1)]
      else argument 1 [None, Some (FunctionArg 1)]) = Some (FunctionArg 1)"
    by (simp add: argument_def)
  have h': "requestHeaders_of book_metadata (argument 0 [None, Some (FunctionArg 1)]) = Inr h"
    using h(1) by (simp add: argument_def)
  have ok: "Num 0 = code OK" by code_simp
  from get_book_over_websocket [OF wire.jspb_axioms c _ _ args h' h(2) demo_typed(2)
      note_call_keeps _ _ book_metadata_status(1) demo_fields_read conf(1) _ _ _ book_metadata_status(1) _ refl,
      where hs = "[frame_bytes (0x80, status_block)]"
        and bs = "[response_stream [[26, 1, 65, 18, 1, 88, 77, 1, 2, 3, 4, 18, 1, 89]] status_block]"
        and s = "Num 0" and msg = "[]"] c conf(2) ok
  show ?thesis
    by (simp add: ws_service_def new_BookServiceClient_def length_status_block book_metadata_status
        book_holds_def del: ws_handle.simps js_Cons) blast
qed

text \<open>
  C13. \<^verbatim>\<open>getBook\<close> never calls back twice, and never after \<^verbatim>\<open>cancel\<close>: whatever the transport
  delivers and however often the user cancels, inside the callback or outside it.
\<close>

theorem get_book_calls_back_once:
  assumes "getBook M sl J tc body df this request args v = (e, Some c)"
    and "book_use (getBook_env M sl J tc body) c d"
  shows "length (bookCalls (outer (user d))) \<le> 1 \<and>
    (book_use (getBook_env M sl J tc body) (snd (getBook_cancel (getBook_env M sl J tc body) d)) f \<longrightarrow>
      bookCalls (outer (user f)) = bookCalls (outer (user d)))"
  using book_use_once [OF assms] book_use_cancelled by blast

theorem get_book_calls_back_once_witness:
  "\<exists>e c. ask_book = (e, Some c) \<and>
     bookCalls (outer (user (step ask_env TransportEnd (snd (getBook_cancel ask_env c))))) = []"
proof -
  obtain e c where c: "ask_book = (e, Some c)" using ask_book_client by blast
  let ?c = "snd (getBook_cancel ask_env c)"
  have "book_use ask_env ?c (run ask_env [TransportEnd] ?c)"
    by (rule told [OF begun driven_run]) simp
  then have "book_use ask_env ?c (step ask_env TransportEnd ?c)" by (simp add: run_def)
  with get_book_calls_back_once [OF c begun] have
    "bookCalls (outer (user (step ask_env TransportEnd ?c))) = bookCalls (outer (user c))" by blast
  moreover have "bookCalls (outer (user c)) = []"
    using unary_fresh [OF c [unfolded getBook_def Let_def]] by (simp add: fresh_with_def new_unary_state_def)
  ultimately show ?thesis using c by auto
qed

section \<open>queryBooks\<close>

lemma QueryBooks_fields [simp]:
  "serializeBinary (BookService_QueryBooks J) = QueryBooksRequest_serializeBinary J"
  "deserializeBinary (BookService_QueryBooks J) b = returned (Book_deserializeBinary J b)"
  by (simp_all add: BookService_QueryBooks_def)

text \<open>The messages of a stream, each by its fields on the wire.\<close>

definition book_stream ::
  "('g, 'r, 'w) jspb_ops \<Rightarrow> ('r \<Rightarrow> wire_field list \<Rightarrow> bool) \<Rightarrow> bytes list \<Rightarrow> wire_field list list \<Rightarrow> bool"
where
  "book_stream J reads = list_all2 (\<lambda>p fs. reads (new_BinaryReader J p) fs \<and> list_all (conforms Book_schema) fs)"

lemma book_stream_read:
  assumes "jspb J reads at_value wrote encodable" "book_stream J reads ps fss"
  shows "\<exists>books. list_all2 (\<lambda>p g. returned (Book_deserializeBinary J p) = Inr g) ps books \<and>
    list_all2 (book_holds J) fss books"
  using assms(2) unfolding book_stream_def
proof (induction rule: list_all2_induct)
  case Nil
  show ?case by (intro exI [of _ "[]"]) simp
next
  case (Cons p ps fs fss)
  obtain g where "Book_deserializeBinary J p = Some (Inr g)" "book_holds J fs g"
    using jspb.book_reads [OF assms(1)] Cons.hyps(1) by blast
  moreover obtain books where
    "list_all2 (\<lambda>p g. returned (Book_deserializeBinary J p) = Inr g) ps books" "list_all2 (book_holds J) fss books"
    using Cons.IH by blast
  ultimately show ?case by (intro exI [of _ "g # books"]) (simp add: returned_def)
qed

lemma query_books_xhr:
  assumes J: "jspb J reads at_value wrote encodable"
    and c: "queryBooks M sl J (xhr_call B M) body df this request md v = (None, Some c)"
    and tp: "transportOption this = Some (XhrTransport V cr)"
    and quiet: "quiet_listeners body"
    and hd: "md_of_text M block = Inr h" "status \<noteq> 0" "headers_code (getStatusFromHeaders M h) status = code OK"
    and frames: "list_all (\<lambda>p. length p < 2 ^ 32) ps" "length t < 2 ^ 32" "concat bs = response_stream ps t"
    and books: "book_stream J reads ps fss"
    and t: "parseTrailerData M t = Inr m" "status_of M (md_copy M m) = Some (s, msg)"
    and d: "d = fold (xhr_handle B (queryBooks_env M sl J (xhr_call B M) body))
      (HeadersReceived block status # map Progress bs @ [LoadEnd]) (register_all ons c)"
  shows "\<exists>books. list_all2 (book_holds J) fss books \<and>
    heard (user d) =
      concat (map (\<lambda>g. map (\<lambda>k. (k, DataHeard g)) (of_type (js ''data'') ons)) books) @
      map (\<lambda>k. (k, StatusHeard s msg (md_copy M m))) (of_type (js ''status'') ons) @
      map (\<lambda>k. (k, EndHeard s msg (md_copy M m))) (of_type (js ''end'') ons) \<and>
    queryBooks_on ty k d = (Some null_listeners, d)"
proof -
  let ?E = "queryBooks_env M sl J (xhr_call B M) body" and ?c = "register_all ons c"
  from invoke_started [OF c [unfolded queryBooks_def tp]] obtain t0 m0 t1 where
    "XhrTransport V cr (request_url (serviceHost this) (methodDefinition ?E)) = Inr t0"
    "transportCall ?E (TStart m0) t0 = (None, t1)" "started_with ?E t1 c" by blast
  from xhr_started_current [OF _ this(1) _ this(3), of B M m0] this(2)
  have up: "started c" "xhr_current (transport c)" by simp_all
  have "user c = new_query_state v"
    using invoke_fresh [OF c [unfolded queryBooks_def]] by (simp add: fresh_with_def)
  then have "started ?c" "xhr_current (transport ?c)"
    using up register_all_listeners [of c "\<lparr>dataListeners = [], endListeners = [], statusListeners = []\<rparr>" ons]
    by (simp_all add: new_query_state_def)
  from xhr_response_driven [OF _ _ this hd(1), of ?E B status bs]
  have driven: "driven ?E (TransportHeaders h status # map TransportChunk bs @ [TransportEnd]) ?c d"
    by (simp add: d)
  obtain gs where gs: "list_all2 (\<lambda>p g. returned (Book_deserializeBinary J p) = Inr g) ps gs"
    "list_all2 (book_holds J) fss gs"
    using book_stream_read [OF J books] by blast
  have "heard (user d) =
      concat (map (\<lambda>g. hears (of_type (js ''data'') ons) (DataHeard g)) gs) @
      hears (of_type (js ''status'') ons) (StatusHeard s msg (md_copy M m)) @
      hears (of_type (js ''end'') ons) (EndHeard s msg (md_copy M m)) \<and> listenersVar (user d) = None"
    by (rule query_delivers [OF c driven quiet hd(2,3) frames gs(1) t])
  with gs(2) show ?thesis by (auto simp: hears_def queryBooks_on_fields(2) simp del: js_Cons)
qed

text \<open>
  C11. A whole call of \<^verbatim>\<open>queryBooks\<close> over \<^verbatim>\<open>XMLHttpRequest\<close>, with listeners that only listen: every
  data listener is told every book of the stream in order, each with the fields the server sent;
  then every status listener, then every end listener, is told status, details and metadata of the
  trailers; and after that \<^verbatim>\<open>on\<close> throws a \<^verbatim>\<open>TypeError\<close>.
\<close>

theorem query_books_over_xmlhttprequest:
  assumes "jspb J reads at_value wrote encodable"
    and "queryBooks M sl J (xhr_call B M) body df this request md v = (None, Some c)"
    and "transportOption this = Some (XhrTransport V cr)"
    and "quiet_listeners body"
    and "md_of_text M block = Inr h" "status \<noteq> 0" "headers_code (getStatusFromHeaders M h) status = code OK"
    and "list_all (\<lambda>p. length p < 2 ^ 32) ps" "length t < 2 ^ 32" "concat bs = response_stream ps t"
    and "book_stream J reads ps fss"
    and "parseTrailerData M t = Inr m" "status_of M (md_copy M m) = Some (s, msg)"
    and "d = fold (xhr_handle B (queryBooks_env M sl J (xhr_call B M) body))
      (HeadersReceived block status # map Progress bs @ [LoadEnd]) (register_all ons c)"
  shows "\<exists>books. list_all2 (book_holds J) fss books \<and>
    heard (user d) =
      concat (map (\<lambda>g. map (\<lambda>k. (k, DataHeard g)) (of_type (js ''data'') ons)) books) @
      map (\<lambda>k. (k, StatusHeard s msg (md_copy M m))) (of_type (js ''status'') ons) @
      map (\<lambda>k. (k, EndHeard s msg (md_copy M m))) (of_type (js ''end'') ons) \<and>
    queryBooks_on ty k d = (Some null_listeners, d)"
  by (rule query_books_xhr [OF assms])

definition note_event :: "nat \<Rightarrow> 'e \<Rightarrow> unit \<Rightarrow> unit \<times> nat query_call list" where
  "note_event k ev v = (v, [])"

definition xhr_service :: "assoc xhr_transport book_service_client" where
  "xhr_service = new_BookServiceClient [] (Some (Some (XhrTransport
     \<lparr>hasXMLHttpRequest = True, assignType = (\<lambda>_. None), hasOverrideMimeType = True\<rparr> False)))"

abbreviation query_call where
  "query_call \<equiv> queryBooks assoc_metadata True wire_jspb (xhr_call xhr_demo_browser assoc_metadata) note_event
     (XhrTransport \<lparr>hasXMLHttpRequest = True, assignType = (\<lambda>_. None), hasOverrideMimeType = True\<rparr> False)
     xhr_service demo_query None ()"

abbreviation query_env where
  "query_env \<equiv> queryBooks_env assoc_metadata True wire_jspb (xhr_call xhr_demo_browser assoc_metadata) note_event"

lemma query_call_client: "\<exists>c. query_call = (None, Some c)"
proof -
  have "fst query_call = None" by code_simp
  moreover have "\<not> Option.is_none (snd query_call)" by code_simp
  ultimately show ?thesis by (cases query_call) (auto simp: Option.is_none_def)
qed

theorem query_books_over_xmlhttprequest_witness:
  "\<exists>c book. query_call = (None, Some c) \<and> Book_getTitle wire_jspb book = StringValue (js ''Y'') \<and>
     heard (user (fold (xhr_handle xhr_demo_browser query_env)
       [HeadersReceived [] 200,
        Progress (response_stream [[26, 1, 65, 18, 1, 88, 77, 1, 2, 3, 4, 18, 1, 89]] status_block), LoadEnd]
       (register_all [(js ''end'', 8), (js ''data'', 7), (js ''status'', 9)] c))) =
     [(7, DataHeard book), (9, StatusHeard (Num 0) [] status_md), (8, EndHeard (Num 0) [] status_md)]"
proof -
  let ?p = "[26, 1, 65, 18, 1, 88, 77, 1, 2, 3, 4, 18, 1, 89] :: bytes"
  let ?ons = "[(js ''end'', 8), (js ''data'', 7), (js ''status'', 9)] :: (js_string \<times> nat) list"
  obtain c where c: "query_call = (None, Some c)" using query_call_client by blast
  have conf: "list_all (conforms Book_schema) demo_fields"
    "last_value 2 demo_fields empty_string = StringValue (js ''Y'')" by code_simp+
  have types: "of_type (js ''data'') ?ons = [7]" "of_type (js ''status'') ?ons = [9]"
    "of_type (js ''end'') ?ons = [8]" by code_simp+
  have stream: "book_stream wire_jspb wire_reads [?p] [demo_fields]"
    using demo_fields_read conf by (simp add: book_stream_def)
  have quiet: "quiet_listeners note_event" by (simp add: quiet_listeners_def note_event_def)
  have empty: "md_of_text assoc_metadata [] = Inr []" by code_simp
  have tp: "transportOption xhr_service = Some (XhrTransport
      \<lparr>hasXMLHttpRequest = True, assignType = (\<lambda>_. None), hasOverrideMimeType = True\<rparr> False)"
    by (simp add: xhr_service_def new_BookServiceClient_def)
  from query_books_over_xmlhttprequest [OF wire.jspb_axioms c tp quiet empty _ status_ok _ _ _ stream
      status_block_read _ refl, where ons = ?ons and ty = "[]" and k = 0 and bs = "[response_stream [?p] status_block]"
        and s = "Num 0" and msg = "[]", unfolded types]
  obtain book where "book_holds wire_jspb demo_fields book"
    "heard (user (fold (xhr_handle xhr_demo_browser query_env)
       [HeadersReceived [] 200, Progress (response_stream [?p] status_block), LoadEnd] (register_all ?ons c))) =
     [(7, DataHeard book), (9, StatusHeard (Num 0) [] status_md), (8, EndHeard (Num 0) [] status_md)]"
    by (auto simp: status_md_status length_status_block
        list_all2_Cons1 simp del: js_Cons register_all.simps)
  with c conf(2) show ?thesis unfolding book_holds_def by metis
qed

text \<open>
  C14. Listeners of \<^verbatim>\<open>queryBooks\<close> are told in order, in every run: data first, then one status, then
  the same status as the end, and nothing after it; whatever the transport delivers, and whenever
  listeners are added, throw or cancel.
\<close>

theorem query_books_order:
  assumes "queryBooks M sl J tc body df this request md v = (e, Some c)"
    and "query_use (queryBooks_env M sl J tc body) c d"
  shows "\<exists>ds ks es st msg m.
    heard (user d) = ds @ map (\<lambda>k. (k, StatusHeard st msg m)) ks @ map (\<lambda>k. (k, EndHeard st msg m)) es \<and>
    (\<forall>(k, ev) \<in> set ds. \<exists>g. ev = DataHeard g)"
proof -
  from query_use_ordered [OF assms] obtain ds ks es st msg m where
    "heard (user d) = ds @ hears ks (StatusHeard st msg m) @ hears es (EndHeard st msg m)"
    "list_all is_data (map snd ds)"
    unfolding query_order_def by blast
  with data_events [of ds] show ?thesis unfolding hears_def by blast
qed

theorem query_books_order_witness:
  "\<exists>c ds ks es st msg m. query_call = (None, Some c) \<and>
     heard (user (run query_env [TransportEnd, TransportEnd] (snd (queryBooks_on (js ''end'') 8 c)))) =
       ds @ map (\<lambda>k. (k, StatusHeard st msg m)) ks @ map (\<lambda>k. (k, EndHeard st msg m)) es"
proof -
  obtain c where c: "query_call = (None, Some c)" using query_call_client by blast
  have "query_use query_env c (run query_env [TransportEnd, TransportEnd] (snd (queryBooks_on (js ''end'') 8 c)))"
    by (rule query_told [OF query_listens [OF query_begun] driven_run]) simp
  from query_books_order [OF c this] c show ?thesis by blast
qed

text \<open>
  After \<^verbatim>\<open>cancel\<close>, \<^verbatim>\<open>queryBooks\<close> tells no listener anything more, whatever the transport still
  delivers, and a further \<^verbatim>\<open>on\<close> throws a \<^verbatim>\<open>TypeError\<close>.
\<close>

theorem query_books_cancelled:
  assumes "query_use (queryBooks_env M sl J tc body) (snd (queryBooks_cancel (queryBooks_env M sl J tc body) c)) d"
  shows "heard (user d) = heard (user c) \<and>
    queryBooks_on ty k d = (Some (TypeError (js ''Cannot read property of null'')), d)"
  using query_use_silent [OF assms queryBooks_cancel_fields(2)]
  by (simp add: queryBooks_cancel_fields(1) null_listeners_def)

theorem query_books_cancelled_witness:
  "\<exists>c. query_call = (None, Some c) \<and>
     heard (user (run query_env [TransportEnd] (snd (queryBooks_cancel query_env (snd (queryBooks_on (js ''end'') 8 c)))))) =
       heard (user (snd (queryBooks_on (js ''end'') 8 c)))"
proof -
  obtain c where c: "query_call = (None, Some c)" using query_call_client by blast
  let ?c = "snd (queryBooks_on (js ''end'') 8 c)"
  have "query_use query_env (snd (queryBooks_cancel query_env ?c)) (run query_env [TransportEnd] (snd (queryBooks_cancel query_env ?c)))"
    by (rule query_told [OF query_begun driven_run]) simp
  from query_books_cancelled [OF this] c show ?thesis by blast
qed

end
