(* ===== verification/ExamplePage.thy ===== *)
theory ExamplePage
  imports Message_Properties BookService Request_Properties
begin

text \<open>
  \<^verbatim>\<open>grpc-web-react-example/ts/src/index.ts\<close>, the example page: \<^verbatim>\<open>getBook\<close> asks for a book by
  \<^verbatim>\<open>grpc.unary\<close> and, when that request has ended, \<^verbatim>\<open>queryBooks\<close> opens a stream with
  \<^verbatim>\<open>grpc.client\<close>.  What the page prints is its console, a list of what the calls of
  \<^verbatim>\<open>console.log\<close> are given; the second client, with what it adds to the console, is part of the
  page's state, and lives on beside the first.  \<^verbatim>\<open>USE_TLS\<close> is a constant of the build.
\<close>

section \<open>The page\<close>

datatype ('m, 'g) console =
    BookStatus js_num js_string
  | BookHeaders 'm
  | BookMessage "'g Book_object"
  | BookTrailers 'm
  | QueryHeaders 'm
  | QueryMessage "'g Book_object"
  | QueryEnd js_num js_string 'm

datatype page_callback = OnQueryHeaders | OnQueryMessage | OnQueryEnd

type_synonym ('m, 'g, 't) query_client =
  "('m, 'g, page_callback, ('m, 'g) console list, 't) client"

record ('m, 'g, 't) page =
  pageLog :: "('m, 'g) console list"
  queryCall :: "(js_error option \<times> ('m, 'g, 't) query_client option) option"
    \<comment> \<open>what \<^verbatim>\<open>queryBooks()\<close> threw, if it did, and the client it made\<close>

definition example_host :: "bool \<Rightarrow> js_string" where
  "example_host USE_TLS = (if USE_TLS then js ''https://localhost:9091'' else js ''http://localhost:9090'')"

fun query_closure ::
  "('g, 'r, 'w) jspb_ops \<Rightarrow> page_callback \<Rightarrow> ('m, 'g) cb_event \<Rightarrow> ('m, 'g) console list
     \<Rightarrow> ('m, 'g) console list \<times> ('a, 'g, page_callback) action list"
where
  "query_closure J OnQueryHeaders (HeadersEv headers) log = (log @ [QueryHeaders headers], [])"
| "query_closure J OnQueryMessage (MessageEv book) log =
     (log @ [QueryMessage (Book_toObject J False book)], [])"
| "query_closure J OnQueryEnd (EndEv status msg trailers) log = (log @ [QueryEnd status msg trailers], [])"
| "query_closure J _ _ log = (log, [])"

definition example_query_env ::
  "('m, 'a) metadata_ops \<Rightarrow> bool \<Rightarrow> ('g, 'r, 'w) jspb_ops \<Rightarrow> ('m tcall \<Rightarrow> 't \<Rightarrow> js_error option \<times> 't)
     \<Rightarrow> ('m, 'a, 'g, 'g, page_callback, ('m, 'g) console list, 't) env"
where
  "example_query_env M sl J tc =
     \<lparr>metadata = M, hasSlice = sl, methodDefinition = BookService_QueryBooks J, transportCall = tc,
      callback = query_closure J\<rparr>"

definition example_queryBooks ::
  "('m, 'a) metadata_ops \<Rightarrow> bool \<Rightarrow> ('g, 'r, 'w) jspb_ops \<Rightarrow> ('m tcall \<Rightarrow> 't \<Rightarrow> js_error option \<times> 't)
     \<Rightarrow> (js_string \<Rightarrow> 't result) \<Rightarrow> js_string \<Rightarrow> ('m, 'g) console list
     \<Rightarrow> js_error option \<times> ('m, 'g, 't) query_client option"
where
  "example_queryBooks M sl J tc df host log =
     (let E = example_query_env M sl J tc;
          queryBooksRequest = QueryBooksRequest_setAuthorPrefix J (StringValue (js ''Geor'')) (new_QueryBooksRequest J None)
      in case new_GrpcClient None df host (methodDefinition E) log of
           Inl e \<Rightarrow> (Some e, None)
         | Inr c \<Rightarrow>
             (let c = onHeaders OnQueryHeaders c;
                  c = onMessage OnQueryMessage c;
                  c = onEnd OnQueryEnd c;
                  (e, c) = run_actions E [Start None, Send queryBooksRequest] c
              in (e, Some c)))"

text \<open>\<^verbatim>\<open>onEnd\<close> of the first request.  What \<^verbatim>\<open>queryBooks\<close> throws, the client rethrows in a timer.\<close>

definition example_onEnd ::
  "('m, 'a) metadata_ops \<Rightarrow> bool \<Rightarrow> ('g, 'r, 'w) jspb_ops \<Rightarrow> ('m tcall \<Rightarrow> 't \<Rightarrow> js_error option \<times> 't)
     \<Rightarrow> (js_string \<Rightarrow> 't result) \<Rightarrow> js_string \<Rightarrow> ('m, 'g) unary_output \<Rightarrow> ('m, 'g, 't) page
     \<Rightarrow> ('m, 'g, 't) page \<times> ('a, 'g, unary_callback) action list"
where
  "example_onEnd M sl J tc df host res page =
     (let log = pageLog page @ [BookStatus (out_status res) (out_statusMessage res), BookHeaders (out_headers res)];
          log = (case out_message res of
                   None \<Rightarrow> log
                 | Some book \<Rightarrow>
                     if out_status res = code OK then log @ [BookMessage (Book_toObject J False book)] else log);
          log = log @ [BookTrailers (out_trailers res)];
          call = example_queryBooks M sl J tc df host log
      in (page\<lparr>pageLog := log, queryCall := Some call\<rparr>,
          case fst call of None \<Rightarrow> [] | Some e \<Rightarrow> [Throw e]))"

definition example_book_env ::
  "('m, 'a) metadata_ops \<Rightarrow> bool \<Rightarrow> ('g, 'r, 'w) jspb_ops \<Rightarrow> ('m tcall \<Rightarrow> 't \<Rightarrow> js_error option \<times> 't)
     \<Rightarrow> (js_string \<Rightarrow> 't result) \<Rightarrow> js_string
     \<Rightarrow> ('m, 'a, 'g, 'g, unary_callback, ('m, 'g, ('m, 'g, 't) page) unary_state, 't) env"
where
  "example_book_env M sl J tc df host =
     unary_env M sl (BookService_GetBook J) tc (example_onEnd M sl J tc df host)"

definition example_getBook ::
  "('m, 'a) metadata_ops \<Rightarrow> bool \<Rightarrow> ('g, 'r, 'w) jspb_ops \<Rightarrow> ('m tcall \<Rightarrow> 't \<Rightarrow> js_error option \<times> 't)
     \<Rightarrow> (js_string \<Rightarrow> 't result) \<Rightarrow> js_string
     \<Rightarrow> js_error option \<times> ('m, 'g, unary_callback, ('m, 'g, ('m, 'g, 't) page) unary_state, 't) client option"
where
  "example_getBook M sl J tc df host =
     unary (example_book_env M sl J tc df host) None df host
       (GetBookRequest_setIsbn J (NumberValue (Num 60929871)) (new_GetBookRequest J None)) None
       \<lparr>pageLog = [], queryCall = None\<rparr>"

section \<open>What the page prints\<close>

lemma query_env_fields [simp]:
  "metadata (example_query_env M sl J tc) = M"
  "callback (example_query_env M sl J tc) = query_closure J"
  "methodDefinition (example_query_env M sl J tc) = BookService_QueryBooks J"
  by (simp_all add: example_query_env_def)

lemma query_closure_silent: "snd (query_closure J cb ev log) = []"
  by (cases cb; cases ev) simp_all

lemma query_observers: "observers (example_query_env M sl J tc)"
  by (simp add: observers_def query_closure_silent)

lemma example_onEnd_observing: "bodies_in observing (example_onEnd M sl J tc df host)"
  by (auto simp: bodies_in_def example_onEnd_def Let_def split: option.split)

text \<open>The client of \<^verbatim>\<open>queryBooks\<close>, fresh however far its start got.\<close>

lemma example_query_fresh:
  assumes "example_queryBooks M sl J tc df host log = (e, Some q)"
  shows "fresh_with [OnQueryHeaders] [OnQueryMessage] [OnQueryEnd] log q"
proof -
  let ?E = "example_query_env M sl J tc"
  let ?as = "[Start None, Send (QueryBooksRequest_setAuthorPrefix J (StringValue (js ''Geor'')) (new_QueryBooksRequest J None))]"
  from assms obtain t where
    "run_actions ?E ?as (onEnd OnQueryEnd (onMessage OnQueryMessage (onHeaders OnQueryHeaders (new_client t log)))) = (e, q)"
    by (auto simp: example_queryBooks_def new_GrpcClient_def js_bind_def Let_def
        split: sum.splits prod.splits simp del: run_actions.simps)
  then have q: "q = snd (run_actions ?E ?as
      (onEnd OnQueryEnd (onMessage OnQueryMessage (onHeaders OnQueryHeaders (new_client t log)))))"
    by (simp del: run_actions.simps)
  show ?thesis
    unfolding q
    by (rule fresh_actions)
      (simp_all add: fresh_with_def onEnd_def onMessage_def onHeaders_def new_client_def face_def)
qed

lemma replay_query_messages:
  "replay (example_query_env M sl J tc) (message_events [OnQueryMessage] rs) log =
     log @ map (\<lambda>r. QueryMessage (Book_toObject J False r)) rs"
  by (induction rs arbitrary: log) (simp_all add: replay_def)

definition printed_book :: "('g, 'r, 'w) jspb_ops \<Rightarrow> js_num \<Rightarrow> 'g \<Rightarrow> ('m, 'g) console list" where
  "printed_book J s book = (if s = code OK then [BookMessage (Book_toObject J False book)] else [])"

text \<open>The first response, and the call it leads to.\<close>

lemma example_first_response:
  assumes "example_getBook M sl J tc df host = (e, Some c)" "E1 = example_book_env M sl J tc df host"
    and "driven E1 (TransportHeaders h status # map TransportChunk bs @ [TransportEnd]) c d"
    and "status \<noteq> 0" "headers_code (getStatusFromHeaders M h) status = code OK"
    and "length p < 2 ^ 32" "length t < 2 ^ 32" "concat bs = response_stream [p] t"
    and "Book_deserializeBinary J p = Some (Inr book)" "parseTrailerData M t = Inr m"
    and "status_of M (md_copy M m) = Some (s, msg)"
  shows "queryCall (outer (user d)) = Some (example_queryBooks M sl J tc df host
    ([BookStatus s msg, BookHeaders h] @ printed_book J s book @ [BookTrailers (md_copy M m)]))"
proof -
  note c = assms(1) [unfolded example_getBook_def example_book_env_def]
  note d = assms(3) [unfolded assms(2) example_book_env_def]
  have "deserialized (unary_env M sl (BookService_GetBook J) tc (example_onEnd M sl J tc df host)) [p] [book]"
    using assms(9) by (simp add: deserialized_def BookService_GetBook_def returned_def)
  from unary_delivers [OF c d example_onEnd_observing assms(4,5) _ assms(7,8) this assms(10,11)] assms(6)
  have out: "outputs (user d) = [\<lparr>out_status = s, out_statusMessage = msg, out_headers = h,
      out_message = Some book, out_trailers = md_copy M m\<rparr>]"
    by simp
  show ?thesis
    unfolding unary_outer [OF c d] out
    by (simp add: example_onEnd_def printed_book_def Let_def)
qed

text \<open>
  C16. A session of the example page, over any transport that drives its clients: the first response
  is printed with its status, headers, trailers and, if the status is OK, its book; then the second
  request is made, with a client of its own, and its headers, every book in order and its end
  follow on the console.
\<close>

theorem example_session:
  assumes "example_getBook M sl J tc df host = (e, Some c)"
    and "E1 = example_book_env M sl J tc df host" "E2 = example_query_env M sl J tc"
    and "driven E1 (TransportHeaders h status # map TransportChunk bs @ [TransportEnd]) c d"
    and "status \<noteq> 0" "headers_code (getStatusFromHeaders M h) status = code OK"
    and "length p < 2 ^ 32" "length t < 2 ^ 32" "concat bs = response_stream [p] t"
    and "Book_deserializeBinary J p = Some (Inr book)" "parseTrailerData M t = Inr m"
    and "status_of M (md_copy M m) = Some (s, msg)"
    and "queryCall (outer (user d)) = Some (e', Some q)"
    and "driven E2 (TransportHeaders h' status' # map TransportChunk bs' @ [TransportEnd]) q q'"
    and "status' \<noteq> 0" "headers_code (getStatusFromHeaders M h') status' = code OK"
    and "list_all (\<lambda>d. length d < 2 ^ 32) ds" "length t' < 2 ^ 32" "concat bs' = response_stream ds t'"
    and "list_all2 (\<lambda>d r. Book_deserializeBinary J d = Some (Inr r)) ds books" "parseTrailerData M t' = Inr m'"
    and "status_of M (md_copy M m') = Some (s', msg')"
  shows "user q' =
    [BookStatus s msg, BookHeaders h] @ printed_book J s book @ [BookTrailers (md_copy M m)] @
    QueryHeaders h' # map (\<lambda>b. QueryMessage (Book_toObject J False b)) books @
    [QueryEnd s' msg' (md_copy M m')]"
proof -
  let ?log = "[BookStatus s msg, BookHeaders h] @ printed_book J s book @ [BookTrailers (md_copy M m)]"
  from example_first_response [OF assms(1,2,4-12)] assms(13)
  have "example_queryBooks M sl J tc df host ?log = (e', Some q)" by simp
  note fresh = example_query_fresh [OF this]
  have "deserialized E2 ds books"
    using assms(20)
    by (auto simp: deserialized_def assms(3) BookService_QueryBooks_def returned_def elim: list_all2_mono)
  from fresh_delivers [OF fresh assms(14) _ assms(15) _ assms(17-19) this] assms(16,21,22)
  have "notified (trace q') = (OnQueryHeaders, HeadersEv h') # message_events [OnQueryMessage] books @
      [(OnQueryEnd, EndEv s' msg' (md_copy M m'))]"
    by (simp add: assms(3) query_observers)
  with unary_user [OF assms(14) fresh] replay_query_messages [of M sl J tc books "?log @ [QueryHeaders h']"]
  show ?thesis
    by (simp add: assms(3) replay_append replay_def)
qed

lemma example_query_starts:
  assumes "\<forall>url. \<exists>t. df url = Inr t"
  shows "\<exists>e q. example_queryBooks M sl J tc df host log = (e, Some q)"
proof -
  obtain t where "df (request_url host (BookService_QueryBooks J)) = Inr t" using assms by blast
  then show ?thesis
    by (auto simp: example_queryBooks_def new_GrpcClient_def createTransport_def js_bind_def Let_def
        split: prod.split simp del: run_actions.simps)
qed

text \<open>A session with the wire format of \<open>WireFormat\<close>, its response of fields in no order.\<close>

definition page_response :: "bytes list \<Rightarrow> (assoc, 'a, 'g, 'cb) input list" where
  "page_response ds = TransportHeaders [] 200 # map TransportChunk [response_stream ds status_block] @ [TransportEnd]"

abbreviation page_bytes :: bytes where
  "page_bytes \<equiv> [26, 1, 65, 18, 1, 88, 77, 1, 2, 3, 4, 18, 1, 89]"

abbreviation page_getBook where
  "page_getBook \<equiv> example_getBook assoc_metadata True wire_jspb idle_call (\<lambda>_. Inr ()) (example_host False)"

abbreviation page_env where
  "page_env \<equiv> example_book_env assoc_metadata True wire_jspb idle_call (\<lambda>_. Inr ()) (example_host False)"

lemma page_book:
  "\<exists>g. Book_deserializeBinary wire_jspb page_bytes = Some (Inr g) \<and> Book_getTitle wire_jspb g = StringValue (js ''Y'')"
proof -
  have "list_all (conforms Book_schema) demo_fields"
    "last_value 2 demo_fields empty_string = StringValue (js ''Y'')" by code_simp+
  with jspb.book_reads [OF wire.jspb_axioms demo_fields_read] show ?thesis by (auto simp: book_holds_def)
qed

lemma page_getBook_client: "\<exists>e c. page_getBook = (e, Some c)"
proof -
  have "snd page_getBook \<noteq> None"
    by (simp add: example_getBook_def unary_no_client example_book_env_def BookService_GetBook_def createTransport_def)
  then show ?thesis by (metis not_None_eq prod.collapse)
qed

theorem example_session_witness:
  "\<exists>e c e' q book. page_getBook = (e, Some c) \<and> Book_getTitle wire_jspb book = StringValue (js ''Y'') \<and>
     queryCall (outer (user (run page_env (page_response [page_bytes]) c))) = Some (e', Some q) \<and>
     user (run (example_query_env assoc_metadata True wire_jspb idle_call) (page_response [page_bytes, page_bytes]) q) =
     [BookStatus (Num 0) [], BookHeaders [], BookMessage (Book_toObject wire_jspb False book), BookTrailers status_md,
      QueryHeaders [], QueryMessage (Book_toObject wire_jspb False book),
      QueryMessage (Book_toObject wire_jspb False book), QueryEnd (Num 0) [] status_md]"
proof -
  obtain e c where c: "page_getBook = (e, Some c)" using page_getBook_client by blast
  obtain g where g: "Book_deserializeBinary wire_jspb page_bytes = Some (Inr g)"
    "Book_getTitle wire_jspb g = StringValue (js ''Y'')" using page_book by blast
  have ok: "Num 0 = code OK" by code_simp
  note drive = driven_run [of _ "page_response _", unfolded page_response_def]
  note facts = status_ok status_block_read status_md_status length_status_block
  from example_first_response [OF c refl drive, where p = page_bytes and t = status_block and book = g
      and m = status_md and s = "Num 0" and msg = "[]"] g
  obtain e' q where q: "queryCall (outer (user (run page_env (page_response [page_bytes]) c))) = Some (e', Some q)"
    using example_query_starts [of "\<lambda>_. Inr ()"] by (fastforce simp: facts page_response_def)
  from example_session [OF c refl refl drive _ _ _ _ _ g(1) _ _ q [unfolded page_response_def] drive,
      where t = status_block and m = status_md and s = "Num 0" and msg = "[]" and ds = "[page_bytes, page_bytes]"
        and t' = status_block and books = "[g, g]" and m' = status_md and s' = "Num 0" and msg' = "[]"]
    g(1) ok
  have "user (run (example_query_env assoc_metadata True wire_jspb idle_call) (page_response [page_bytes, page_bytes]) q) =
     [BookStatus (Num 0) [], BookHeaders [], BookMessage (Book_toObject wire_jspb False g), BookTrailers status_md,
      QueryHeaders [], QueryMessage (Book_toObject wire_jspb False g),
      QueryMessage (Book_toObject wire_jspb False g), QueryEnd (Num 0) [] status_md]"
    by (simp add: facts printed_book_def page_response_def)
  with c g(2) q show ?thesis by blast
qed

end
