(* ===== verification/GoHttp.thy ===== *)
theory GoHttp
  imports Prelude "HOL-Library.AList" "HOL-Library.List_Lexorder"
begin

text \<open>
  What the server of \<^verbatim>\<open>go/grpcweb\<close> uses of Go's library, and its own \<^verbatim>\<open>header.go\<close>.

  A Go string is a list of bytes.  An \<^verbatim>\<open>http.Header\<close> is a map from keys to lists of values,
  whose \<^verbatim>\<open>range\<close> visits the keys in an order the language leaves open: a header is the list of
  its pairs in the order of the next \<^verbatim>\<open>range\<close>, with distinct keys, so that a statement about
  every header is a statement about every order.  \<^verbatim>\<open>strings.ToLower\<close> and the token table are
  those for ASCII, which is what field names consist of; \<^verbatim>\<open>Header.Write\<close> and the reader of
  \<^verbatim>\<open>net/textproto\<close> are those of Go 1.16, the version \<^verbatim>\<open>go.mod\<close> names.
\<close>

section \<open>Strings\<close>

type_synonym go_string = bytes

definition go :: "string \<Rightarrow> go_string" where
  "go s = map of_char s"

lemma go_Nil [simp]: "go [] = []"
  by (simp add: go_def)

lemma go_Cons [simp]: "go (c # s) = of_char c # go s"
  by (simp add: go_def)

definition lower_byte :: "byte \<Rightarrow> byte" where
  "lower_byte b = (if 65 \<le> b \<and> b \<le> 90 then b + 32 else b)"

definition upper_byte :: "byte \<Rightarrow> byte" where
  "upper_byte b = (if 97 \<le> b \<and> b \<le> 122 then b - 32 else b)"

definition ToLower :: "go_string \<Rightarrow> go_string" where
  "ToLower s = map lower_byte s"

text \<open>The letters, the digits and the marks of RFC 7230's \<open>token\<close>.\<close>

definition token_byte :: "byte \<Rightarrow> bool" where
  "token_byte b \<longleftrightarrow>
     (if 94 \<le> b then b \<le> 122 \<or> b = 124 \<or> b = 126
      else if 65 \<le> b then b \<le> 90
      else if 48 \<le> b then b \<le> 57
      else if 42 \<le> b then b \<noteq> 44 \<and> b \<noteq> 47
      else b = 33 \<or> 35 \<le> b \<and> b \<le> 39)"

fun canonical :: "bool \<Rightarrow> go_string \<Rightarrow> go_string" where
  "canonical upper [] = []"
| "canonical upper (b # bs) = (if upper then upper_byte b else lower_byte b) # canonical (b = 45) bs"

definition CanonicalHeaderKey :: "go_string \<Rightarrow> go_string" where
  "CanonicalHeaderKey k = (if list_all token_byte k then canonical True k else k)"

fun Contains :: "go_string \<Rightarrow> go_string \<Rightarrow> bool" where
  "Contains [] old \<longleftrightarrow> old = []"
| "Contains (b # bs) old \<longleftrightarrow> prefix old (b # bs) \<or> Contains bs old"

text \<open>\<^verbatim>\<open>strings.Replace(s, old, new, 1)\<close>.\<close>

fun Replace1 :: "go_string \<Rightarrow> go_string \<Rightarrow> go_string \<Rightarrow> go_string" where
  "Replace1 [] old new = (if old = [] then new else [])"
| "Replace1 (b # bs) old new =
     (if prefix old (b # bs) then new @ drop (length old) (b # bs) else b # Replace1 bs old new)"

fun Join :: "go_string list \<Rightarrow> go_string \<Rightarrow> go_string" where
  "Join [] sep = []"
| "Join [s] sep = s"
| "Join (s # ss) sep = s @ sep @ Join ss sep"

definition trim_bytes :: "byte set \<Rightarrow> go_string \<Rightarrow> go_string" where
  "trim_bytes cs s = rev (dropWhile (\<lambda>b. b \<in> cs) (rev (dropWhile (\<lambda>b. b \<in> cs) s)))"

section \<open>Headers\<close>

type_synonym go_header = "(go_string \<times> go_string list) list"

definition header_set :: "go_string \<Rightarrow> go_string \<Rightarrow> go_header \<Rightarrow> go_header" where
  "header_set k v h = AList.update (CanonicalHeaderKey k) [v] h"

definition header_get :: "go_string \<Rightarrow> go_header \<Rightarrow> go_string" where
  "header_get k h =
     (case map_of h (CanonicalHeaderKey k) of Some (v # _) \<Rightarrow> v | _ \<Rightarrow> [])"

definition header_del :: "go_string \<Rightarrow> go_header \<Rightarrow> go_header" where
  "header_del k h = AList.delete (CanonicalHeaderKey k) h"

lemma update_absent: "k \<notin> fst ` set m \<Longrightarrow> AList.update k v m = m @ [(k, v)]"
  by (induction m) auto

text \<open>
  \<^verbatim>\<open>Header.Write\<close>: the keys in order, each value on a line of its own with newlines made
  spaces and the white space around it trimmed; a key that is not a token is left out.
\<close>

definition newline_to_space :: "go_string \<Rightarrow> go_string" where
  "newline_to_space = map (\<lambda>b. if b = 10 \<or> b = 13 then 32 else b)"

definition header_line :: "go_string \<Rightarrow> go_string \<Rightarrow> go_string" where
  "header_line k v = k @ [58, 32] @ trim_bytes {32, 9, 10, 13} (newline_to_space v) @ [13, 10]"

definition header_Write :: "go_header \<Rightarrow> bytes" where
  "header_Write h =
     concat (map (\<lambda>(k, vs). if k \<noteq> [] \<and> list_all token_byte k then concat (map (header_line k) vs) else [])
       (sort_key fst h))"

section \<open>header.go\<close>

type_synonym replacer = "go_string \<Rightarrow> go_string list \<Rightarrow> (go_string \<times> go_string list) option"

record copy_options =
  optSkipKeys :: "go_string list"
  replacers :: "replacer list"

type_synonym copy_option = "copy_options \<Rightarrow> copy_options"

definition skipKeys :: "go_string list \<Rightarrow> copy_option" where
  "skipKeys keys opts = opts\<lparr>optSkipKeys := optSkipKeys opts @ map ToLower keys\<rparr>"

definition replaceInVals :: "go_string \<Rightarrow> go_string \<Rightarrow> go_string \<Rightarrow> copy_option" where
  "replaceInVals key old new opts =
     opts\<lparr>replacers := replacers opts @
       [\<lambda>k vv. if ToLower key = ToLower k then Some (k, map (\<lambda>v. Replace1 v old new) vv) else None]\<rparr>"

definition replaceInKeys :: "go_string \<Rightarrow> go_string \<Rightarrow> copy_option" where
  "replaceInKeys old new opts =
     opts\<lparr>replacers := replacers opts @
       [\<lambda>k vv. if Contains k old then Some (Replace1 k old new, vv) else None]\<rparr>"

definition keyCase :: "(go_string \<Rightarrow> go_string) \<Rightarrow> copy_option" where
  "keyCase fn opts = opts\<lparr>replacers := replacers opts @ [\<lambda>k vv. Some (fn k, vv)]\<rparr>"

definition keyTrim :: "(go_string \<Rightarrow> go_string \<Rightarrow> go_string) \<Rightarrow> go_string \<Rightarrow> copy_option" where
  "keyTrim fn cutset opts = opts\<lparr>replacers := replacers opts @ [\<lambda>k vv. Some (fn k cutset, vv)]\<rparr>"

definition apply_replacers :: "replacer list \<Rightarrow> go_string \<times> go_string list \<Rightarrow> go_string \<times> go_string list" where
  "apply_replacers rs kv =
     fold (\<lambda>r (k, vv). case r k vv of Some kv2 \<Rightarrow> kv2 | None \<Rightarrow> (k, vv)) rs kv"

definition copyHeader :: "go_header \<Rightarrow> go_header \<Rightarrow> copy_option list \<Rightarrow> go_header" where
  "copyHeader dst src opts =
     (let options = fold (\<lambda>opt. opt) opts \<lparr>optSkipKeys = [], replacers = []\<rparr>
      in fold (\<lambda>(k, vv) dst.
           if ToLower k \<in> set (optSkipKeys options) then dst
           else (let (k2, vv2) = apply_replacers (replacers options) (k, vv) in AList.update k2 vv2 dst))
         src dst)"

definition headerKeys :: "go_header \<Rightarrow> go_string list" where
  "headerKeys h = map fst h"

section \<open>net/textproto\<close>

datatype go_error = EOF | ProtocolError go_string | GoError go_string

text \<open>The lines of a text, without the \<^verbatim>\<open>\n\<close> or \<^verbatim>\<open>\r\n\<close> that ends them.\<close>

definition strip_cr :: "go_string \<Rightarrow> go_string" where
  "strip_cr l = (if l \<noteq> [] \<and> last l = 13 then butlast l else l)"

fun text_lines :: "go_string \<Rightarrow> go_string \<Rightarrow> go_string list" where
  "text_lines acc [] = (if acc = [] then [] else [acc])"
| "text_lines acc (b # bs) =
     (if b = 10 then strip_cr acc # text_lines [] bs else text_lines (acc @ [b]) bs)"

definition is_space :: "byte \<Rightarrow> bool" where
  "is_space b \<longleftrightarrow> b = 32 \<or> b = 9"

definition starts_with_space :: "go_string \<Rightarrow> bool" where
  "starts_with_space l \<longleftrightarrow> l \<noteq> [] \<and> is_space (hd l)"

text \<open>The continuation lines after a line, and the lines after them.\<close>

fun continuation :: "go_string list \<Rightarrow> go_string \<times> go_string list" where
  "continuation [] = ([], [])"
| "continuation (l # ls) =
     (if starts_with_space l
      then (32 # trim_bytes {32, 9} l @ fst (continuation ls), snd (continuation ls))
      else ([], l # ls))"

lemma continuation_length: "length (snd (continuation ls)) \<le> length ls"
  by (induction ls) auto

function mime_lines :: "go_header \<Rightarrow> go_string list \<Rightarrow> go_error + go_header" where
  "mime_lines m [] = Inl EOF"
| "mime_lines m (l # ls) =
     (if l = [] then Inr m
      else if 58 \<notin> set l then Inl (ProtocolError (go ''malformed MIME header: missing colon''))
      else
        let kv = trim_bytes {32, 9} l @ fst (continuation ls);
            key = CanonicalHeaderKey (takeWhile (\<lambda>b. b \<noteq> 58) kv);
            value = dropWhile is_space (drop 1 (dropWhile (\<lambda>b. b \<noteq> 58) kv))
        in if key = [] then mime_lines m (snd (continuation ls))
           else mime_lines (AList.update key ((case map_of m key of Some vs \<Rightarrow> vs | None \<Rightarrow> []) @ [value]) m)
             (snd (continuation ls)))"
  by pat_completeness auto
termination
  by (relation "measure (\<lambda>(_, ls). length ls)") (auto simp: less_Suc_eq_le continuation_length)

definition ReadMIMEHeader :: "go_string \<Rightarrow> go_error + go_header" where
  "ReadMIMEHeader s =
     (if starts_with_space s then Inl (ProtocolError (go ''malformed MIME header initial line''))
      else mime_lines [] (text_lines [] s))"

end
