(* ===== verification/GoServer.thy ===== *)
theory GoServer
  imports GoHttp
begin

text \<open>
  The server's side of the two protocols, \<^verbatim>\<open>go/grpcweb/websocket_wrapper.go\<close> and
  \<^verbatim>\<open>go/grpcweb/grpc_web_response.go\<close>: the response writers that turn the response of a gRPC
  handler into the stream the client reads, and the reader that turns WebSocket messages into
  the body of a request.

  The connection is modelled by what it has received and what it was given to send, whether it
  is closed, and the limit on the size of a message that it reads; a \<^verbatim>\<open>Read\<close> with nothing to
  read waits.  The ping timer, which only sends control frames, and the errors that writing
  ignores are left out.
  The response writer of \<^verbatim>\<open>net/http\<close> fixes status and headers at the first \<^verbatim>\<open>WriteHeader\<close>,
  \<^verbatim>\<open>Write\<close> or \<^verbatim>\<open>Flush\<close>.  In the text format, which this client does not ask for, the bytes of
  a response go through the encoder of Go's \<^verbatim>\<open>encoding/base64\<close>.
\<close>

section \<open>What a handler does to its response\<close>

text \<open>The handler also writes to the map that \<^verbatim>\<open>Header()\<close> returns.\<close>

datatype handler_op =
    PutHeader go_string "go_string list"
  | DeleteHeader go_string
  | WriteHeader int
  | WriteBody bytes
  | Flush

fun header_effect :: "handler_op \<Rightarrow> go_header \<Rightarrow> go_header" where
  "header_effect (PutHeader k vs) h = AList.update k vs h"
| "header_effect (DeleteHeader k) h = AList.delete k h"
| "header_effect _ h = h"

definition grpc_data_header :: "byte \<Rightarrow> nat \<Rightarrow> bytes" where
  "grpc_data_header flag n = set_bytes [flag, 0, 0, 0, 0] 1 (be32_bytes (of_nat n))"

section \<open>The WebSocket response writer\<close>

datatype message_type = NoMessage | MessageText | MessageBinary

text \<open>
  \<open>readLimit\<close> is the size of the largest message the connection accepts, \<^verbatim>\<open>SetReadLimit\<close> or the
  default of the WebSocket package (32769 bytes according to \<^verbatim>\<open>options.go\<close>).  What \<^verbatim>\<open>Read\<close>
  returns beside an error for a larger one is the package's, a parameter: \<open>overLimit\<close> gives type,
  bytes and error for a limit and a message.  The package then closes the connection.
\<close>

type_synonym over_limit = "int \<Rightarrow> message_type \<times> bytes \<Rightarrow> message_type \<times> bytes \<times> go_error"

record ws_endpoint =
  incoming :: "(message_type \<times> bytes \<times> go_error option) list"
  peerGone :: bool \<comment> \<open>nothing more will come\<close>
  readLimit :: int
  overLimit :: over_limit
  outgoing :: "bytes list"
  connClosed :: bool
  writtenHeaders :: bool
  respHeaders :: go_header
  flushedHeaders :: go_header
  remainingBuffer :: "bytes option"
  remainingError :: "go_error option"
  contextCancelled :: bool
  watching :: bool \<comment> \<open>the goroutine that waits for the end of the connection\<close>

definition new_ws_endpoint ::
  "int \<Rightarrow> over_limit \<Rightarrow> bool \<Rightarrow> (message_type \<times> bytes \<times> go_error option) list \<Rightarrow> ws_endpoint"
where
  "new_ws_endpoint limit over gone ms =
     \<lparr>incoming = ms, peerGone = gone, readLimit = limit, overLimit = over, outgoing = [],
      connClosed = False, writtenHeaders = False, respHeaders = [], flushedHeaders = [],
      remainingBuffer = None, remainingError = None, contextCancelled = False, watching = False\<rparr>"

definition conn_Write :: "bytes \<Rightarrow> ws_endpoint \<Rightarrow> ws_endpoint" where
  "conn_Write b w = (if connClosed w then w else w\<lparr>outgoing := outgoing w @ [b]\<rparr>)"

definition writeHeaderFrame :: "go_header \<Rightarrow> ws_endpoint \<Rightarrow> ws_endpoint" where
  "writeHeaderFrame headers w =
     (let headerBuffer = header_Write headers
      in conn_Write headerBuffer (conn_Write (grpc_data_header 128 (length headerBuffer)) w))"

definition copyFlushedHeaders :: "ws_endpoint \<Rightarrow> ws_endpoint" where
  "copyFlushedHeaders w =
     w\<lparr>flushedHeaders :=
        copyHeader (flushedHeaders w) (respHeaders w) [skipKeys [go ''trailer''], keyCase CanonicalHeaderKey]\<rparr>"

definition ws_WriteHeader :: "ws_endpoint \<Rightarrow> ws_endpoint" where
  "ws_WriteHeader w =
     (let w = copyFlushedHeaders w; w = w\<lparr>writtenHeaders := True\<rparr>
      in writeHeaderFrame (respHeaders w) w)"

definition ws_Write :: "bytes \<Rightarrow> ws_endpoint \<Rightarrow> ws_endpoint" where
  "ws_Write b w = conn_Write b (if writtenHeaders w then w else ws_WriteHeader w)"

definition extractTrailerHeaders :: "ws_endpoint \<Rightarrow> go_header" where
  "extractTrailerHeaders w =
     copyHeader [] (respHeaders w)
       [skipKeys (go ''trailer'' # headerKeys (flushedHeaders w)), replaceInKeys (go ''Trailer:'') [],
        keyCase ToLower]"

definition FlushTrailers :: "ws_endpoint \<Rightarrow> ws_endpoint" where
  "FlushTrailers w = writeHeaderFrame (extractTrailerHeaders w) w"

fun ws_handler_op :: "handler_op \<Rightarrow> ws_endpoint \<Rightarrow> ws_endpoint" where
  "ws_handler_op (WriteHeader code) w = ws_WriteHeader w"
| "ws_handler_op (WriteBody b) w = ws_Write b w"
| "ws_handler_op Flush w = w"
| "ws_handler_op a w = w\<lparr>respHeaders := header_effect a (respHeaders w)\<rparr>"

section \<open>The WebSocket reader\<close>

text \<open>\<^verbatim>\<open>Close\<close> of the reader, which ends the response.\<close>

definition wrapped_Close :: "ws_endpoint \<Rightarrow> ws_endpoint" where
  "wrapped_Close w = (FlushTrailers w)\<lparr>connClosed := True\<rparr>"

definition SetReadLimit :: "int \<Rightarrow> ws_endpoint \<Rightarrow> ws_endpoint" where
  "SetReadLimit n w = w\<lparr>readLimit := n\<rparr>"

text \<open>
  \<^verbatim>\<open>Read(ctx)\<close> fails, without a message, once the connection is closed or the context
  cancelled.  \<open>None\<close>: it waits.
\<close>

definition conn_Read :: "ws_endpoint \<Rightarrow> ((message_type \<times> bytes \<times> go_error option) \<times> ws_endpoint) option" where
  "conn_Read w =
     (let failed = (NoMessage, [], Some (GoError (go ''connection closed''))) in
      if connClosed w \<or> contextCancelled w then Some (failed, w)
      else
        case incoming w of
          [] \<Rightarrow> if peerGone w then Some (failed, w) else None
        | (messageType, payload, err) # ms \<Rightarrow>
            if int (length payload) \<le> readLimit w
            then Some ((messageType, payload, err), w\<lparr>incoming := ms\<rparr>)
            else
              case overLimit w (readLimit w) (messageType, payload) of
                (messageType, part, e) \<Rightarrow>
                  Some ((messageType, part, Some e), w\<lparr>incoming := ms, connClosed := True\<rparr>))"

definition connection_gone :: "message_type \<Rightarrow> go_error option \<Rightarrow> bool" where
  "connection_gone messageType err \<longleftrightarrow> err = Some EOF \<or> messageType = NoMessage"

text \<open>
  \<^verbatim>\<open>Read(p)\<close> with \<open>n\<close> for \<^verbatim>\<open>len(p)\<close>: the bytes copied to \<^verbatim>\<open>p\<close>, and the error.
  \<open>None\<close>: it waits for a message.
\<close>

definition wrapped_Read :: "nat \<Rightarrow> ws_endpoint \<Rightarrow> (bytes \<times> go_error option \<times> ws_endpoint) option" where
  "wrapped_Read n w =
     (case remainingBuffer w of
        Some rest \<Rightarrow>
          Some
            (if length rest \<le> n
             then (rest, remainingError w, w\<lparr>remainingBuffer := None, remainingError := None\<rparr>)
             else (take n rest, None, w\<lparr>remainingBuffer := Some (drop n rest)\<rparr>))
      | None \<Rightarrow>
          (case conn_Read w of
             None \<Rightarrow> None
           | Some ((messageType, framePayload, err), w) \<Rightarrow>
               Some
                 (if connection_gone messageType err then ([], Some EOF, w\<lparr>contextCancelled := True\<rparr>)
                  else if messageType \<noteq> MessageBinary
                  then ([], Some (GoError (go ''websocket frame was not a binary frame'')), w)
                  else if length framePayload = 1 \<and> framePayload ! 0 = 1
                  then ([], Some EOF, w\<lparr>watching := True\<rparr>)
                  else if length framePayload = 0 then ([], err, w)
                  else
                    let dataPayload = drop 1 framePayload
                    in if length dataPayload \<le> n then (dataPayload, err, w)
                       else (take n dataPayload, None,
                             w\<lparr>remainingBuffer := Some (drop n dataPayload), remainingError := err\<rparr>))))"

text \<open>One round of the loop of the goroutine.\<close>

definition watch_step :: "ws_endpoint \<Rightarrow> ws_endpoint" where
  "watch_step w =
     (if watching w
      then (case conn_Read w of
              None \<Rightarrow> w
            | Some ((messageType, _, err), w) \<Rightarrow>
                if connection_gone messageType err then w\<lparr>contextCancelled := True, watching := False\<rparr> else w)
      else w)"

text \<open>
  Reads of the given sizes, up to the first error or the first that waits: the bytes, and how
  it ended.
\<close>

datatype read_outcome = Continuing | Blocked | Ended go_error

fun read_calls :: "nat list \<Rightarrow> ws_endpoint \<Rightarrow> bytes \<times> read_outcome \<times> ws_endpoint" where
  "read_calls [] w = ([], Continuing, w)"
| "read_calls (n # ns) w =
     (case wrapped_Read n w of
        None \<Rightarrow> ([], Blocked, w)
      | Some (b, Some e, w) \<Rightarrow> (b, Ended e, w)
      | Some (b, None, w) \<Rightarrow> (case read_calls ns w of (bs, e, w) \<Rightarrow> (b @ bs, e, w)))"

section \<open>The HTTP response writer\<close>

record http_writer =
  rwHeader :: go_header
  rwCommitted :: "(int \<times> go_header) option"
  rwBody :: "bytes list"

definition rw_WriteHeader :: "int \<Rightarrow> http_writer \<Rightarrow> http_writer" where
  "rw_WriteHeader code w =
     (if rwCommitted w = None then w\<lparr>rwCommitted := Some (code, rwHeader w)\<rparr> else w)"

definition rw_Write :: "bytes \<Rightarrow> http_writer \<Rightarrow> http_writer" where
  "rw_Write b w = (rw_WriteHeader 200 w)\<lparr>rwBody := rwBody w @ [b]\<rparr>"

definition rw_Flush :: "http_writer \<Rightarrow> http_writer" where
  "rw_Flush w = rw_WriteHeader 200 w"

text \<open>
  \<^verbatim>\<open>encoding/base64\<close>: the standard alphabet, the encoding of up to three bytes, padded, and the
  streaming encoder, which holds back up to two bytes until it is closed.
\<close>

definition base64_char :: "nat \<Rightarrow> byte" where
  "base64_char n = go ''ABCDEFGHIJKLMNOPQRSTUVWXYZabcdefghijklmnopqrstuvwxyz0123456789+/'' ! n"

fun base64_group :: "bytes \<Rightarrow> bytes" where
  "base64_group [a, b, c] =
     (let v = unat a * 65536 + unat b * 256 + unat c
      in [base64_char (v div 262144), base64_char (v div 4096 mod 64), base64_char (v div 64 mod 64),
          base64_char (v mod 64)])"
| "base64_group [a, b] =
     (let v = unat a * 1024 + unat b * 4
      in [base64_char (v div 4096), base64_char (v div 64 mod 64), base64_char (v mod 64), 61])"
| "base64_group [a] =
     (let v = unat a * 16 in [base64_char (v div 64), base64_char (v mod 64), 61, 61])"
| "base64_group _ = []"

fun encoder_Write :: "bytes \<Rightarrow> bytes \<times> bytes" where
  "encoder_Write (a # b # c # bs) =
     (case encoder_Write bs of (out, held) \<Rightarrow> (base64_group [a, b, c] @ out, held))"
| "encoder_Write held = ([], held)"

text \<open>
  \<^verbatim>\<open>grpcWebResponse\<close>.  \<^verbatim>\<open>wrapped\<close> is the writer given, or that writer behind a
  \<^verbatim>\<open>base64ResponseWriter\<close>; then \<open>encoder\<close> is what its encoder holds back.  What the encoder
  hands on during one \<^verbatim>\<open>Write\<close>, in pieces of its own size, is one write here.
\<close>

record grpc_web_response =
  wroteHeaders :: bool
  wroteBody :: bool
  gwHeaders :: go_header
  wrapped :: http_writer
  encoder :: "bytes option"
  gwContentType :: go_string

definition newGrpcWebResponse :: "http_writer \<Rightarrow> bool \<Rightarrow> grpc_web_response" where
  "newGrpcWebResponse resp isTextFormat =
     (let g = \<lparr>wroteHeaders = False, wroteBody = False, gwHeaders = [], wrapped = resp, encoder = None,
               gwContentType = go ''application/grpc-web''\<rparr>
      in if isTextFormat
         then g\<lparr>encoder := Some [], gwContentType := go ''application/grpc-web-text''\<rparr> else g)"

definition base64_Write :: "bytes \<Rightarrow> bytes \<Rightarrow> http_writer \<Rightarrow> bytes \<times> http_writer" where
  "base64_Write b held w =
     (case encoder_Write (held @ b) of
        (out, held) \<Rightarrow> (held, if out = [] then w else rw_Write out w))"

definition base64_Flush :: "bytes \<Rightarrow> http_writer \<Rightarrow> bytes \<times> http_writer" where
  "base64_Flush held w = ([], rw_Flush (if held = [] then w else rw_Write (base64_group held) w))"

definition wrapped_Write :: "bytes \<Rightarrow> grpc_web_response \<Rightarrow> grpc_web_response" where
  "wrapped_Write b w =
     (case encoder w of
        None \<Rightarrow> w\<lparr>wrapped := rw_Write b (wrapped w)\<rparr>
      | Some held \<Rightarrow> (case base64_Write b held (wrapped w) of (held, r) \<Rightarrow> w\<lparr>wrapped := r, encoder := Some held\<rparr>))"

definition flushWriter :: "grpc_web_response \<Rightarrow> grpc_web_response" where
  "flushWriter w =
     (case encoder w of
        None \<Rightarrow> w\<lparr>wrapped := rw_Flush (wrapped w)\<rparr>
      | Some held \<Rightarrow> (case base64_Flush held (wrapped w) of (held, r) \<Rightarrow> w\<lparr>wrapped := r, encoder := Some held\<rparr>))"

definition prepareHeaders :: "grpc_web_response \<Rightarrow> grpc_web_response" where
  "prepareHeaders w =
     (let wh = copyHeader (rwHeader (wrapped w)) (gwHeaders w)
                 [skipKeys [go ''trailer''], replaceInKeys (go ''Trailer:'') [],
                  replaceInVals (go ''content-type'') (go ''application/grpc'') (gwContentType w),
                  keyCase CanonicalHeaderKey];
          responseHeaderKeys = headerKeys wh @ [go ''grpc-status'', go ''grpc-message''];
          wh = header_set (CanonicalHeaderKey (go ''access-control-expose-headers''))
                 (Join responseHeaderKeys (go '', '')) wh
      in w\<lparr>wrapped := (wrapped w)\<lparr>rwHeader := wh\<rparr>\<rparr>)"

definition gw_Write :: "bytes \<Rightarrow> grpc_web_response \<Rightarrow> grpc_web_response" where
  "gw_Write b w =
     (let w = (if wroteHeaders w then w else prepareHeaders w);
          w = w\<lparr>wroteBody := True, wroteHeaders := True\<rparr>
      in wrapped_Write b w)"

definition gw_WriteHeader :: "int \<Rightarrow> grpc_web_response \<Rightarrow> grpc_web_response" where
  "gw_WriteHeader code w =
     (let w = prepareHeaders w
      in w\<lparr>wrapped := rw_WriteHeader code (wrapped w), wroteHeaders := True\<rparr>)"

definition gw_Flush :: "grpc_web_response \<Rightarrow> grpc_web_response" where
  "gw_Flush w =
     (if wroteHeaders w \<or> wroteBody w then flushWriter w else w)"

definition extractTrailingHeaders :: "go_header \<Rightarrow> go_header \<Rightarrow> go_header" where
  "extractTrailingHeaders src flushed =
     copyHeader [] src
       [skipKeys (go ''trailer'' # headerKeys flushed), replaceInKeys (go ''Trailer:'') [], keyCase ToLower]"

definition copyTrailersToPayload :: "grpc_web_response \<Rightarrow> grpc_web_response" where
  "copyTrailersToPayload w =
     (let trailers = extractTrailingHeaders (gwHeaders w) (rwHeader (wrapped w));
          trailerBuffer = header_Write trailers;
          w = wrapped_Write (grpc_data_header 128 (length trailerBuffer)) w;
          w = wrapped_Write trailerBuffer w
      in flushWriter w)"

definition finishRequest :: "grpc_web_response \<Rightarrow> grpc_web_response" where
  "finishRequest w =
     (if wroteHeaders w \<or> wroteBody w then copyTrailersToPayload w
      else flushWriter (gw_WriteHeader 200 w))"

fun gw_handler_op :: "handler_op \<Rightarrow> grpc_web_response \<Rightarrow> grpc_web_response" where
  "gw_handler_op (WriteHeader code) w = gw_WriteHeader code w"
| "gw_handler_op (WriteBody b) w = gw_Write b w"
| "gw_handler_op Flush w = gw_Flush w"
| "gw_handler_op a w = w\<lparr>gwHeaders := header_effect a (gwHeaders w)\<rparr>"

end
