(* ===== verification/GoRequests.thy ===== *)
theory GoRequests
  imports GoServer
begin

text \<open>
  \<^verbatim>\<open>go/grpcweb/wrapper.go\<close> and \<^verbatim>\<open>helpers.go\<close>: which requests the server takes for gRPC-Web, and
  the request it makes of one for the gRPC handler.

  The functions an application configures are fields of \<open>server_options\<close>; the handler, the CORS
  wrapper and the handshake of the WebSocket package are outside, and the model ends where they
  are called.  The request of the handler keeps method, path, protocol version and headers; its
  body is read from the connection by \<open>wrapped_Read\<close>.
\<close>

section \<open>Requests\<close>

record go_request =
  reqMethod :: go_string
  reqPath :: go_string
  reqProto :: "nat \<times> nat"
  reqHeader :: go_header

record server_options =
  enableWebsockets :: bool
  websocketOriginFunc :: "go_request \<Rightarrow> bool"
  websocketReadLimit :: int
  corsForRegisteredEndpointsOnly :: bool
  endpointsFunc :: "go_string list"
  allowNonRootResources :: bool
  allowedHeaders :: "go_string list"

abbreviation grpcContentType :: go_string where
  "grpcContentType \<equiv> go ''application/grpc''"

abbreviation grpcWebContentType :: go_string where
  "grpcWebContentType \<equiv> go ''application/grpc-web''"

abbreviation grpcWebTextContentType :: go_string where
  "grpcWebTextContentType \<equiv> go ''application/grpc-web-text''"

fun Split :: "byte \<Rightarrow> go_string \<Rightarrow> go_string list" where
  "Split sep [] = [[]]"
| "Split sep (b # bs) =
     (if b = sep then [] # Split sep bs
      else (case Split sep bs of [] \<Rightarrow> [[b]] | t # ts \<Rightarrow> (b # t) # ts))"

definition TrimSpace :: "go_string \<Rightarrow> go_string" where
  "TrimSpace = trim_bytes {9, 10, 11, 12, 13, 32}"

text \<open>\<^verbatim>\<open>pathMatcher\<close>, the last two segments of a path, and the path itself without them.\<close>

definition getGRPCEndpoint :: "go_string \<Rightarrow> go_string" where
  "getGRPCEndpoint path =
     (let p = rev (dropWhile (\<lambda>b. b = 47) (rev path));
          r = rev p;
          m = takeWhile (\<lambda>b. b \<noteq> 47) r;
          r2 = drop (length m) r;
          s = takeWhile (\<lambda>b. b \<noteq> 47) (drop 1 r2);
          r3 = drop (length s) (drop 1 r2)
      in if r2 = [] \<or> r3 = [] then path else rev (m @ [47] @ s @ [47]))"

definition endpointFunc :: "server_options \<Rightarrow> go_request \<Rightarrow> go_string" where
  "endpointFunc S req =
     (if allowNonRootResources S then getGRPCEndpoint (reqPath req) else reqPath req)"

section \<open>Which requests are gRPC-Web\<close>

definition IsGrpcWebSocketRequest :: "go_request \<Rightarrow> bool" where
  "IsGrpcWebSocketRequest req \<longleftrightarrow>
     ToLower (header_get (go ''Upgrade'') (reqHeader req)) = go ''websocket'' \<and>
     (\<exists>subproto \<in> set (case map_of (reqHeader req) (CanonicalHeaderKey (go ''Sec-Websocket-Protocol'')) of
         None \<Rightarrow> [] | Some vs \<Rightarrow> vs).
       \<exists>token \<in> set (Split 44 subproto). ToLower (TrimSpace token) = go ''grpc-websockets'')"

definition IsGrpcWebRequest :: "go_request \<Rightarrow> bool" where
  "IsGrpcWebRequest req \<longleftrightarrow>
     reqMethod req = go ''POST'' \<and>
     prefix grpcWebContentType (header_get (go ''content-type'') (reqHeader req))"

definition isRequestForRegisteredEndpoint :: "server_options \<Rightarrow> go_request \<Rightarrow> bool" where
  "isRequestForRegisteredEndpoint S req \<longleftrightarrow> list_ex (\<lambda>v. v = endpointFunc S req) (endpointsFunc S)"

definition IsAcceptableGrpcCorsRequest :: "server_options \<Rightarrow> go_request \<Rightarrow> bool" where
  "IsAcceptableGrpcCorsRequest S req \<longleftrightarrow>
     (let accessControlHeaders = ToLower (header_get (go ''Access-Control-Request-Headers'') (reqHeader req))
      in if reqMethod req = go ''OPTIONS'' \<and> Contains accessControlHeaders (go ''x-grpc-web'')
         then (if corsForRegisteredEndpointsOnly S then isRequestForRegisteredEndpoint S req else True)
         else False)"

datatype route =
    ToWebsocketHandler
  | ToForbidden \<comment> \<open>status 403 and an empty body\<close>
  | ToGrpcWebHandler \<comment> \<open>through the CORS wrapper\<close>
  | ToHandler

definition ServeHTTP :: "server_options \<Rightarrow> go_request \<Rightarrow> route" where
  "ServeHTTP S req =
     (if enableWebsockets S \<and> IsGrpcWebSocketRequest req
      then (if websocketOriginFunc S req \<and>
               (\<not> corsForRegisteredEndpointsOnly S \<or> isRequestForRegisteredEndpoint S req)
            then ToWebsocketHandler else ToForbidden)
      else if IsAcceptableGrpcCorsRequest S req \<or> IsGrpcWebRequest req then ToGrpcWebHandler
      else ToHandler)"

section \<open>The request for the handler\<close>

text \<open>With the flag that says the body is in the text format and has to be decoded.\<close>

definition hackIntoNormalGrpcRequest :: "go_request \<Rightarrow> go_request \<times> bool" where
  "hackIntoNormalGrpcRequest req =
     (let contentType = header_get (go ''content-type'') (reqHeader req);
          isTextFormat = prefix grpcWebTextContentType contentType;
          incomingContentType = (if isTextFormat then grpcWebTextContentType else grpcWebContentType);
          h = header_set (go ''content-type'') (Replace1 contentType incomingContentType grpcContentType)
                (reqHeader req);
          h = header_del (go ''content-length'') h
      in (req\<lparr>reqProto := (2, 0), reqHeader := h\<rparr>, isTextFormat))"

definition HandleGrpcWebRequest :: "server_options \<Rightarrow> go_request \<Rightarrow> go_request \<times> bool" where
  "HandleGrpcWebRequest S req =
     (case hackIntoNormalGrpcRequest req of
        (intReq, isTextFormat) \<Rightarrow> (intReq\<lparr>reqPath := endpointFunc S intReq\<rparr>, isTextFormat))"

definition parseHeaders :: "go_string \<Rightarrow> go_error + go_header" where
  "parseHeaders headerString = ReadMIMEHeader (headerString @ [13, 10])"

definition allowed_request_headers :: "server_options \<Rightarrow> go_request \<Rightarrow> go_header" where
  "allowed_request_headers S req =
     fold (\<lambda>name headers.
       (case map_of (reqHeader req) name of None \<Rightarrow> headers | Some values \<Rightarrow> AList.update name values headers))
       (allowedHeaders S) []"

text \<open>
  The handshake has given a connection, or failed.  Then the connection is \<open>Awaited\<close> for its
  first message; or an error was logged and nothing is served.
\<close>

datatype ws_handling = Awaited | NotServed | Served go_request bool ws_endpoint

definition HandleGrpcWebsocketRequest ::
  "server_options \<Rightarrow> go_request \<Rightarrow> ws_endpoint option \<Rightarrow> ws_handling"
where
  "HandleGrpcWebsocketRequest S req accepted =
     (case accepted of
        None \<Rightarrow> NotServed
      | Some w \<Rightarrow>
          let w = (if websocketReadLimit S > 0 then SetReadLimit (websocketReadLimit S) w else w);
              headers = allowed_request_headers S req in
          (case conn_Read w of
             None \<Rightarrow> Awaited
           | Some ((messageType, readBytes, err), w) \<Rightarrow>
               if err \<noteq> None then NotServed
               else if messageType \<noteq> MessageBinary then NotServed
               else
                 (case parseHeaders readBytes of
                    Inl e \<Rightarrow> NotServed
                  | Inr wsHeaders \<Rightarrow>
                      let headers = fold (\<lambda>(name, values). AList.update name values) wsHeaders headers;
                          req = req\<lparr>reqMethod := go ''POST'', reqHeader := headers\<rparr>;
                          req = req\<lparr>reqPath := endpointFunc S req\<rparr>;
                          (interceptedRequest, isTextFormat) = hackIntoNormalGrpcRequest req
                      in Served interceptedRequest isTextFormat w)))"

end
