(* ===== verification/GoServer_Requests.thy ===== *)
theory GoServer_Requests
  imports GoRequests Websocket
begin

text \<open>
  The metadata of a client as the server's handler sees it: the header block that the WebSocket
  transport sends is read back by the server's \<^verbatim>\<open>parseHeaders\<close>.
\<close>

section \<open>Lines\<close>

lemma trim_bytes_id:
  "s = [] \<or> hd s \<notin> cs \<and> last s \<notin> cs \<Longrightarrow> trim_bytes cs s = s"
proof (cases "s = []")
  case False
  assume "s = [] \<or> hd s \<notin> cs \<and> last s \<notin> cs"
  with False have h: "hd s \<notin> cs" "hd (rev s) \<notin> cs" by (simp_all add: hd_rev)
  have d: "dropWhile (\<lambda>b. b \<in> cs) xs = xs" if "xs \<noteq> []" "hd xs \<notin> cs" for xs
    using that by (cases xs) simp_all
  show ?thesis using d [OF False h(1)] d [of "rev s"] h(2) False by (simp add: trim_bytes_def)
qed (simp add: trim_bytes_def)

lemma text_lines_line:
  "10 \<notin> set l \<Longrightarrow> text_lines acc (l @ 10 # r) = strip_cr (acc @ l) # text_lines [] r"
  by (induction l arbitrary: acc) auto

lemma strip_cr_line [simp]: "strip_cr (l @ [13]) = l"
  by (simp add: strip_cr_def)

text \<open>A field that a header block can carry.\<close>

definition wire_field :: "go_string \<times> go_string \<Rightarrow> bool" where
  "wire_field kv \<longleftrightarrow>
     fst kv \<noteq> [] \<and> list_all token_byte (fst kv) \<and> 10 \<notin> set (snd kv) \<and> 13 \<notin> set (snd kv) \<and>
     (snd kv = [] \<or> \<not> is_space (hd (snd kv)) \<and> \<not> is_space (last (snd kv)))"

definition field_line :: "go_string \<times> go_string \<Rightarrow> go_string" where
  "field_line kv = fst kv @ [58, 32] @ snd kv"

lemma token_not:
  "token_byte b \<Longrightarrow> b \<noteq> 10 \<and> b \<noteq> 58 \<and> \<not> is_space b"
  by (auto simp: token_byte_def is_space_def)

lemma tokens_not:
  "list_all token_byte k \<Longrightarrow> 10 \<notin> set k \<and> 58 \<notin> set k \<and> (\<forall>b \<in> set k. \<not> is_space b)"
  by (auto simp: list_all_iff dest: token_not)

lemma block_lines:
  "list_all wire_field kvs \<Longrightarrow>
     text_lines [] (concat (map (\<lambda>kv. field_line kv @ [13, 10]) kvs) @ [13, 10]) =
       map field_line kvs @ [[]]"
proof (induction kvs)
  case Nil
  show ?case using text_lines_line [of "[13]" "[]" "[]"] by (simp add: strip_cr_def)
next
  case (Cons kv kvs)
  have "10 \<notin> set (field_line kv @ [13])"
    using Cons.prems tokens_not [of "fst kv"] by (simp add: wire_field_def field_line_def)
  from text_lines_line [OF this, of "[]"] Cons show ?case by simp
qed

lemma continuation_field:
  "ls = [] \<or> ls \<noteq> [] \<and> \<not> starts_with_space (hd ls) \<Longrightarrow> continuation ls = ([], ls)"
  by (cases ls) simp_all

lemma field_line_start: "wire_field kv \<Longrightarrow> field_line kv \<noteq> [] \<and> \<not> starts_with_space (field_line kv)"
  using tokens_not [of "fst kv"]
  by (cases "fst kv") (auto simp: wire_field_def field_line_def starts_with_space_def)

lemma until_byte:
  "x \<notin> set k \<Longrightarrow>
     takeWhile (\<lambda>b. b \<noteq> x) (k @ x # r) = k \<and> dropWhile (\<lambda>b. b \<noteq> x) (k @ x # r) = x # r"
  by (induction k) auto

lemma field_line_read:
  assumes "wire_field kv"
  shows "takeWhile (\<lambda>b. b \<noteq> 58) (trim_bytes {32, 9} (field_line kv)) = fst kv"
    and "dropWhile is_space (drop 1 (dropWhile (\<lambda>b. b \<noteq> 58) (trim_bytes {32, 9} (field_line kv)))) = snd kv"
proof -
  obtain k v where kv: "kv = (k, v)" by fastforce
  from assms have k: "k \<noteq> []" "list_all token_byte k"
    and v: "v = [] \<or> \<not> is_space (hd v) \<and> \<not> is_space (last v)"
    by (auto simp: wire_field_def kv)
  from tokens_not [OF k(2)] have t: "58 \<notin> set k" "hd k \<notin> {32, 9}"
    using k(1) by (auto simp: is_space_def)
  have drop: "dropWhile is_space v = v" if "v \<noteq> []"
    using v that by (cases v) simp_all
  have key: "takeWhile (\<lambda>b. b \<noteq> 58) (k @ 58 # r) = k" "dropWhile (\<lambda>b. b \<noteq> 58) (k @ 58 # r) = 58 # r" for r
    using until_byte [OF t(1)] by simp_all
  have line: "trim_bytes {32, 9} (field_line kv) = k @ 58 # (if v = [] then [] else 32 # v)"
  proof (cases "v = []")
    case True
    have "trim_bytes {32, 9} (k @ [58, 32]) = k @ [58]"
      using k(1) t(2) by (cases k) (auto simp: trim_bytes_def dropWhile_append)
    with True show ?thesis by (simp add: field_line_def kv)
  next
    case False
    with v k(1) t(2) show ?thesis
      by (subst trim_bytes_id) (auto simp: field_line_def kv is_space_def)
  qed
  show "takeWhile (\<lambda>b. b \<noteq> 58) (trim_bytes {32, 9} (field_line kv)) = fst kv"
    by (simp only: line key) (simp add: kv)
  show "dropWhile is_space (drop 1 (dropWhile (\<lambda>b. b \<noteq> 58) (trim_bytes {32, 9} (field_line kv)))) = snd kv"
    unfolding line key using drop by (simp add: kv is_space_def)
qed

section \<open>The block is read back\<close>

lemma canonical_nonempty: "CanonicalHeaderKey k = [] \<longleftrightarrow> k = []"
  by (cases k) (simp_all add: CanonicalHeaderKey_def)

lemma mime_lines_fields:
  assumes "list_all wire_field kvs" "distinct (map fst m @ map (CanonicalHeaderKey \<circ> fst) kvs)"
  shows "mime_lines m (map field_line kvs @ [[]]) =
    Inr (m @ map (\<lambda>(k, v). (CanonicalHeaderKey k, [v])) kvs)"
  using assms
proof (induction kvs arbitrary: m)
  case (Cons kv kvs)
  obtain k v where kv: "kv = (k, v)" by fastforce
  let ?k = "CanonicalHeaderKey k" and ?rest = "map field_line kvs @ [[]]"
  have f: "wire_field kv" using Cons.prems by simp
  have rest: "continuation ?rest = ([], ?rest)"
    using Cons.prems(1) field_line_start
    by (intro continuation_field) (cases kvs, auto simp: starts_with_space_def)
  have colon: "58 \<in> set (field_line kv)" by (simp add: field_line_def)
  have new: "?k \<notin> fst ` set m" using Cons.prems(2) by (simp add: kv)
  then have "map_of m ?k = None" by (simp add: map_of_eq_None_iff)
  moreover have "?k \<noteq> []" using f by (simp add: canonical_nonempty wire_field_def kv)
  ultimately have "mime_lines m (map field_line (kv # kvs) @ [[]]) = mime_lines (m @ [(?k, [v])]) ?rest"
    using field_line_start [OF f] colon field_line_read [OF f] rest new
    by (simp add: update_absent kv Let_def)
  also have "\<dots> = Inr ((m @ [(?k, [v])]) @ map (\<lambda>(k, v). (CanonicalHeaderKey k, [v])) kvs)"
    using Cons.prems by (intro Cons.IH) (auto simp: kv)
  finally show ?case by (simp add: kv)
qed simp

lemma parseHeaders_block:
  assumes "list_all wire_field kvs" "distinct (map (CanonicalHeaderKey \<circ> fst) kvs)"
  shows "parseHeaders (concat (map (\<lambda>kv. field_line kv @ [13, 10]) kvs)) =
    Inr (map (\<lambda>(k, v). (CanonicalHeaderKey k, [v])) kvs)"
proof -
  have "\<not> starts_with_space (concat (map (\<lambda>kv. field_line kv @ [13, 10]) kvs) @ [13, 10])"
    using assms(1) field_line_start
    by (cases kvs) (auto simp: starts_with_space_def is_space_def)
  with block_lines [OF assms(1)] mime_lines_fields [OF assms(1), of "[]"] assms(2)
  show ?thesis by (simp add: parseHeaders_def ReadMIMEHeader_def)
qed

section \<open>The header block of the client\<close>

definition ascii :: "js_string \<Rightarrow> go_string" where
  "ascii s = map ucast s"

definition header_fields :: "('m, 'a) metadata_ops \<Rightarrow> 'm \<Rightarrow> (go_string \<times> go_string) list" where
  "header_fields M h = map (\<lambda>(k, vs). (ascii k, ascii (js_join (js '', '') vs))) (md_entries M h)"

lemma header_block_fold:
  "foldl (\<lambda>asString (key, values). asString @ key @ js '': '' @ js_join (js '', '') values @ [13, 10]) s kvs =
     s @ concat (map (\<lambda>(k, vs). k @ js '': '' @ js_join (js '', '') vs @ [13, 10]) kvs)"
  by (induction kvs arbitrary: s) auto

lemma headersToBytes_fields:
  assumes "headersToBytes M h = Inr hb"
  shows "hb = concat (map (\<lambda>kv. field_line kv @ [13, 10]) (header_fields M h))"
proof -
  have "hb = map ucast (header_block M h)"
    using assms by (auto simp: headersToBytes_def encodeASCII_def encodeASCII_from_eq split: if_splits)
  then show ?thesis
    unfolding header_block_def header_block_fold
    by (simp add: header_fields_def field_line_def ascii_def
        map_concat comp_def case_prod_beta)
qed

text \<open>
  The ASCII test of the client lets line breaks pass, which are part of a header block: a value
  with a line break in it arrives as a further header.
\<close>

lemma line_break_injects:
  assumes "wire_field (ascii k, ascii v)" "wire_field (ascii k', ascii v')"
    and "CanonicalHeaderKey (ascii k) \<noteq> CanonicalHeaderKey (ascii k')"
    and "md_entries M h = [(k, [v @ [13, 10] @ k' @ js '': '' @ v'])]" "headersToBytes M h = Inr hb"
  shows "parseHeaders hb =
    Inr [(CanonicalHeaderKey (ascii k), [ascii v]), (CanonicalHeaderKey (ascii k'), [ascii v'])]"
  using headersToBytes_fields [OF assms(5)] assms(1-4)
    parseHeaders_block [of "[(ascii k, ascii v), (ascii k', ascii v')]"]
  by (simp add: header_fields_def field_line_def ascii_def)

section \<open>The request the handler is given\<close>

lemma updates_map_of:
  "distinct (map fst kvs) \<Longrightarrow> (k, v) \<in> set kvs \<Longrightarrow>
     map_of (fold (\<lambda>(name, values). AList.update name values) kvs h) k = Some v"
proof (induction kvs arbitrary: h)
  case (Cons kv kvs)
  have absent: "map_of (fold (\<lambda>(name, values). AList.update name values) xs h) k = map_of h k"
    if "k \<notin> fst ` set xs" for xs :: "('a \<times> 'b) list" and h
    using that by (induction xs arbitrary: h) (auto simp: AList.update_conv')
  show ?case
  proof (cases "(k, v) \<in> set kvs")
    case True
    with Cons show ?thesis by simp
  next
    case False
    with Cons.prems have "kv = (k, v)" "k \<notin> fst ` set kvs" by force+
    with absent [OF this(2)] show ?thesis by (simp add: AList.update_conv')
  qed
qed simp

abbreviation content_type_key :: go_string where
  "content_type_key \<equiv> CanonicalHeaderKey (go ''content-type'')"

abbreviation content_length_key :: go_string where
  "content_length_key \<equiv> CanonicalHeaderKey (go ''content-length'')"

lemma content_keys: "content_type_key \<noteq> content_length_key"
  by code_simp

lemma hack_header:
  assumes "hackIntoNormalGrpcRequest req = (r, isText)"
  shows "map_of (reqHeader r) content_type_key =
      Some [Replace1 (header_get (go ''content-type'') (reqHeader req))
        (if isText then grpcWebTextContentType else grpcWebContentType) grpcContentType]"
    and "map_of (reqHeader r) content_length_key = None"
    and "k \<noteq> content_type_key \<Longrightarrow> k \<noteq> content_length_key \<Longrightarrow>
      map_of (reqHeader r) k = map_of (reqHeader req) k"
    and "isText = prefix grpcWebTextContentType (header_get (go ''content-type'') (reqHeader req))"
    and "reqMethod r = reqMethod req" "reqPath r = reqPath req" "reqProto r = (2, 0)"
  using assms content_keys
  by (auto simp: hackIntoNormalGrpcRequest_def Let_def header_set_def header_del_def AList.delete_conv'
      AList.update_conv' simp del: go_Cons)

text \<open>The connection that reads with the limit of the options, if they have one.\<close>

definition limited :: "server_options \<Rightarrow> int \<Rightarrow> int" where
  "limited S limit = (if websocketReadLimit S > 0 then websocketReadLimit S else limit)"

lemma limited_endpoint:
  "(if websocketReadLimit S > 0 then SetReadLimit (websocketReadLimit S) w else w) =
     w\<lparr>readLimit := limited S (readLimit w)\<rparr>"
  by (simp add: SetReadLimit_def limited_def)

lemma conn_Read_within:
  "incoming w = (t, p, e) # ms \<Longrightarrow> \<not> connClosed w \<Longrightarrow> \<not> contextCancelled w \<Longrightarrow>
     int (length p) \<le> readLimit w \<Longrightarrow> conn_Read w = Some ((t, p, e), w\<lparr>incoming := ms\<rparr>)"
  by (simp add: conn_Read_def)

lemma websocket_headers_too_long:
  assumes "incoming w = (MessageBinary, p, None) # ms" "\<not> connClosed w" "\<not> contextCancelled w"
    and "limited S (readLimit w) < int (length p)"
  shows "HandleGrpcWebsocketRequest S req (Some w) = NotServed"
  using assms
  by (simp add: HandleGrpcWebsocketRequest_def conn_Read_def limited_endpoint Let_def split: prod.split)

lemma websocket_request_served:
  assumes kvs: "list_all wire_field kvs" "distinct (map (CanonicalHeaderKey \<circ> fst) kvs)"
    and w: "incoming w = (MessageBinary, concat (map (\<lambda>kv. field_line kv @ [13, 10]) kvs), None) # ms"
    and live: "\<not> connClosed w" "\<not> contextCancelled w"
    and short: "int (length (concat (map (\<lambda>kv. field_line kv @ [13, 10]) kvs))) \<le> limited S (readLimit w)"
    and ct: "(go ''content-type'', ct) \<in> set kvs"
  shows "\<exists>r isText. HandleGrpcWebsocketRequest S req (Some w) =
      Served r isText (w\<lparr>incoming := ms, readLimit := limited S (readLimit w)\<rparr>) \<and>
    isText = prefix grpcWebTextContentType ct \<and>
    reqMethod r = go ''POST'' \<and> reqPath r = endpointFunc S req \<and>
    map_of (reqHeader r) content_type_key =
      Some [Replace1 ct (if isText then grpcWebTextContentType else grpcWebContentType) grpcContentType] \<and>
    (\<forall>(k, v) \<in> set kvs. CanonicalHeaderKey k \<notin> {content_type_key, content_length_key} \<longrightarrow>
      map_of (reqHeader r) (CanonicalHeaderKey k) = Some [v])"
proof -
  let ?ws = "map (\<lambda>(k, v). (CanonicalHeaderKey k, [v])) kvs"
  let ?h = "fold (\<lambda>(name, values). AList.update name values) ?ws (allowed_request_headers S req)"
  let ?req = "req\<lparr>reqMethod := go ''POST'', reqHeader := ?h, reqPath := endpointFunc S req\<rparr>"
  have h: "map_of ?h (CanonicalHeaderKey k) = Some [v]" if "(k, v) \<in> set kvs" for k v
    using that kvs(2) by (intro updates_map_of) (force simp: comp_def case_prod_beta)+
  obtain r isText where r: "hackIntoNormalGrpcRequest ?req = (r, isText)" by fastforce
  have "header_get (go ''content-type'') ?h = ct"
    using h [OF ct] by (simp add: header_get_def del: go_Cons)
  moreover have "endpointFunc S (req\<lparr>reqMethod := m, reqHeader := x\<rparr>) = endpointFunc S req" for m x
    by (simp add: endpointFunc_def)
  moreover let ?w = "w\<lparr>readLimit := limited S (readLimit w)\<rparr>"
  have "conn_Read ?w =
      Some ((MessageBinary, concat (map (\<lambda>kv. field_line kv @ [13, 10]) kvs), None), ?w\<lparr>incoming := ms\<rparr>)"
    by (rule conn_Read_within) (use w live short in simp_all)
  moreover have "?w\<lparr>incoming := ms\<rparr> = w\<lparr>incoming := ms, readLimit := limited S (readLimit w)\<rparr>" by simp
  ultimately show ?thesis
    using parseHeaders_block [OF kvs] hack_header [OF r] h r
    by (auto simp: HandleGrpcWebsocketRequest_def limited_endpoint Let_def simp del: go_Cons)
qed

end
