(* ===== verification/GoServer_Streams.thy ===== *)
theory GoServer_Streams
  imports GoServer Frames
begin

text \<open>
  What the server's two streams are: the body that the reader hands to the handler, whatever
  sizes it is read in, within the read limit of the connection and beyond it; and the messages that a response writer emits, over the interface
  \<open>response_writer\<close> that both writers implement.
\<close>

section \<open>The body of a request\<close>

text \<open>
  The body in a sequence of WebSocket messages: without the control byte of each message, up
  to the message that marks the end.
\<close>

fun request_body :: "bytes list \<Rightarrow> bytes" where
  "request_body [] = []"
| "request_body (p # ps) = (if p = [1] then [] else drop 1 p @ request_body ps)"

definition binary_messages :: "bytes list \<Rightarrow> (message_type \<times> bytes \<times> go_error option) list" where
  "binary_messages ps = map (\<lambda>p. (MessageBinary, p, None)) ps"

text \<open>
  What the package is documented to return for a message beyond the limit: bytes of that message.
  The messages of this client start with the control byte 0, but the one that marks the end.
\<close>

definition over_limit_law :: "over_limit \<Rightarrow> bool" where
  "over_limit_law over \<longleftrightarrow> (\<forall>limit t b. prefix (fst (snd (over limit (t, b)))) b)"

definition control_payload :: "bytes \<Rightarrow> bool" where
  "control_payload p \<longleftrightarrow> p = [1] \<or> (\<exists>d. p = 0 # d)"

text \<open>Every message, up to the one that marks the end, is within the limit.\<close>

fun fits :: "int \<Rightarrow> bytes list \<Rightarrow> bool" where
  "fits limit [] \<longleftrightarrow> True"
| "fits limit (p # ps) \<longleftrightarrow> int (length p) \<le> limit \<and> (p = [1] \<or> fits limit ps)"

definition reader_at :: "ws_endpoint \<Rightarrow> bytes list \<Rightarrow> bool" where
  "reader_at w ps \<longleftrightarrow>
     incoming w = binary_messages ps \<and> remainingError w = None \<and> remainingBuffer w \<noteq> Some [] \<and>
     \<not> connClosed w \<and> \<not> contextCancelled w \<and> 0 < readLimit w \<and> over_limit_law (overLimit w) \<and>
     list_all control_payload ps"

definition unread :: "ws_endpoint \<Rightarrow> bytes list \<Rightarrow> bytes" where
  "unread w ps = (case remainingBuffer w of None \<Rightarrow> [] | Some r \<Rightarrow> r) @ request_body ps"

lemma connection_open [simp]: "\<not> connection_gone MessageBinary None"
  by (simp add: connection_gone_def)

text \<open>A reader after a message beyond the limit, of which it still holds \<open>r\<close>, and the error \<open>e\<close>.\<close>

definition cut_off :: "ws_endpoint \<Rightarrow> bytes \<Rightarrow> go_error \<Rightarrow> bool" where
  "cut_off w r e \<longleftrightarrow> remainingBuffer w = Some r \<and> remainingError w = Some e \<and> e \<noteq> EOF \<and> r \<noteq> []"

text \<open>A body has ended properly when \<^verbatim>\<open>EOF\<close> is not the loss of the connection.\<close>

definition proper_end :: "read_outcome \<Rightarrow> ws_endpoint \<Rightarrow> bool" where
  "proper_end out w \<longleftrightarrow> out = Ended EOF \<and> \<not> contextCancelled w"

text \<open>
  One \<^verbatim>\<open>Read\<close> delivers the next bytes of the body; or, at its end, \<^verbatim>\<open>EOF\<close>; or it waits; or it
  meets a message beyond the limit.
\<close>

definition read_progress :: "nat \<Rightarrow> ws_endpoint \<Rightarrow> bytes list \<Rightarrow> bytes \<Rightarrow> ws_endpoint \<Rightarrow> bool" where
  "read_progress n w ps b w' \<longleftrightarrow>
     (\<exists>ps'. reader_at w' ps' \<and> unread w ps = b @ unread w' ps' \<and> peerGone w' = peerGone w \<and>
        fits (readLimit w') ps' = fits (readLimit w) ps \<and> ([1] \<in> set ps' \<longleftrightarrow> [1] \<in> set ps) \<and>
        (0 < n \<longrightarrow> length (unread w' ps') + length ps' < length (unread w ps) + length ps))"

definition read_end :: "ws_endpoint \<Rightarrow> bytes list \<Rightarrow> ws_endpoint \<Rightarrow> bool" where
  "read_end w ps w' \<longleftrightarrow>
     unread w ps = [] \<and> fits (readLimit w) ps \<and> contextCancelled w' = ([1] \<notin> set ps) \<and>
     ([1] \<in> set ps \<or> peerGone w)"

definition read_waits :: "ws_endpoint \<Rightarrow> bytes list \<Rightarrow> bool" where
  "read_waits w ps \<longleftrightarrow>
     unread w ps = [] \<and> fits (readLimit w) ps \<and> [1] \<notin> set ps \<and> \<not> peerGone w"

definition read_cut :: "nat \<Rightarrow> ws_endpoint \<Rightarrow> bytes list \<Rightarrow> bytes \<Rightarrow> go_error option \<Rightarrow> ws_endpoint \<Rightarrow> bool" where
  "read_cut n w ps b e w' \<longleftrightarrow>
     \<not> fits (readLimit w) ps \<and>
     (case e of
        Some e \<Rightarrow> prefix b (unread w ps) \<and> \<not> proper_end (Ended e) w'
      | None \<Rightarrow> \<exists>r e. cut_off w' r e \<and> prefix (b @ r) (unread w ps) \<and> length b = n)"

lemma read_buffered:
  assumes "reader_at w ps" "remainingBuffer w = Some r"
  shows "\<exists>b w'. wrapped_Read n w = Some (b, None, w') \<and> read_progress n w ps b w'"
  using assms unfolding read_progress_def
  by (fastforce simp: wrapped_Read_def reader_at_def unread_def intro!: exI [of _ ps])

lemma conn_Read_message:
  assumes "reader_at w (p # ps)"
  shows "conn_Read w =
    Some (if int (length p) \<le> readLimit w
          then ((MessageBinary, p, None), w\<lparr>incoming := binary_messages ps\<rparr>)
          else case overLimit w (readLimit w) (MessageBinary, p) of
            (t, part, e) \<Rightarrow> ((t, part, Some e), w\<lparr>incoming := binary_messages ps, connClosed := True\<rparr>))"
  using assms by (auto simp: conn_Read_def reader_at_def binary_messages_def Let_def split: prod.split)

lemma read_whole:
  assumes "reader_at w (p # ps)" "remainingBuffer w = None" "int (length p) \<le> readLimit w" "p \<noteq> [1]"
  shows "\<exists>b w'. wrapped_Read n w = Some (b, None, w') \<and> read_progress n w (p # ps) b w'"
proof -
  from assms obtain d where p: "p = 0 # d" by (auto simp: reader_at_def control_payload_def)
  let ?w = "w\<lparr>incoming := binary_messages ps\<rparr>"
  have "conn_Read w = Some ((MessageBinary, p, None), ?w)"
    using conn_Read_message [OF assms(1)] assms(3) by simp
  then have r: "wrapped_Read n w = Some (if length d \<le> n then (d, None, ?w)
      else (take n d, None, ?w\<lparr>remainingBuffer := Some (drop n d), remainingError := None\<rparr>))"
    using assms(2) by (simp add: wrapped_Read_def p Let_def)
  show ?thesis
  proof (cases "length d \<le> n")
    case True
    with r assms show ?thesis
      unfolding read_progress_def
      by (intro exI conjI [OF _ exI [of _ ps]]) (auto simp: reader_at_def unread_def p)
  next
    case False
    with r assms show ?thesis
      unfolding read_progress_def
      by (intro exI conjI [OF _ exI [of _ ps]]) (auto simp: reader_at_def unread_def p)
  qed
qed

lemma read_end_of_body:
  assumes "reader_at w ([1] # ps)" "remainingBuffer w = None"
  shows "\<exists>w'. wrapped_Read n w = Some ([], Some EOF, w') \<and> read_end w ([1] # ps) w'"
  using assms conn_Read_message [OF assms(1)]
  by (auto simp: wrapped_Read_def read_end_def unread_def reader_at_def)

lemma read_nothing:
  assumes "reader_at w []" "remainingBuffer w = None"
  shows "wrapped_Read n w = None \<and> read_waits w [] \<or>
    (\<exists>w'. wrapped_Read n w = Some ([], Some EOF, w') \<and> read_end w [] w')"
  using assms
  by (auto simp: wrapped_Read_def conn_Read_def Let_def read_waits_def read_end_def unread_def reader_at_def
      binary_messages_def connection_gone_def)

lemma read_too_long:
  assumes "reader_at w (p # ps)" "remainingBuffer w = None" "readLimit w < int (length p)"
  shows "\<exists>b e w'. wrapped_Read n w = Some (b, e, w') \<and> read_cut n w (p # ps) b e w'"
proof -
  let ?w = "w\<lparr>incoming := binary_messages ps, connClosed := True\<rparr>"
  obtain t part e where o: "overLimit w (readLimit w) (MessageBinary, p) = (t, part, e)"
    by (rule prod_cases3)
  from assms(1,3) obtain d where p: "p = 0 # d" by (auto simp: reader_at_def control_payload_def)
  have "prefix part p"
    using assms(1) o unfolding reader_at_def over_limit_law_def by (metis fst_conv snd_conv)
  then have part: "part = [] \<or> (\<exists>b. part = 0 # b \<and> prefix b d)" by (auto simp: p prefix_Cons)
  have q: "\<not> (length part = 1 \<and> part ! 0 = 1)" "drop 1 part = tl part"
    using part by (auto simp: drop_Suc)
  have "conn_Read w = Some ((t, part, Some e), ?w)"
    using conn_Read_message [OF assms(1)] assms(3) o by simp
  then have r: "wrapped_Read n w = Some
      (if connection_gone t (Some e) then ([], Some EOF, ?w\<lparr>contextCancelled := True\<rparr>)
       else if t \<noteq> MessageBinary then ([], Some (GoError (go ''websocket frame was not a binary frame'')), ?w)
       else if part = [] then ([], Some e, ?w)
       else if length (tl part) \<le> n then (tl part, Some e, ?w)
       else (take n (tl part), None, ?w\<lparr>remainingBuffer := Some (drop n (tl part)), remainingError := Some e\<rparr>))"
    by (simp only: wrapped_Read_def assms(2) q Let_def option.case prod.case length_0_conv if_False)
  have u: "unread w (p # ps) = d @ request_body ps" "\<not> fits (readLimit w) (p # ps)"
    using assms(2,3) by (simp_all add: unread_def p)
  then have c: "read_cut n w (p # ps) b (Some e') w'" if "prefix b d" "\<not> proper_end (Ended e') w'" for b e' w'
    using that by (simp add: read_cut_def prefix_order.trans [of b d])
  from part have d: "prefix (tl part) d" by auto
  consider "connection_gone t (Some e)" | "\<not> connection_gone t (Some e)" "t \<noteq> MessageBinary"
    | "\<not> connection_gone t (Some e)" "t = MessageBinary" "part = []"
    | "\<not> connection_gone t (Some e)" "t = MessageBinary" "part \<noteq> []" by blast
  then show ?thesis
  proof cases
    case 1
    then show ?thesis using r c [of "[]" EOF] by (fastforce simp: proper_end_def)
  next
    case 2
    then show ?thesis using r c [of "[]" "GoError x" for x] by (fastforce simp: proper_end_def)
  next
    case 3
    then have "e \<noteq> EOF" by (simp add: connection_gone_def)
    with 3 show ?thesis using r c [of "[]" e] by (fastforce simp: proper_end_def)
  next
    case 4
    then have e: "e \<noteq> EOF" by (simp add: connection_gone_def)
    show ?thesis
    proof (cases "length (tl part) \<le> n")
      case True
      with 4 e show ?thesis using r c [OF d, of e] by (fastforce simp: proper_end_def)
    next
      case False
      let ?w' = "?w\<lparr>remainingBuffer := Some (drop n (tl part)), remainingError := Some e\<rparr>"
      have "read_cut n w (p # ps) (take n (tl part)) None ?w'"
        using False e d u by (auto simp: read_cut_def cut_off_def)
      with 4 False show ?thesis using r by auto
    qed
  qed
qed

lemma wrapped_Read_step:
  assumes "reader_at w ps"
  obtains (progress) b w' where "wrapped_Read n w = Some (b, None, w')" "read_progress n w ps b w'"
  | (ended) w' where "wrapped_Read n w = Some ([], Some EOF, w')" "read_end w ps w'"
  | (waits) "wrapped_Read n w = None" "read_waits w ps"
  | (cut) b e w' where "wrapped_Read n w = Some (b, e, w')" "read_cut n w ps b e w'"
proof (cases "remainingBuffer w")
  case (Some r)
  with read_buffered [OF assms Some] progress show ?thesis by blast
next
  case None
  show ?thesis
  proof (cases ps)
    case Nil
    with read_nothing [of w n] assms None ended waits show ?thesis by blast
  next
    case (Cons p ps')
    consider "p = [1]" | "p \<noteq> [1]" "int (length p) \<le> readLimit w" | "readLimit w < int (length p)"
      by linarith
    then show ?thesis
    proof cases
      case 1
      with read_end_of_body [of w ps' n] assms None Cons ended show ?thesis by blast
    next
      case 2
      with read_whole [of w p ps' n] assms None Cons progress show ?thesis by blast
    next
      case 3
      with read_too_long [of w p ps' n] assms None Cons cut show ?thesis by blast
    qed
  qed
qed

lemma read_calls_cut:
  assumes "cut_off w r e" "read_calls ns w = (bs, out, w')"
  shows "prefix bs r \<and> (out = Continuing \<or> out = Ended e) \<and>
    (list_all (\<lambda>n. 0 < n) ns \<and> length r \<le> length ns \<longrightarrow> out \<noteq> Continuing)"
  using assms
proof (induction ns arbitrary: w r bs)
  case Nil
  then show ?case by (simp add: cut_off_def)
next
  case (Cons n ns)
  show ?case
  proof (cases "length r \<le> n")
    case True
    with Cons.prems show ?thesis by (auto simp: wrapped_Read_def cut_off_def)
  next
    case False
    let ?w = "w\<lparr>remainingBuffer := Some (drop n r)\<rparr>"
    from False Cons.prems obtain bs' where c: "read_calls ns ?w = (bs', out, w')" "bs = take n r @ bs'"
      by (auto simp: wrapped_Read_def cut_off_def split: prod.splits)
    have "cut_off ?w (drop n r) e" using Cons.prems(1) False by (simp add: cut_off_def)
    note d = Cons.IH [OF this c(1)]
    then have "prefix bs r" by (metis append_take_drop_id c(2) same_prefix_prefix)
    with d show ?thesis by auto
  qed
qed

text \<open>What the reads of a whole body give, in any sizes.\<close>

definition body_read :: "nat list \<Rightarrow> ws_endpoint \<Rightarrow> bytes list \<Rightarrow> bytes \<Rightarrow> read_outcome \<Rightarrow> ws_endpoint \<Rightarrow> bool" where
  "body_read ns w ps bs out w' \<longleftrightarrow>
     prefix bs (unread w ps) \<and>
     (proper_end out w' \<longrightarrow> bs = unread w ps \<and> [1] \<in> set ps \<and> fits (readLimit w) ps) \<and>
     (out = Blocked \<longrightarrow> bs = unread w ps \<and> [1] \<notin> set ps \<and> fits (readLimit w) ps \<and> \<not> peerGone w) \<and>
     (\<forall>e. out = Ended e \<and> fits (readLimit w) ps \<longrightarrow>
        e = EOF \<and> bs = unread w ps \<and> contextCancelled w' = ([1] \<notin> set ps) \<and> ([1] \<in> set ps \<or> peerGone w)) \<and>
     (list_all (\<lambda>n. 0 < n) ns \<and> length (unread w ps) + length ps < length ns \<longrightarrow> out \<noteq> Continuing)"

lemma body_read_more:
  assumes "read_progress n w ps b w1" "\<And>ps'. reader_at w1 ps' \<Longrightarrow> body_read ns w1 ps' bs out w'"
  shows "body_read (n # ns) w ps (b @ bs) out w'"
proof -
  from assms(1) obtain ps' where p: "reader_at w1 ps'" "unread w ps = b @ unread w1 ps'" "peerGone w1 = peerGone w"
    "fits (readLimit w1) ps' = fits (readLimit w) ps" "[1] \<in> set ps' \<longleftrightarrow> [1] \<in> set ps"
    "0 < n \<longrightarrow> length (unread w1 ps') + length ps' < length (unread w ps) + length ps"
    by (auto simp: read_progress_def)
  from assms(2) [OF p(1)] show ?thesis
    using p(2-6) by (auto simp: body_read_def)
qed

lemma body_read_cut:
  assumes "read_cut n w ps b None w1" "read_calls ns w1 = (bs, out, w')"
  shows "body_read (n # ns) w ps (b @ bs) out w'"
proof -
  from assms(1) obtain r e where c: "cut_off w1 r e" "prefix (b @ r) (unread w ps)" "length b = n"
    and f: "\<not> fits (readLimit w) ps"
    by (auto simp: read_cut_def)
  note d = read_calls_cut [OF c(1) assms(2)]
  have "prefix (b @ bs) (unread w ps)"
    using d c(2) by (meson prefix_order.trans same_prefix_prefix)
  moreover have "length b + length r \<le> length (unread w ps)"
    using prefix_length_le [OF c(2)] by simp
  moreover have "e \<noteq> EOF" using c(1) by (simp add: cut_off_def)
  ultimately show ?thesis
    using d f c(3) by (auto simp: body_read_def proper_end_def)
qed

lemma read_calls_body:
  assumes "reader_at w ps" "read_calls ns w = (bs, out, w')"
  shows "body_read ns w ps bs out w'"
  using assms
proof (induction ns arbitrary: w ps bs)
  case Nil
  then show ?case by (simp add: body_read_def proper_end_def)
next
  case (Cons n ns)
  show ?case
  proof (rule wrapped_Read_step [OF Cons.prems(1), of n])
    fix b w1
    assume s: "wrapped_Read n w = Some (b, None, w1)" "read_progress n w ps b w1"
    with Cons.prems(2) obtain bs' where c: "read_calls ns w1 = (bs', out, w')" "bs = b @ bs'"
      by (auto split: prod.splits)
    show ?thesis unfolding c(2) by (rule body_read_more [OF s(2) Cons.IH [OF _ c(1)]])
  next
    fix w1
    assume "wrapped_Read n w = Some ([], Some EOF, w1)" "read_end w ps w1"
    with Cons.prems(2) show ?thesis by (auto simp: body_read_def read_end_def proper_end_def)
  next
    assume "wrapped_Read n w = None" "read_waits w ps"
    with Cons.prems(2) show ?thesis by (auto simp: body_read_def read_waits_def proper_end_def)
  next
    fix b e w1
    assume s: "wrapped_Read n w = Some (b, e, w1)" "read_cut n w ps b e w1"
    show ?thesis
    proof (cases e)
      case None
      with s(1) Cons.prems(2) obtain bs' where c: "read_calls ns w1 = (bs', out, w')" "bs = b @ bs'"
        by (auto split: prod.splits)
      show ?thesis unfolding c(2) by (rule body_read_cut [OF s(2) [unfolded None] c(1)])
    next
      case (Some e)
      with s Cons.prems(2) show ?thesis by (auto simp: body_read_def read_cut_def)
    qed
  qed
qed

section \<open>The interface of a response writer\<close>

text \<open>
  A response writer keeps the handler's headers, commits them once, and emits messages: on
  committing those that carry the headers, if any, then what the handler writes, and at the
  end the trailers, which are the headers not committed.
\<close>

definition trailers_of :: "go_header \<Rightarrow> go_string list \<Rightarrow> go_header" where
  "trailers_of h ks =
     copyHeader [] h [skipKeys (go ''trailer'' # ks), replaceInKeys (go ''Trailer:'') [], keyCase ToLower]"

text \<open>
  The headers that become trailers, and their names: without the prefix, in lower case.
\<close>

definition trailer_kept :: "go_string list \<Rightarrow> go_string \<Rightarrow> bool" where
  "trailer_kept ks k \<longleftrightarrow> ToLower k \<notin> ToLower ` set (go ''trailer'' # ks)"

definition trailer_name :: "go_string \<Rightarrow> go_string" where
  "trailer_name k = ToLower (if Contains k (go ''Trailer:'') then Replace1 k (go ''Trailer:'') [] else k)"

lemma updates_append:
  "distinct (map fst d @ map (f \<circ> fst) xs) \<Longrightarrow>
     fold (\<lambda>(k, vv) dst. AList.update (f k) vv dst) xs d = d @ map (\<lambda>(k, vv). (f k, vv)) xs"
proof (induction xs arbitrary: d)
  case (Cons x xs)
  then show ?case by (cases x) (auto simp: update_absent)
qed simp

lemma trailers_of_kept:
  assumes "distinct (map (trailer_name \<circ> fst) (filter (trailer_kept ks \<circ> fst) h))"
  shows "trailers_of h ks = map (\<lambda>(k, vv). (trailer_name k, vv)) (filter (trailer_kept ks \<circ> fst) h)"
proof -
  have "trailers_of h ks =
      fold (\<lambda>(k, vv) dst. if trailer_kept ks k then AList.update (trailer_name k) vv dst else dst) h []"
    by (simp add: trailers_of_def copyHeader_def skipKeys_def replaceInKeys_def keyCase_def trailer_kept_def
        trailer_name_def apply_replacers_def Let_def case_prod_beta if_distrib cong: if_cong del: go_Cons)
      (rule arg_cong [where f = "\<lambda>F. fold F h []"], auto simp: fun_eq_iff simp del: go_Cons)
  also have "\<dots> = fold (\<lambda>(k, vv) dst. AList.update (trailer_name k) vv dst) (filter (trailer_kept ks \<circ> fst) h) d"
    if "d = []" for d
    unfolding that [symmetric] by (induction h arbitrary: d) auto
  finally show ?thesis
    using updates_append [of "[]" trailer_name "filter (trailer_kept ks \<circ> fst) h"] assms by simp
qed

definition frame_messages :: "go_header \<Rightarrow> bytes list" where
  "frame_messages h = [grpc_data_header 128 (length (header_Write h)), header_Write h]"

definition is_write_header :: "handler_op \<Rightarrow> bool" where
  "is_write_header a \<longleftrightarrow> (case a of WriteHeader _ \<Rightarrow> True | _ \<Rightarrow> False)"

fun body_of :: "handler_op \<Rightarrow> bytes list" where
  "body_of (WriteBody b) = [b]"
| "body_of _ = []"

abbreviation bodies :: "handler_op list \<Rightarrow> bytes list" where
  "bodies ops \<equiv> concat (map body_of ops)"

fun commits :: "handler_op \<Rightarrow> bool" where
  "commits (WriteHeader _) \<longleftrightarrow> True"
| "commits (WriteBody _) \<longleftrightarrow> True"
| "commits _ \<longleftrightarrow> False"

locale response_writer =
  fixes act :: "handler_op \<Rightarrow> 's \<Rightarrow> 's"
    and finish :: "'s \<Rightarrow> 's"
    and ready :: "'s \<Rightarrow> bool"
    and handler_headers :: "'s \<Rightarrow> go_header"
    and committed_keys :: "'s \<Rightarrow> go_string list option"
    and emitted :: "'s \<Rightarrow> bytes list"
    and commit_keys :: "go_header \<Rightarrow> go_string list"
    and commit_messages :: "go_header \<Rightarrow> bytes list"
  assumes ready: "ready s \<Longrightarrow> ready (act a s)"
    and headers: "ready s \<Longrightarrow> handler_headers (act a s) = header_effect a (handler_headers s)"
    and commit: "ready s \<Longrightarrow> committed_keys s = None \<Longrightarrow> commits a \<Longrightarrow>
          committed_keys (act a s) = Some (commit_keys (handler_headers s)) \<and>
          emitted (act a s) = emitted s @ commit_messages (handler_headers s) @ body_of a"
    and quiet: "ready s \<Longrightarrow> committed_keys s = None \<Longrightarrow> \<not> commits a \<Longrightarrow>
          committed_keys (act a s) = None \<and> emitted (act a s) = emitted s"
    and committed: "ready s \<Longrightarrow> committed_keys s = Some ks \<Longrightarrow> \<not> is_write_header a \<Longrightarrow>
          committed_keys (act a s) = Some ks \<and> emitted (act a s) = emitted s @ body_of a"
    and finish: "ready s \<Longrightarrow> committed_keys s = Some ks \<Longrightarrow>
          emitted (finish s) = emitted s @ frame_messages (trailers_of (handler_headers s) ks)"
begin

lemma acts_headers:
  "ready s \<Longrightarrow> ready (fold act ops s) \<and>
     handler_headers (fold act ops s) = fold header_effect ops (handler_headers s)"
  by (induction ops arbitrary: s) (simp_all add: ready headers)

lemma acts_quiet:
  "ready s \<Longrightarrow> committed_keys s = None \<Longrightarrow> list_all (\<lambda>a. \<not> commits a) ops \<Longrightarrow>
     committed_keys (fold act ops s) = None \<and> emitted (fold act ops s) = emitted s"
  by (induction ops arbitrary: s) (simp_all add: ready quiet)

lemma acts_committed:
  "ready s \<Longrightarrow> committed_keys s = Some ks \<Longrightarrow> list_all (\<lambda>a. \<not> is_write_header a) ops \<Longrightarrow>
     committed_keys (fold act ops s) = Some ks \<and> emitted (fold act ops s) = emitted s @ bodies ops"
  by (induction ops arbitrary: s) (simp_all add: ready committed)

text \<open>
  The whole response of a handler that sets headers, commits them by its first \<^verbatim>\<open>WriteHeader\<close>
  or \<^verbatim>\<open>Write\<close>, and then writes and sets what become the trailers.
\<close>

lemma response_emitted:
  assumes "ready s" "committed_keys s = None"
    and "list_all (\<lambda>a. \<not> commits a) pre" "commits a" "list_all (\<lambda>a. \<not> is_write_header a) post"
  shows "emitted (finish (fold act (pre @ a # post) s)) =
    emitted s @ commit_messages (fold header_effect pre (handler_headers s)) @ bodies (a # post) @
      frame_messages (trailers_of (fold header_effect (pre @ a # post) (handler_headers s))
        (commit_keys (fold header_effect pre (handler_headers s))))"
proof -
  let ?s = "fold act pre s" and ?h = "fold header_effect pre (handler_headers s)"
  let ?d = "fold act post (act a ?s)"
  have s: "ready ?s" "handler_headers ?s = ?h" "committed_keys ?s = None" "emitted ?s = emitted s"
    using acts_headers [OF assms(1)] acts_quiet [OF assms(1-3)] by simp_all
  have a: "ready (act a ?s)" "committed_keys (act a ?s) = Some (commit_keys ?h)"
    "emitted (act a ?s) = emitted s @ commit_messages ?h @ body_of a"
    using commit [OF s(1,3) assms(4)] s by (simp_all add: ready)
  have d: "ready ?d" "committed_keys ?d = Some (commit_keys ?h)"
    "emitted ?d = emitted s @ commit_messages ?h @ body_of a @ bodies post"
    using acts_headers [OF a(1), of post] acts_committed [OF a(1,2) assms(5)] a(3) by simp_all
  have "handler_headers ?d = fold header_effect (pre @ a # post) (handler_headers s)"
    using acts_headers [OF assms(1), of "pre @ a # post"] by simp
  with finish [OF d(1,2)] d(3) show ?thesis by simp
qed

end

section \<open>The two response writers\<close>

text \<open>Both sources extract their trailers with the same options.\<close>

lemma trailers_of_eq:
  "extractTrailerHeaders w = trailers_of (respHeaders w) (headerKeys (flushedHeaders w))"
  "extractTrailingHeaders src flushed = trailers_of src (headerKeys flushed)"
  by (simp_all add: extractTrailerHeaders_def extractTrailingHeaders_def trailers_of_def)

definition ws_commit :: "go_header \<Rightarrow> go_header" where
  "ws_commit h = copyHeader [] h [skipKeys [go ''trailer''], keyCase CanonicalHeaderKey]"

definition ws_ready :: "ws_endpoint \<Rightarrow> bool" where
  "ws_ready w \<longleftrightarrow> \<not> connClosed w \<and> (writtenHeaders w \<or> flushedHeaders w = [])"

definition ws_committed :: "ws_endpoint \<Rightarrow> go_string list option" where
  "ws_committed w = (if writtenHeaders w then Some (headerKeys (flushedHeaders w)) else None)"

lemmas ws_writer_defs =
  ws_ready_def ws_committed_def ws_commit_def ws_WriteHeader_def ws_Write_def writeHeaderFrame_def
  conn_Write_def copyFlushedHeaders_def frame_messages_def wrapped_Close_def FlushTrailers_def
  trailers_of_eq is_write_header_def

interpretation ws_writer: response_writer ws_handler_op wrapped_Close ws_ready respHeaders ws_committed
  outgoing "\<lambda>h. headerKeys (ws_commit h)" frame_messages
proof unfold_locales
  fix s a ks
  show "ws_ready s \<Longrightarrow> ws_ready (ws_handler_op a s)"
    by (cases a) (auto simp: ws_writer_defs Let_def)
  show "ws_ready s \<Longrightarrow> respHeaders (ws_handler_op a s) = header_effect a (respHeaders s)"
    by (cases a) (auto simp: ws_writer_defs Let_def)
  show "ws_ready s \<Longrightarrow> ws_committed s = None \<Longrightarrow> commits a \<Longrightarrow>
      ws_committed (ws_handler_op a s) = Some (headerKeys (ws_commit (respHeaders s))) \<and>
      outgoing (ws_handler_op a s) = outgoing s @ frame_messages (respHeaders s) @ body_of a"
    by (cases a) (auto simp: ws_writer_defs Let_def split: if_splits)
  show "ws_ready s \<Longrightarrow> ws_committed s = None \<Longrightarrow> \<not> commits a \<Longrightarrow>
      ws_committed (ws_handler_op a s) = None \<and> outgoing (ws_handler_op a s) = outgoing s"
    by (cases a) (auto simp: ws_writer_defs split: if_splits)
  show "ws_ready s \<Longrightarrow> ws_committed s = Some ks \<Longrightarrow> \<not> is_write_header a \<Longrightarrow>
      ws_committed (ws_handler_op a s) = Some ks \<and> outgoing (ws_handler_op a s) = outgoing s @ body_of a"
    by (cases a) (auto simp: ws_writer_defs split: if_splits)
  show "ws_ready s \<Longrightarrow> ws_committed s = Some ks \<Longrightarrow>
      outgoing (wrapped_Close s) = outgoing s @ frame_messages (trailers_of (respHeaders s) ks)"
    by (auto simp: ws_writer_defs Let_def split: if_splits)
qed

text \<open>The headers with which the HTTP writer answers, over those set before the handler ran.\<close>

definition answer_headers :: "go_header \<Rightarrow> go_header \<Rightarrow> go_header" where
  "answer_headers w0 h =
     (let wh = copyHeader w0 h
                 [skipKeys [go ''trailer''], replaceInKeys (go ''Trailer:'') [],
                  replaceInVals (go ''content-type'') (go ''application/grpc'') (go ''application/grpc-web''),
                  keyCase CanonicalHeaderKey]
      in header_set (CanonicalHeaderKey (go ''access-control-expose-headers''))
           (Join (headerKeys wh @ [go ''grpc-status'', go ''grpc-message'']) (go '', '')) wh)"

definition gw_ready :: "go_header \<Rightarrow> grpc_web_response \<Rightarrow> bool" where
  "gw_ready w0 w \<longleftrightarrow> encoder w = None \<and> gwContentType w = go ''application/grpc-web'' \<and>
     (if wroteHeaders w then rwCommitted (wrapped w) \<noteq> None
      else \<not> wroteBody w \<and> rwHeader (wrapped w) = w0 \<and> rwCommitted (wrapped w) = None)"

definition gw_committed :: "grpc_web_response \<Rightarrow> go_string list option" where
  "gw_committed w = (if wroteHeaders w then Some (headerKeys (rwHeader (wrapped w))) else None)"

lemma prepareHeaders_eq:
  "gwContentType w = go ''application/grpc-web'' \<Longrightarrow>
     prepareHeaders w = w\<lparr>wrapped := (wrapped w)\<lparr>rwHeader := answer_headers (rwHeader (wrapped w)) (gwHeaders w)\<rparr>\<rparr>"
  by (simp add: prepareHeaders_def answer_headers_def Let_def)

lemmas gw_writer_defs =
  gw_ready_def gw_committed_def gw_Write_def gw_WriteHeader_def gw_Flush_def rw_Write_def
  rw_WriteHeader_def rw_Flush_def finishRequest_def copyTrailersToPayload_def frame_messages_def
  trailers_of_eq is_write_header_def prepareHeaders_eq wrapped_Write_def flushWriter_def

interpretation gw_writer: response_writer gw_handler_op finishRequest "gw_ready w0" gwHeaders gw_committed
  "\<lambda>w. rwBody (wrapped w)" "\<lambda>h. headerKeys (answer_headers w0 h)" "\<lambda>_. []" for w0
proof unfold_locales
  fix s a ks
  show "gw_ready w0 s \<Longrightarrow> gw_ready w0 (gw_handler_op a s)"
    by (cases a) (auto simp: gw_writer_defs Let_def simp del: go_Cons split: if_splits)
  show "gw_ready w0 s \<Longrightarrow> gwHeaders (gw_handler_op a s) = header_effect a (gwHeaders s)"
    by (cases a) (auto simp: gw_writer_defs Let_def simp del: go_Cons split: if_splits)
  show "gw_ready w0 s \<Longrightarrow> gw_committed s = None \<Longrightarrow> commits a \<Longrightarrow>
      gw_committed (gw_handler_op a s) = Some (headerKeys (answer_headers w0 (gwHeaders s))) \<and>
      rwBody (wrapped (gw_handler_op a s)) = rwBody (wrapped s) @ [] @ body_of a"
    by (cases a) (auto simp: gw_writer_defs Let_def simp del: go_Cons split: if_splits)
  show "gw_ready w0 s \<Longrightarrow> gw_committed s = None \<Longrightarrow> \<not> commits a \<Longrightarrow>
      gw_committed (gw_handler_op a s) = None \<and> rwBody (wrapped (gw_handler_op a s)) = rwBody (wrapped s)"
    by (cases a) (auto simp: gw_writer_defs split: if_splits)
  show "gw_ready w0 s \<Longrightarrow> gw_committed s = Some ks \<Longrightarrow> \<not> is_write_header a \<Longrightarrow>
      gw_committed (gw_handler_op a s) = Some ks \<and>
      rwBody (wrapped (gw_handler_op a s)) = rwBody (wrapped s) @ body_of a"
    by (cases a) (auto simp: gw_writer_defs split: if_splits)
  show "gw_ready w0 s \<Longrightarrow> gw_committed s = Some ks \<Longrightarrow>
      rwBody (wrapped (finishRequest s)) = rwBody (wrapped s) @ frame_messages (trailers_of (gwHeaders s) ks)"
    by (auto simp: gw_writer_defs Let_def split: if_splits)
qed

lemma frame_messages_bytes: "concat (frame_messages h) = frame_bytes (0x80, header_Write h)"
  by (simp add: frame_messages_def grpc_data_header_def frame_bytes_def set_bytes_def)

end
