(* ===== verification/Server_Delivery.thy ===== *)
theory Server_Delivery
  imports Websocket
begin

text \<open>
  The answer of a server that fails before it has anything to send: over a WebSocket a single
  frame, which holds headers and status together.
\<close>

lemma headers_only_delivered:
  assumes obs: "observers E"
    and driven: "driven E (map TransportChunk hs @ [TransportEnd]) c d"
    and fresh: "\<not> completed c" "\<not> closed c" "at_frame (chunkParser c)" "responseHeaders c = None"
      "responseTrailers c = None"
    and th: "concat hs = frame_bytes (0x80, th)" "length th < 2 ^ 32" "parseTrailerData (metadata E) th = Inr mh"
    and stat: "status_of (metadata E) (md_copy (metadata E) mh) = Some (s, msg)"
  shows "notified (trace d) =
      notified (trace c) @ to_all (HeadersEv (md_copy (metadata E) mh)) (onHeadersCallbacks c) @
      to_all (EndEv s msg (md_copy (metadata E) mh)) (onEndCallbacks c)"
proof -
  let ?h = "md_copy (metadata E) mh"
  from framed_headers_delivered [OF obs driven _ _ _ _ _ _ th(2,3)] fresh th(1) obtain es p c1 where
    c1: "concat es = []" "driven E (map TransportChunk es @ [TransportEnd]) c1 d" "at_frame p"
      "face c1 = face (c\<lparr>chunkParser := p, responseHeaders := Some ?h\<rparr>)"
      "notified (trace c1) = notified (trace c) @ to_all (HeadersEv ?h) (onHeadersCallbacks c)"
    by (auto simp: at_frame_def next_frame_def)
  then have f1: "completed c1 = completed c" "closed c1 = closed c" "responseHeaders c1 = Some ?h"
      "responseTrailers c1 = responseTrailers c" "chunkParser c1 = p" "onEndCallbacks c1 = onEndCallbacks c"
    by (simp_all add: face_def)
  have "\<exists>q. feed (metadata E) (hasSlice E) es p = (Inr [], q)"
    using feed_scan [of p es "metadata E" "hasSlice E"] c1(1,3)
    by (auto simp: next_frame_def at_frame_def)
  then obtain q where feed: "feed (metadata E) (hasSlice E) es (chunkParser c1) = (Inr [], q)"
    by (auto simp: f1)
  have none: "deserialized E (payloads []) []" by (simp add: deserialized_def)
  have live: "\<not> completed c1" "\<not> closed c1" "responseHeaders c1 \<noteq> None" using fresh f1 by simp_all
  from chunks_deliver [OF obs c1(2) live feed none] obtain c2 where
    c2: "driven E [TransportEnd] c2 d" "face c2 = face (c1\<lparr>chunkParser := q, responseTrailers := responseTrailers c1\<rparr>)"
      "notified (trace c2) = notified (trace c1)"
    by auto
  then have f2: "\<not> completed c2" "\<not> closed c2" "responseHeaders c2 = Some ?h" "responseTrailers c2 = None"
      "onEndCallbacks c2 = onEndCallbacks c"
    using f1 fresh by (simp_all add: face_def)
  have out: "outcome (metadata E) (responseHeaders c2) (responseTrailers c2) = (s, msg, ?h)"
    using stat by (simp add: outcome_def f2)
  from c2(1) obtain t1 t2 where "d = onTransportEnd E (c2\<lparr>transport := t1\<rparr>)\<lparr>transport := t2\<rparr>"
    by (auto elim!: driven_ConsE driven_NilE)
  with onTransportEnd_delivers(1) [OF obs, of "c2\<lparr>transport := t1\<rparr>"] f2 out c2(3) c1(5) show ?thesis
    by simp
qed

lemma unary_delivers_headers_only:
  assumes "unary (unary_env M sl md tc body) tp df host request arg u = (e, Some c)"
    and "driven (unary_env M sl md tc body) (map TransportChunk hs @ [TransportEnd]) c d"
    and "bodies_in observing body" "concat hs = frame_bytes (0x80, th)" "length th < 2 ^ 32"
      "parseTrailerData M th = Inr mh"
    and "status_of M (md_copy M mh) = Some (s, msg)"
  shows "outputs (user d) =
     [\<lparr>out_status = s, out_statusMessage = msg, out_headers = md_copy M mh, out_message = None,
       out_trailers = md_copy M mh\<rparr>]"
proof -
  note fresh = unary_fresh [OF assms(1)]
  have f: "\<not> completed c" "\<not> closed c" "at_frame (chunkParser c)" "responseHeaders c = None" "responseTrailers c = None"
    "onHeadersCallbacks c = [UnaryOnHeaders]" "onMessageCallbacks c = [UnaryOnMessage]"
    "onEndCallbacks c = [UnaryOnEnd]" "notified (trace c) = []"
    using fresh by (simp_all add: fresh_with_def face_def)
  have "notified (trace d) = [(UnaryOnHeaders, HeadersEv (md_copy M mh)), (UnaryOnEnd, EndEv s msg (md_copy M mh))]"
    using headers_only_delivered [OF unary_observers [OF assms(3)] assms(2) f(1-5), of th mh s msg] assms f
    by simp
  then show ?thesis
    unfolding unary_user [OF assms(2) fresh]
    by (simp add: replay_unary [of _ _ _ _ _ _ "[]", simplified] Let_def case_prod_beta del: append_Cons)
qed

end
