(* ===== verification/Server_Properties.thy ===== *)
theory Server_Properties
  imports GoServer_Requests GoServer_Streams Server_Delivery Xhr Client_Properties Request_Properties
begin

text \<open>
  The client and the server of the repository together: what a handler behind the server reads of
  the requests this client sends, and what this client reports of the responses the server's
  writers emit.
\<close>

section \<open>A request over a WebSocket\<close>

lemma ws_step_in_protocol: "in_protocol E c \<Longrightarrow> in_protocol E (ws_step E i c)"
proof -
  assume c: "in_protocol E c"
  have t: "in_protocol E (d\<lparr>transport := t\<rparr>)" if "in_protocol E d" for d t
    using in_protocol_same [OF that, of "d\<lparr>transport := t\<rparr>"] by (simp add: phase_of_def)
  show ?thesis
  proof (cases i)
    case (User a)
    with c show ?thesis by (simp add: run_action_in_protocol)
  next
    case (Browser ev)
    with c show ?thesis
      by (cases ev)
        (auto split: option.split intro!: t
          intro: in_protocol.star_keeps [OF onTransportChunk_micro [OF callbacks_in_any]]
            in_protocol.star_keeps [OF onTransportEnd_micro [OF callbacks_in_any]])
  qed
qed

interpretation ws_protocol: step_invariant "ws_step E" "\<lambda>_. True" "in_protocol E" for E
  by unfold_locales (rule ws_step_in_protocol)

text \<open>The payloads of the calls a transport has had: messages, then at most one end.\<close>

fun uploads :: "'m tcall list \<Rightarrow> bytes list" where
  "uploads [] = []"
| "uploads (TSend b # xs) = b # uploads xs"
| "uploads (_ # xs) = uploads xs"

lemma payloads_in_phase:
  "phase_after p xs = Some q \<Longrightarrow> p \<noteq> HalfClosed \<and> p \<noteq> Cancelled \<Longrightarrow>
     payloads_of xs = map Message (uploads xs) @ (if TFinish \<in> set xs then [FINISH_SEND] else [])"
  "phase_after p xs = Some q \<Longrightarrow> p = HalfClosed \<or> p = Cancelled \<Longrightarrow> payloads_of xs = [] \<and> uploads xs = [] \<and> TFinish \<notin> set xs"
  by (induction p xs rule: phase_after.induct)
    (auto simp: payloads_of_def split: option.splits elim!: next_phase_SomeE)

lemma uploads_body:
  assumes "prefix ps (map wire_bytes (map Message ms @ (if fin then [FINISH_SEND] else [])))"
  shows "prefix (request_body ps) (concat ms) \<and> ([1] \<in> set ps \<longrightarrow> fin \<and> request_body ps = concat ms)"
  using assms
proof (induction ms arbitrary: ps)
  case Nil
  then show ?case by (cases fin) (auto simp: prefix_Cons)
next
  case (Cons m ms)
  then show ?case by (cases ps) auto
qed

lemma whole_body:
  "request_body (map wire_bytes (map Message ms @ (if fin then [FINISH_SEND] else []))) = concat ms \<and>
     ([1] \<in> set (map wire_bytes (map Message ms @ (if fin then [FINISH_SEND] else []))) \<longleftrightarrow> fin)"
  by (induction ms) auto

text \<open>Every message, with its control byte, is within the limit of the connection.\<close>

definition within_limit :: "int \<Rightarrow> bytes list \<Rightarrow> bool" where
  "within_limit limit ms \<longleftrightarrow> list_all (\<lambda>m. int (length m) < limit) ms"

lemma fits_whole_body:
  "0 < limit \<Longrightarrow>
     fits limit (map wire_bytes (map Message ms @ (if fin then [FINISH_SEND] else []))) = within_limit limit ms"
  by (induction ms) (auto simp: within_limit_def)

lemma control_payloads: "list_all control_payload (map wire_bytes qs)"
proof -
  have "control_payload (wire_bytes q)" for q by (cases q) (simp_all add: control_payload_def)
  then show ?thesis by (simp add: list_all_iff)
qed

lemma prefix_list_all: "prefix xs ys \<Longrightarrow> list_all P ys \<Longrightarrow> list_all P xs"
  by (auto elim!: prefixE)

lemma new_endpoint_reader:
  "0 < limit \<Longrightarrow> over_limit_law over \<Longrightarrow> list_all control_payload ps \<Longrightarrow>
     reader_at (new_ws_endpoint limit over gone (binary_messages ps)) ps"
  "unread (new_ws_endpoint limit over gone (binary_messages ps)) ps = request_body ps"
  "readLimit (new_ws_endpoint limit over gone ms) = limit"
  "peerGone (new_ws_endpoint limit over gone ms) = gone"
  "connClosed (new_ws_endpoint limit over gone ms) = False"
  "contextCancelled (new_ws_endpoint limit over gone ms) = False"
  by (simp_all add: reader_at_def unread_def new_ws_endpoint_def)

text \<open>
  C9. What a client uploads over a WebSocket is what the server reads: in every run of the client,
  of the messages that have arrived, in whatever sizes the handler reads its body, it gets a prefix
  of the messages the client sent, in order and without the framing of the transport.  A proper end,
  \<^verbatim>\<open>EOF\<close> that is not the loss of the connection, means that the client finished sending, and
  then the body is complete.  On an open connection, when everything has arrived and every
  message with its control byte is within the read limit of the connection, reading stops only
  after the whole body: with a proper end if the client finished, else waiting for more.  A message
  beyond the limit never leads to a proper end, nor to waiting.  With buffers that are not empty
  reading stops after boundedly many reads.
\<close>

theorem uploads_reach_server:
  assumes "transportCall E = ws_call newWebSocket" "websocketRequest url = Inr t" "metadata_accepted E"
    and "c = ws_run E is (new_client t u)" "ws (transport c) = Some w"
    and "headersToBytes (metadata E) (ws_metadata w) = Inr hb"
    and "xs = transport_calls (trace c)" "prefix ps (drop 1 (wire w))"
    and "0 < limit" "over_limit_law over"
    and "read_calls ns (new_ws_endpoint limit over gone (binary_messages ps)) = (bs, out, r)"
  shows "prefix bs (concat (uploads xs)) \<and>
    (proper_end out r \<longrightarrow> TFinish \<in> set xs \<and> bs = concat (uploads xs)) \<and>
    (readyState w = OPEN \<and> ps = drop 1 (wire w) \<and> \<not> gone \<and> within_limit limit (uploads xs) \<and>
      out \<noteq> Continuing \<longrightarrow>
      bs = concat (uploads xs) \<and> (if TFinish \<in> set xs then proper_end out r else out = Blocked)) \<and>
    (readyState w = OPEN \<and> ps = drop 1 (wire w) \<and> \<not> within_limit limit (uploads xs) \<longrightarrow>
      out \<noteq> Blocked \<and> \<not> proper_end out r) \<and>
    (list_all (\<lambda>n. 0 < n) ns \<and> length (concat (uploads xs)) + length (wire w) < length ns \<longrightarrow>
      out \<noteq> Continuing)"
proof -
  let ?fin = "TFinish \<in> set xs"
  let ?all = "map wire_bytes (map Message (uploads xs) @ (if ?fin then [FINISH_SEND] else []))"
  have "in_protocol E c"
    unfolding assms(4) ws_run_def
    by (rule ws_protocol.run_keeps) (simp_all add: new_client_in_protocol list_all_iff)
  with assms(3) have "phase_after Idle xs = Some (phase_of c)"
    by (simp add: in_protocol_def assms(7))
  then have pay: "payloads_of xs = map Message (uploads xs) @ (if ?fin then [FINISH_SEND] else [])"
    by (rule payloads_in_phase) simp
  from ws_run_wire(2,3) [OF assms(1,2,4,5,6)]
  have "prefix (wire w) (hb # ?all)" "readyState w = OPEN \<Longrightarrow> wire w = hb # ?all"
    by (simp_all only: assms(7) [symmetric] pay)
  then have w: "prefix (drop 1 (wire w)) ?all" "readyState w = OPEN \<longrightarrow> drop 1 (wire w) = ?all"
    by (auto simp del: map_append simp: prefix_Cons)
  from assms(8) w(1) have p: "prefix ps ?all" by (rule prefix_order.trans)
  note b = uploads_body [OF p]
  note r = read_calls_body [OF new_endpoint_reader(1) [OF assms(9,10) prefix_list_all [OF p control_payloads]] assms(11),
      unfolded body_read_def new_endpoint_reader(2-4)]
  have len: "length (request_body ps) \<le> length (concat (uploads xs))" "length ps \<le> length (wire w)"
    using b prefix_length_le [of "request_body ps"] prefix_length_le [OF assms(8)] by auto
  have whole: "request_body ps = concat (uploads xs) \<and> ([1] \<in> set ps \<longleftrightarrow> ?fin) \<and>
      (fits limit ps \<longleftrightarrow> within_limit limit (uploads xs))"
    if "readyState w = OPEN" "ps = drop 1 (wire w)"
    using that w(2) whole_body [of "uploads xs" ?fin] fits_whole_body [OF assms(9), of "uploads xs" ?fin] by metis
  have 1: "prefix bs (concat (uploads xs))"
    using r b by (auto intro: prefix_order.trans)
  have 2: "proper_end out r \<longrightarrow> ?fin \<and> bs = concat (uploads xs)"
    using r b by auto
  have 3: "bs = concat (uploads xs) \<and> (if ?fin then proper_end out r else out = Blocked)"
    if "readyState w = OPEN" "ps = drop 1 (wire w)" "\<not> gone" "within_limit limit (uploads xs)" "out \<noteq> Continuing"
    using r whole [OF that(1,2)] that(3-5) by (cases out) (auto simp: proper_end_def)
  have 4: "out \<noteq> Blocked \<and> \<not> proper_end out r"
    if "readyState w = OPEN" "ps = drop 1 (wire w)" "\<not> within_limit limit (uploads xs)"
    using r whole [OF that(1,2)] that(3) by auto
  have 5: "out \<noteq> Continuing"
    if "list_all (\<lambda>n. 0 < n) ns" "length (concat (uploads xs)) + length (wire w) < length ns"
    using r len that by auto
  from 1 2 3 4 5 show ?thesis by blast
qed

text \<open>What the package is known to return: the part of the message up to the limit.\<close>

definition cut_at_limit :: over_limit where
  "cut_at_limit limit m = (fst m, take (nat limit) (snd m), GoError (go ''read limited''))"

lemma cut_at_limit_law [simp]: "over_limit_law cut_at_limit"
  by (simp add: over_limit_law_def cut_at_limit_def take_is_prefix)

lemma ws_demo_address: "websocketRequest (js ''http://h'') = Inr ws_demo_transport"
  by code_simp

theorem uploads_reach_server_witness:
  "\<exists>w r. ws (transport (ws_run ws_demo ws_demo_inputs (new_client ws_demo_transport 0))) = Some w \<and>
     read_calls [4, 9, 9, 9, 9] (new_ws_endpoint 32769 cut_at_limit False (binary_messages (drop 1 (wire w)))) =
       (frame_message [1] @ frame_message [2], Ended EOF, r) \<and> proper_end (Ended EOF) r"
proof -
  let ?c = "ws_run ws_demo ws_demo_inputs (new_client ws_demo_transport 0)"
  let ?e = "\<lambda>w. new_ws_endpoint 32769 cut_at_limit False (binary_messages (drop 1 (wire w)))"
  have up: "uploads (transport_calls (trace ?c)) = [frame_message [1], frame_message [2]]"
    "TFinish \<in> set (transport_calls (trace ?c))"
    "within_limit 32769 [frame_message [1], frame_message [2]]" by code_simp+
  have "(case ws (transport ?c) of None \<Rightarrow> False
      | Some w \<Rightarrow> readyState w = OPEN \<and> list_all isValidHeaderAscii (header_block assoc_metadata (ws_metadata w)) \<and>
          fst (snd (read_calls [4, 9, 9, 9, 9] (?e w))) = Ended EOF)"
    by code_simp
  then obtain w where w: "ws (transport ?c) = Some w" "readyState w = OPEN"
    "list_all isValidHeaderAscii (header_block assoc_metadata (ws_metadata w))"
    "fst (snd (read_calls [4, 9, 9, 9, 9] (?e w))) = Ended EOF"
    by (cases "ws (transport ?c)") simp_all
  obtain bs out r where r: "read_calls [4, 9, 9, 9, 9] (?e w) = (bs, out, r)"
    by (rule prod_cases3)
  with w(4) have out: "out = Ended EOF" by simp
  have E: "transportCall ws_demo = ws_call (\<lambda>_. None)" "metadata_accepted ws_demo" "metadata ws_demo = assoc_metadata"
    by (simp_all add: ws_demo_def metadata_accepted_def)
  from w(3) obtain hb where "headersToBytes (metadata ws_demo) (ws_metadata w) = Inr hb"
    by (auto simp: E headersToBytes_def encodeASCII_def encodeASCII_from_eq)
  from uploads_reach_server [OF E(1) ws_demo_address E(2) refl w(1) this refl prefix_order.refl _ cut_at_limit_law r]
    w(2) up out
  have "bs = frame_message [1] @ frame_message [2] \<and> proper_end (Ended EOF) r" by simp
  with w(1) r out show ?thesis by blast
qed

text \<open>The headers \<^verbatim>\<open>start\<close> adds are among those sent.\<close>

lemma request_content_type_get:
  assumes "metadata_laws M" "requestHeaders_of M arg = Inr h"
  shows "md_get M h (js ''content-type'') = [js ''application/grpc-web+proto'']"
proof -
  let ?k = "js ''content-type''" and ?v = "js ''application/grpc-web+proto''"
  have n: "field_name ?k" "field_name (js ''x-grpc-web'')" "js ''x-grpc-web'' \<noteq> ?k" by code_simp+
  from assms(2) obtain m where "h = md_set M (md_set M m ?k ?v) (js ''x-grpc-web'') (js ''1'')"
    by (auto simp: requestHeaders_of_def js_bind_Inr_iff simp del: js_Cons)
  then show ?thesis
    using metadata_laws_set [OF assms(1)] n by metis
qed

lemma request_content_type:
  assumes "metadata_laws M" "requestHeaders_of M arg = Inr h"
  shows "(go ''content-type'', go ''application/grpc-web+proto'') \<in> set (header_fields M h)"
proof -
  let ?k = "js ''content-type''" and ?v = "js ''application/grpc-web+proto''"
  have n: "field_name ?k" by code_simp
  from metadata_laws_entry [OF assms(1) n request_content_type_get [OF assms]] have "(?k, [?v]) \<in> set (md_entries M h)" .
  moreover have "ascii ?k = go ''content-type''" "ascii ?v = go ''application/grpc-web+proto''" by code_simp+
  ultimately show ?thesis by (force simp: header_fields_def simp del: js_Cons go_Cons)
qed

text \<open>The body of one message.\<close>

lemma one_message_read:
  assumes "body_read ns w [0 # m, [1]] bs out w'" "unread w [0 # m, [1]] = m" "0 < readLimit w"
  shows "prefix bs m \<and>
    (out \<noteq> Continuing \<longrightarrow>
      (if int (length m) < readLimit w then bs = m \<and> proper_end out w' else out \<noteq> Blocked \<and> \<not> proper_end out w')) \<and>
    (list_all (\<lambda>n. 0 < n) ns \<and> length m + 2 < length ns \<longrightarrow> out \<noteq> Continuing)"
proof -
  have "fits (readLimit w) [0 # m, [1]] = (int (length m) < readLimit w)" using assms(3) by auto
  note r = assms(1) [unfolded body_read_def assms(2) this]
  have 1: "prefix bs m" using r by blast
  have 2: "out \<noteq> Blocked" using r by simp
  have 3: "\<not> proper_end out w'" if "\<not> int (length m) < readLimit w" using r that by blast
  have 4: "bs = m \<and> proper_end out w'" if l: "int (length m) < readLimit w" and out: "out \<noteq> Continuing"
  proof -
    from 2 out obtain e where e: "out = Ended e" by (cases out) simp_all
    with r l have "e = EOF \<and> bs = m \<and> contextCancelled w' = ([1] \<notin> set [0 # m, [1]])" by blast
    with e show ?thesis by (simp add: proper_end_def)
  qed
  have 5: "out \<noteq> Continuing" if "list_all (\<lambda>n. 0 < n) ns" "length m + 2 < length ns"
    using r that by simp
  from 1 2 3 4 5 show ?thesis by presburger
qed

text \<open>
  C17. A \<^verbatim>\<open>unary\<close> request over a WebSocket as the gRPC handler behind the server sees it, when
  the header block is within the read limit of the connection, which is the configured one or the
  default: a \<^verbatim>\<open>POST\<close> whose content type is the one of gRPC, with every other metadata entry of the
  client under its canonical name; and a body that, read in any sizes, is the framed request and then
  its end, with the connection still in use.  If the framed request with its control byte is beyond the
  limit, the handler reads at most a part of it, and the reading stops with an error instead of
  a proper end; if the header block is, nothing is served.
\<close>

theorem unary_request_served:
  assumes "E = unary_env M sl md (ws_call newWebSocket) body"
    and "unary E (Some websocketRequest) df host request arg u = (e, Some c)"
    and "\<forall>a. newWebSocket a = None"
    and "requestHeaders_of M arg = Inr h" "headersToBytes M h = Inr hb" "serializeBinary md request = Inr b"
    and "metadata_laws M" "list_all wire_field (header_fields M h)"
    and "distinct (map (CanonicalHeaderKey \<circ> fst) (header_fields M h))"
    and "0 < default_limit" "over_limit_law over"
    and "limit = (if websocketReadLimit S > 0 then websocketReadLimit S else default_limit)"
    and "ws (transport (ws_handle E Opened c)) = Some w"
    and "conn = new_ws_endpoint default_limit over gone (binary_messages (wire w))"
  shows "if limit < int (length hb) then HandleGrpcWebsocketRequest S req (Some conn) = NotServed
    else \<exists>r endpoint. HandleGrpcWebsocketRequest S req (Some conn) = Served r False endpoint \<and>
      reqMethod r = go ''POST'' \<and> reqPath r = endpointFunc S req \<and>
      header_get (go ''content-type'') (reqHeader r) = go ''application/grpc+proto'' \<and>
      (\<forall>(k, v) \<in> set (header_fields M h). CanonicalHeaderKey k \<notin> {content_type_key, content_length_key} \<longrightarrow>
        map_of (reqHeader r) (CanonicalHeaderKey k) = Some [v]) \<and>
      (\<forall>ns bs out r'. read_calls ns endpoint = (bs, out, r') \<longrightarrow>
        prefix bs (frame_message b) \<and>
        (out \<noteq> Continuing \<longrightarrow>
          (if int (length (frame_message b)) < limit then bs = frame_message b \<and> proper_end out r'
           else out \<noteq> Blocked \<and> \<not> proper_end out r')) \<and>
        (list_all (\<lambda>n. 0 < n) ns \<and> length (frame_message b) + 2 < length ns \<longrightarrow> out \<noteq> Continuing))"
proof -
  let ?ps = "[0 # frame_message b, [1]]"
  from unary_over_ws [OF assms(1-6)] assms(13) have w: "wire w = hb # ?ps" by simp
  let ?hs = "concat (map (\<lambda>kv. field_line kv @ [13, 10]) (header_fields M h))"
  have hb: "hb = ?hs" by (rule headersToBytes_fields [OF assms(5)])
  have conn: "incoming conn = (MessageBinary, ?hs, None) # binary_messages ?ps" "\<not> connClosed conn"
    "\<not> contextCancelled conn" "readLimit conn = default_limit"
    by (simp_all add: assms(14) w hb new_ws_endpoint_def binary_messages_def)
  have limit: "limit = limited S default_limit" "0 < limit"
    using assms(10) by (simp_all add: assms(12) limited_def)
  show ?thesis
  proof (cases "limit < int (length hb)")
    case True
    with websocket_headers_too_long [OF conn(1-3), of S req] show ?thesis
      by (simp add: conn(4) limit(1) hb)
  next
    case False
    let ?e = "new_ws_endpoint limit over gone (binary_messages ?ps)"
    have e: "conn\<lparr>incoming := binary_messages ?ps, readLimit := limited S (readLimit conn)\<rparr> = ?e"
      by (simp add: conn(4) limit(1)) (simp add: assms(14) new_ws_endpoint_def)
    from False have "int (length ?hs) \<le> limited S (readLimit conn)" by (simp add: conn(4) limit(1) hb)
    from websocket_request_served [OF assms(8,9) conn(1-3) this request_content_type [OF assms(7,4)],
        of req, unfolded e] obtain r isText where
      r: "HandleGrpcWebsocketRequest S req (Some conn) = Served r isText ?e"
      "isText = prefix grpcWebTextContentType (go ''application/grpc-web+proto'')"
      "reqMethod r = go ''POST''" "reqPath r = endpointFunc S req"
      "map_of (reqHeader r) content_type_key = Some [Replace1 (go ''application/grpc-web+proto'')
        (if isText then grpcWebTextContentType else grpcWebContentType) grpcContentType]"
      "\<forall>(k, v) \<in> set (header_fields M h). CanonicalHeaderKey k \<notin> {content_type_key, content_length_key} \<longrightarrow>
        map_of (reqHeader r) (CanonicalHeaderKey k) = Some [v]"
      by blast
    have t: "\<not> prefix grpcWebTextContentType (go ''application/grpc-web+proto'')"
      "Replace1 (go ''application/grpc-web+proto'') grpcWebContentType grpcContentType = go ''application/grpc+proto''"
      by code_simp+
    have ct: "header_get (go ''content-type'') (reqHeader r) = go ''application/grpc+proto''"
      using r(5) t by (simp add: r(2) header_get_def del: go_Cons)
    have "reader_at ?e ?ps"
      using assms(11) limit(2) by (intro new_endpoint_reader) (simp_all add: control_payload_def)
    note read = read_calls_body [OF this]
    have body: "prefix bs (frame_message b) \<and>
        (out \<noteq> Continuing \<longrightarrow>
          (if int (length (frame_message b)) < limit then bs = frame_message b \<and> proper_end out r'
           else out \<noteq> Blocked \<and> \<not> proper_end out r')) \<and>
        (list_all (\<lambda>n. 0 < n) ns \<and> length (frame_message b) + 2 < length ns \<longrightarrow> out \<noteq> Continuing)"
      if "read_calls ns ?e = (bs, out, r')" for ns bs out r'
      using one_message_read [OF read [OF that]] limit(2) by (simp add: new_endpoint_reader(2,3))
    have "isText = False" using r(2) t(1) by simp
    with r(1) have served: "HandleGrpcWebsocketRequest S req (Some conn) = Served r False ?e" by simp
    show ?thesis
      unfolding if_not_P [OF False]
      by (intro exI [of _ r] exI [of _ ?e] conjI served r(3,4,6) ct allI impI body)
  qed
qed

abbreviation ws_unary where
  "ws_unary \<equiv> unary (unary_demo (ws_call (\<lambda>_. None))) (Some websocketRequest) websocketRequest
     (js ''http://h'') [7] None ()"

lemma ws_unary_client: "\<exists>e c. ws_unary = (e, Some c)"
proof -
  have "\<exists>t. websocketRequest (request_url (js ''http://h'') unary_method) = (Inr t :: assoc ws_transport result)"
    by (simp add: websocketRequest_def constructWebSocketAddress_def js_substr_def request_url_def)
  then have "snd ws_unary \<noteq> None"
    by (auto simp: unary_no_client unary_demo_def createTransport_def)
  then show ?thesis by (metis not_None_eq prod.collapse)
qed

definition demo_request_md :: assoc where
  "demo_request_md = [(js ''content-type'', [js ''application/grpc-web+proto'']), (js ''x-grpc-web'', [js ''1''])]"

lemma demo_request_headers: "requestHeaders_of assoc_metadata None = Inr demo_request_md"
  by code_simp

lemma demo_request_block: "\<exists>hb. headersToBytes assoc_metadata demo_request_md = Inr hb"
proof -
  have "list_all isValidHeaderAscii (header_block assoc_metadata demo_request_md)" by code_simp
  then show ?thesis by (simp add: headersToBytes_def encodeASCII_def encodeASCII_from_eq)
qed

definition demo_options :: server_options where
  "demo_options = \<lparr>enableWebsockets = True, websocketOriginFunc = (\<lambda>_. True),
     websocketReadLimit = 0, corsForRegisteredEndpointsOnly = False, endpointsFunc = [], allowNonRootResources = True,
     allowedHeaders = [go ''U-A'']\<rparr>"

definition demo_upgrade :: go_request where
  "demo_upgrade = \<lparr>reqMethod = go ''GET'', reqPath = go ''/api/s/m'', reqProto = (1, 1),
     reqHeader = [(go ''Upgrade'', [go ''websocket'']), (go ''U-A'', [go ''x''])]\<rparr>"

definition demo_conn :: "bytes list \<Rightarrow> ws_endpoint" where
  "demo_conn ps = new_ws_endpoint 32769 cut_at_limit False (binary_messages ps)"

theorem unary_request_served_witness:
  "\<exists>e c w r endpoint. unary (unary_demo (ws_call (\<lambda>_. None))) (Some websocketRequest) websocketRequest
       (js ''http://h'') [7] None () = (e, Some c) \<and>
     ws (transport (ws_handle (unary_demo (ws_call (\<lambda>_. None))) Opened c)) = Some w \<and>
     HandleGrpcWebsocketRequest demo_options demo_upgrade (Some (demo_conn (wire w))) = Served r False endpoint \<and>
     header_get (go ''content-type'') (reqHeader r) = go ''application/grpc+proto'' \<and>
     map_of (reqHeader r) (go ''X-Grpc-Web'') = Some [go ''1''] \<and>
     HandleGrpcWebsocketRequest (demo_options\<lparr>websocketReadLimit := 9\<rparr>) demo_upgrade (Some (demo_conn (wire w))) =
       NotServed"
proof -
  obtain e c where c: "ws_unary = (e, Some c)" using ws_unary_client by blast
  obtain hb where hb: "headersToBytes assoc_metadata demo_request_md = Inr hb"
    using demo_request_block by blast
  have f: "list_all wire_field (header_fields assoc_metadata demo_request_md)"
    "distinct (map (CanonicalHeaderKey \<circ> fst) (header_fields assoc_metadata demo_request_md))"
    "(go ''x-grpc-web'', go ''1'') \<in> set (header_fields assoc_metadata demo_request_md)"
    "CanonicalHeaderKey (go ''x-grpc-web'') = go ''X-Grpc-Web''"
    "go ''X-Grpc-Web'' \<notin> {content_type_key, content_length_key}"
    "length (concat (map (\<lambda>kv. field_line kv @ [13, 10]) (header_fields assoc_metadata demo_request_md))) = 57"
    by code_simp+
  have len: "length hb = 57" using headersToBytes_fields [OF hb] f(6) by simp
  have "serializeBinary unary_method [7] = Inr [7]" by simp
  from unary_over_ws [OF unary_demo_def c _ demo_request_headers hb this] obtain w where
    w: "ws (transport (ws_handle (unary_demo (ws_call (\<lambda>_. None))) Opened c)) = Some w"
    unfolding unary_demo_def by blast
  note served = unary_request_served [OF unary_demo_def c _ demo_request_headers hb _ assoc_metadata_laws f(1,2),
      of "[7]" 32769 cut_at_limit, OF _ _ _ _ refl w demo_conn_def]
  have "HandleGrpcWebsocketRequest (demo_options\<lparr>websocketReadLimit := 9\<rparr>) demo_upgrade (Some (demo_conn (wire w))) =
      NotServed"
    using served [of "demo_options\<lparr>websocketReadLimit := 9\<rparr>" demo_upgrade] len by simp
  moreover obtain r endpoint where
    "HandleGrpcWebsocketRequest demo_options demo_upgrade (Some (demo_conn (wire w))) = Served r False endpoint"
    "header_get (go ''content-type'') (reqHeader r) = go ''application/grpc+proto''"
    "\<forall>(k, v) \<in> set (header_fields assoc_metadata demo_request_md).
       CanonicalHeaderKey k \<notin> {content_type_key, content_length_key} \<longrightarrow>
       map_of (reqHeader r) (CanonicalHeaderKey k) = Some [v]"
    using served [of demo_options demo_upgrade] len by (auto simp: demo_options_def simp del: go_Cons)
  ultimately show ?thesis using c w f(3-5) by fastforce
qed

section \<open>The response\<close>

text \<open>
  A handler's run: headers, then the operation that commits them, then its messages, in whatever
  pieces it writes them, and what it sets as trailers.
\<close>

definition handler_run :: "handler_op list \<Rightarrow> handler_op \<Rightarrow> handler_op list \<Rightarrow> bytes list \<Rightarrow> bool" where
  "handler_run pre a post ds \<longleftrightarrow>
     list_all (\<lambda>x. \<not> commits x) pre \<and> commits a \<and> list_all (\<lambda>x. \<not> is_write_header x) post \<and>
     concat (bodies (a # post)) = concat (map (\<lambda>d. frame_bytes (0, d)) ds)"

text \<open>The headers the handler has committed, and all it has set at its end.\<close>

definition first_headers :: "handler_op list \<Rightarrow> go_header" where
  "first_headers pre = fold header_effect pre []"

definition last_headers :: "handler_op list \<Rightarrow> handler_op \<Rightarrow> handler_op list \<Rightarrow> go_header" where
  "last_headers pre a post = fold header_effect (pre @ a # post) []"

definition served_over_ws :: "handler_op list \<Rightarrow> ws_endpoint \<Rightarrow> bytes list" where
  "served_over_ws ops w = outgoing (wrapped_Close (fold ws_handler_op ops w))"

definition served_over_http :: "handler_op list \<Rightarrow> go_header \<Rightarrow> http_writer" where
  "served_over_http ops w0 =
     wrapped (finishRequest (fold gw_handler_op ops
       (newGrpcWebResponse \<lparr>rwHeader = w0, rwCommitted = None, rwBody = []\<rparr> False)))"

lemma response_stream_pieces:
  "concat bs = concat (map (\<lambda>d. frame_bytes (0, d)) ds) \<Longrightarrow>
     concat (bs @ frame_messages h) = response_stream ds (header_Write h)"
  by (simp add: response_stream_def frame_messages_bytes)

lemma fresh_ws_endpoint:
  "outgoing w = [] \<Longrightarrow> \<not> connClosed w \<Longrightarrow> \<not> writtenHeaders w \<Longrightarrow> respHeaders w = [] \<Longrightarrow>
     flushedHeaders w = [] \<Longrightarrow> ws_ready w \<and> ws_committed w = None"
  by (simp add: ws_ready_def ws_committed_def)

text \<open>An endpoint from which the request may have been read, and to which nothing was written.\<close>

definition unanswered :: "ws_endpoint \<Rightarrow> bool" where
  "unanswered w \<longleftrightarrow> outgoing w = [] \<and> \<not> connClosed w \<and> \<not> writtenHeaders w \<and>
     respHeaders w = [] \<and> flushedHeaders w = []"

lemma served_over_ws_eq:
  assumes "unanswered w" "handler_run pre a post ds"
  shows "served_over_ws (pre @ a # post) w =
    frame_messages (first_headers pre) @ bodies (a # post) @
      frame_messages (trailers_of (last_headers pre a post) (headerKeys (ws_commit (first_headers pre))))"
  using assms ws_writer.response_emitted [of w pre a post] fresh_ws_endpoint [of w]
  by (simp add: unanswered_def handler_run_def served_over_ws_def first_headers_def last_headers_def)

text \<open>A handler for the witnesses: a message written in two pieces, a status and a custom trailer.\<close>

definition demo_pre :: "handler_op list" where
  "demo_pre = [PutHeader (go ''Content-Type'') [go ''application/grpc''],
     PutHeader (go ''Trailer'') [go ''Grpc-Status'', go ''Grpc-Message'']]"

definition demo_post :: "handler_op list" where
  "demo_post = [WriteBody [1, 5], Flush, PutHeader (go ''Grpc-Status'') [go ''0''],
     PutHeader (go ''Trailer:X-Cost'') [go ''7'']]"

abbreviation demo_commit :: handler_op where
  "demo_commit \<equiv> WriteBody [0, 0, 0, 0]"

lemma demo_handler: "handler_run demo_pre demo_commit demo_post [[5]]"
  unfolding handler_run_def by (intro conjI; code_simp)

abbreviation demo_trailers :: "go_string list \<Rightarrow> go_header" where
  "demo_trailers \<equiv> trailers_of (last_headers demo_pre demo_commit demo_post)"

definition cost_md :: assoc where
  "cost_md = [(js ''grpc-status'', [js ''0'']), (js ''x-cost'', [js ''7''])]"

definition answered_md :: assoc where
  "answered_md = [(js ''Content-Type'', [js ''application/grpc'']), (js ''Trailer'', [js ''Grpc-Status'']),
     (js ''Trailer'', [js ''Grpc-Message''])]"

lemma demo_texts:
  "header_Write (demo_trailers (headerKeys (ws_commit (first_headers demo_pre)))) =
     go ''grpc-status: 0'' @ [13, 10] @ go ''x-cost: 7'' @ [13, 10]"
  "header_Write (demo_trailers (headerKeys (answer_headers [] (first_headers demo_pre)))) =
     go ''grpc-status: 0'' @ [13, 10] @ go ''x-cost: 7'' @ [13, 10]"
  "header_Write (first_headers demo_pre) =
     go ''Content-Type: application/grpc'' @ [13, 10] @ go ''Trailer: Grpc-Status'' @ [13, 10] @
     go ''Trailer: Grpc-Message'' @ [13, 10]"
  by code_simp+

lemma demo_read:
  "parseTrailerData assoc_metadata (go ''grpc-status: 0'' @ [13, 10] @ go ''x-cost: 7'' @ [13, 10]) = Inr cost_md"
  "parseTrailerData assoc_metadata (go ''Content-Type: application/grpc'' @ [13, 10] @
     go ''Trailer: Grpc-Status'' @ [13, 10] @ go ''Trailer: Grpc-Message'' @ [13, 10]) = Inr answered_md"
  "status_of assoc_metadata cost_md = Some (Num 0, [])"
  by code_simp+

text \<open>
  C8. The two ends of a \<^verbatim>\<open>unary\<close> call over a WebSocket: whatever a handler does behind the
  server's response writer, as long as it commits its headers once and writes whole messages in any
  pieces, the messages the server emits lead this client to exactly one output, with the headers
  committed, the last message, and status and trailers from the headers set afterwards.
\<close>

theorem served_response_over_websocket:
  assumes "E = unary_env M sl md (ws_call newWebSocket) body"
    and "unary E (Some websocketRequest) df host request arg u = (e, Some c)"
    and "\<forall>a. newWebSocket a = None"
    and "requestHeaders_of M arg = Inr h" "headersToBytes M h = Inr hb" "serializeBinary md request = Inr b"
    and "bodies_in observing body"
    and "unanswered w" "handler_run pre a post ds"
    and "H = first_headers pre" "T = trailers_of (last_headers pre a post) (headerKeys (ws_commit H))"
    and "length (header_Write H) < 2 ^ 32" "parseTrailerData M (header_Write H) = Inr mh"
    and "length (header_Write T) < 2 ^ 32" "parseTrailerData M (header_Write T) = Inr mt"
    and "list_all (\<lambda>d. length d < 2 ^ 32) ds" "list_all2 (\<lambda>d r. deserializeBinary md d = Inr r) ds rs"
    and "status_of M (md_copy M mt) = Some (s, msg)"
  shows "outputs (user (fold (ws_handle E)
        (Opened # map Received (served_over_ws (pre @ a # post) w) @ [Closed]) c)) =
      [\<lparr>out_status = s, out_statusMessage = msg, out_headers = md_copy M mh,
        out_message = (if rs = [] then None else Some (last rs)), out_trailers = md_copy M mt\<rparr>]"
proof -
  have "concat (bodies (a # post)) = concat (map (\<lambda>d. frame_bytes (0, d)) ds)"
    using assms(9) by (simp add: handler_run_def)
  from unary_ws_response [OF assms(1-7) frame_messages_bytes assms(12,13,16,14) response_stream_pieces [OF this]
      assms(17,15,18)]
  show ?thesis
    unfolding served_over_ws_eq [OF assms(8,9)] assms(10) [symmetric] assms(11) [symmetric] .
qed

lemma unanswered_new [simp]: "unanswered (new_ws_endpoint limit over gone ms)"
  by (simp add: unanswered_def new_ws_endpoint_def)

lemma unanswered_demo: "unanswered (demo_conn ps)"
  by (simp add: demo_conn_def)

theorem served_response_over_websocket_witness:
  "\<exists>e c. ws_unary = (e, Some c) \<and>
     outputs (user (fold (ws_handle (unary_demo (ws_call (\<lambda>_. None))))
       (Opened # map Received (served_over_ws (demo_pre @ demo_commit # demo_post) (demo_conn [])) @ [Closed]) c)) =
     [\<lparr>out_status = Num 0, out_statusMessage = [], out_headers = answered_md, out_message = Some [5],
       out_trailers = cost_md\<rparr>]"
proof -
  obtain e c where c: "ws_unary = (e, Some c)" using ws_unary_client by blast
  obtain hb where hb: "headersToBytes assoc_metadata demo_request_md = Inr hb"
    using demo_request_block by blast
  have len: "length (header_Write (first_headers demo_pre)) < 2 ^ 32"
    "length (header_Write (demo_trailers (headerKeys (ws_commit (first_headers demo_pre))))) < 2 ^ 32"
    unfolding demo_texts by simp_all
  note served_response_over_websocket [OF unary_demo_def c _ demo_request_headers hb _ _ unanswered_demo demo_handler
      refl refl len(1) _ len(2), unfolded demo_texts, OF _ _ _ demo_read(2) demo_read(1), where rs = "[[5]]"]
  from this [of "[7]" "Num 0" "[]" "[]"] c demo_read(3) show ?thesis
    by simp
qed

text \<open>
  C32. A handler that fails before it commits any headers: over a WebSocket the server sends one frame,
  a header of five bytes and a block with the names in lower case, of all the handler's headers but
  \<^verbatim>\<open>Trailer\<close>, and nothing else; and the client reports the status in it, without a message.
\<close>

theorem served_failure_over_websocket:
  assumes "E = unary_env M sl md (ws_call newWebSocket) body"
    and "unary E (Some websocketRequest) df host request arg u = (e, Some c)"
    and "\<forall>a. newWebSocket a = None"
    and "requestHeaders_of M arg = Inr h" "headersToBytes M h = Inr hb" "serializeBinary md request = Inr b"
    and "bodies_in observing body"
    and "unanswered w" "list_all (\<lambda>x. \<not> commits x) ops"
    and "T = trailers_of (first_headers ops) []"
    and "length (header_Write T) < 2 ^ 32" "parseTrailerData M (header_Write T) = Inr mt"
    and "status_of M (md_copy M mt) = Some (s, msg)"
  shows "served_over_ws ops w = [grpc_data_header 128 (length (header_Write T)), header_Write T] \<and>
    concat (served_over_ws ops w) = frame_bytes (0x80, header_Write T) \<and>
    outputs (user (fold (ws_handle E) (Opened # map Received (served_over_ws ops w) @ [Closed]) c)) =
      [\<lparr>out_status = s, out_statusMessage = msg, out_headers = md_copy M mt,
        out_message = None, out_trailers = md_copy M mt\<rparr>]"
proof -
  have w: "ws_ready w" "ws_committed w = None" "respHeaders w = []" "outgoing w = []"
    using assms(8) fresh_ws_endpoint [of w] by (simp_all add: unanswered_def)
  let ?d = "fold ws_handler_op ops w"
  have d: "ws_ready ?d" "ws_committed ?d = None" "respHeaders ?d = first_headers ops" "outgoing ?d = []"
    using ws_writer.acts_headers [OF w(1), of ops] ws_writer.acts_quiet [OF w(1,2) assms(9)] w
    by (simp_all add: first_headers_def)
  then have "flushedHeaders ?d = []" "\<not> connClosed ?d"
    by (auto simp: ws_ready_def ws_committed_def split: if_splits)
  with d have "served_over_ws ops w = frame_messages T"
    by (simp add: served_over_ws_def wrapped_Close_def FlushTrailers_def writeHeaderFrame_def conn_Write_def
        trailers_of_eq headerKeys_def frame_messages_def assms(10) Let_def)
  moreover from unary_ws_driven [OF assms(1-6), of "frame_messages T"]
  have "driven E (map TransportChunk (frame_messages T) @ [TransportEnd]) c
      (fold (ws_handle E) (Opened # map Received (frame_messages T) @ [Closed]) c)" .
  note unary_delivers_headers_only [OF assms(2) [unfolded assms(1)] this [unfolded assms(1)] assms(7)
      frame_messages_bytes assms(11-13)]
  ultimately show ?thesis by (simp add: assms(1) frame_messages_bytes) (simp add: frame_messages_def)
qed

definition failing_handler :: "handler_op list" where
  "failing_handler = [PutHeader (go ''Content-Type'') [go ''application/grpc''], Flush,
     PutHeader (go ''Grpc-Status'') [go ''12'']]"

definition failed_md :: assoc where
  "failed_md = [(js ''content-type'', [js ''application/grpc'']), (js ''grpc-status'', [js ''12''])]"

lemma failing_text:
  "header_Write (trailers_of (first_headers failing_handler) []) =
     go ''content-type: application/grpc'' @ [13, 10] @ go ''grpc-status: 12'' @ [13, 10]"
  "parseTrailerData assoc_metadata
     (go ''content-type: application/grpc'' @ [13, 10] @ go ''grpc-status: 12'' @ [13, 10]) = Inr failed_md"
  "status_of assoc_metadata failed_md = Some (Num 12, [])"
  "list_all (\<lambda>x. \<not> commits x) failing_handler"
  by code_simp+

theorem served_failure_over_websocket_witness:
  "\<exists>e c. ws_unary = (e, Some c) \<and>
     outputs (user (fold (ws_handle (unary_demo (ws_call (\<lambda>_. None))))
       (Opened # map Received (served_over_ws failing_handler (demo_conn [])) @ [Closed]) c)) =
     [\<lparr>out_status = Num 12, out_statusMessage = [], out_headers = failed_md, out_message = None,
       out_trailers = failed_md\<rparr>]"
proof -
  obtain e c where c: "ws_unary = (e, Some c)" using ws_unary_client by blast
  obtain hb where hb: "headersToBytes assoc_metadata demo_request_md = Inr hb"
    using demo_request_block by blast
  have len: "length (header_Write (trailers_of (first_headers failing_handler) [])) < 2 ^ 32"
    unfolding failing_text by simp
  note served_failure_over_websocket [OF unary_demo_def c _ demo_request_headers hb _ _ unanswered_demo
      failing_text(4) refl len, unfolded failing_text(1), OF _ _ _ failing_text(2)]
  from this [of "[7]" "Num 12" "[]" "[]", THEN conjunct2, THEN conjunct2] failing_text(3)
  have "outputs (user (fold (ws_handle (unary_demo (ws_call (\<lambda>_. None))))
      (Opened # map Received (served_over_ws failing_handler (demo_conn [])) @ [Closed]) c)) =
    [\<lparr>out_status = Num 12, out_statusMessage = [], out_headers = md_copy assoc_metadata failed_md,
      out_message = None, out_trailers = md_copy assoc_metadata failed_md\<rparr>]"
    by (simp del: fold_simps ws_handle.simps list.map append.simps)
  moreover have "md_copy assoc_metadata failed_md = failed_md" by simp
  ultimately have "outputs (user (fold (ws_handle (unary_demo (ws_call (\<lambda>_. None))))
      (Opened # map Received (served_over_ws failing_handler (demo_conn [])) @ [Closed]) c)) =
    [\<lparr>out_status = Num 12, out_statusMessage = [], out_headers = failed_md, out_message = None,
      out_trailers = failed_md\<rparr>]" by (simp only:)
  with c show ?thesis by blast
qed

text \<open>What was committed stays.\<close>

definition commit_status :: "handler_op \<Rightarrow> int" where
  "commit_status a = (case a of WriteHeader st \<Rightarrow> st | _ \<Rightarrow> 200)"

lemma gw_wrapped_keeps:
  "rwCommitted (wrapped s) = Some x \<Longrightarrow> rwCommitted (wrapped (wrapped_Write b s)) = Some x"
  "rwCommitted (wrapped s) = Some x \<Longrightarrow> rwCommitted (wrapped (flushWriter s)) = Some x"
  "rwCommitted (wrapped s) = Some x \<Longrightarrow> rwCommitted (wrapped (prepareHeaders s)) = Some x"
  by (simp_all add: wrapped_Write_def flushWriter_def base64_Write_def base64_Flush_def rw_Write_def
      rw_WriteHeader_def rw_Flush_def prepareHeaders_def Let_def split: option.split prod.split)

lemma gw_op_keeps:
  "rwCommitted (wrapped s) = Some x \<Longrightarrow> rwCommitted (wrapped (gw_handler_op a s)) = Some x"
  by (cases a)
    (simp_all add: gw_Write_def gw_WriteHeader_def gw_Flush_def rw_WriteHeader_def gw_wrapped_keeps Let_def)

lemma gw_ops_keep:
  "rwCommitted (wrapped s) = Some x \<Longrightarrow> rwCommitted (wrapped (fold gw_handler_op ops s)) = Some x"
  by (induction ops arbitrary: s) (simp_all add: gw_op_keeps)

lemma gw_finish_keeps:
  "rwCommitted (wrapped s) = Some x \<Longrightarrow> rwCommitted (wrapped (finishRequest s)) = Some x"
  by (simp add: finishRequest_def copyTrailersToPayload_def gw_WriteHeader_def rw_WriteHeader_def
      gw_wrapped_keeps Let_def)

lemma gw_commit_answer:
  "gw_ready w0 s \<Longrightarrow> gw_committed s = None \<Longrightarrow> commits a \<Longrightarrow>
     rwCommitted (wrapped (gw_handler_op a s)) = Some (commit_status a, answer_headers w0 (gwHeaders s))"
  by (cases a)
    (auto simp: gw_writer_defs commit_status_def Let_def simp del: go_Cons split: if_splits)

lemma served_over_http_eq:
  assumes "handler_run pre a post ds"
  shows "rwBody (served_over_http (pre @ a # post) w0) =
      bodies (a # post) @ frame_messages (trailers_of (last_headers pre a post)
        (headerKeys (answer_headers w0 (first_headers pre))))"
    and "rwCommitted (served_over_http (pre @ a # post) w0) =
      Some (commit_status a, answer_headers w0 (first_headers pre))"
proof -
  let ?s = "newGrpcWebResponse \<lparr>rwHeader = w0, rwCommitted = None, rwBody = []\<rparr> False"
  let ?d = "fold gw_handler_op pre ?s"
  have s: "gw_ready w0 ?s" "gw_committed ?s = None" "gwHeaders ?s = []" "rwBody (wrapped ?s) = []"
    by (simp_all add: gw_ready_def gw_committed_def newGrpcWebResponse_def)
  note h = assms [unfolded handler_run_def]
  from gw_writer.response_emitted [OF s(1,2), of pre a post] h s(3,4)
  show "rwBody (served_over_http (pre @ a # post) w0) =
      bodies (a # post) @ frame_messages (trailers_of (last_headers pre a post)
        (headerKeys (answer_headers w0 (first_headers pre))))"
    by (simp add: served_over_http_def first_headers_def last_headers_def)
  have d: "gw_ready w0 ?d" "gw_committed ?d = None" "gwHeaders ?d = first_headers pre"
    using gw_writer.acts_headers [OF s(1), of pre] gw_writer.acts_quiet [OF s(1,2), of pre] h s(3)
    by (simp_all add: first_headers_def)
  from gw_commit_answer [OF d(1,2), of a] h d(3) gw_ops_keep gw_finish_keeps
  show "rwCommitted (served_over_http (pre @ a # post) w0) =
      Some (commit_status a, answer_headers w0 (first_headers pre))"
    by (simp add: served_over_http_def)
qed

definition any_xhr :: xhr_environment where
  "any_xhr = \<lparr>hasXMLHttpRequest = True, assignType = (\<lambda>_. None), hasOverrideMimeType = True\<rparr>"

text \<open>
  C18. The two ends of a \<^verbatim>\<open>unary\<close> call over HTTP: the server answers with the status the handler
  wrote and its headers, and its body, in any cut of the network, leads this client over
  \<^verbatim>\<open>XMLHttpRequest\<close> to exactly one output, with the last message and the trailers, which are the
  headers set after those of the answer.
\<close>

theorem served_response_over_http:
  assumes "unary (unary_env M sl md (xhr_call B M) body) (Some (XhrTransport V cr)) df host request arg u
      = (None, Some c)"
    and "bodies_in observing body"
    and "handler_run pre a post ds"
    and "A = answer_headers w0 (first_headers pre)" "T = trailers_of (last_headers pre a post) (headerKeys A)"
    and "md_of_text M block = Inr h"
    and "commit_status a \<noteq> 0" "headers_code (getStatusFromHeaders M h) (commit_status a) = code OK"
    and "concat cs = concat (rwBody (served_over_http (pre @ a # post) w0))"
    and "length (header_Write T) < 2 ^ 32" "parseTrailerData M (header_Write T) = Inr mt"
    and "list_all (\<lambda>d. length d < 2 ^ 32) ds" "list_all2 (\<lambda>d r. deserializeBinary md d = Inr r) ds rs"
    and "status_of M (md_copy M mt) = Some (s, msg)"
  shows "rwCommitted (served_over_http (pre @ a # post) w0) = Some (commit_status a, A) \<and>
    outputs (user (fold (xhr_handle B (unary_env M sl md (xhr_call B M) body))
            (HeadersReceived block (commit_status a) # map Progress cs @ [LoadEnd]) c)) =
      [\<lparr>out_status = s, out_statusMessage = msg, out_headers = h,
        out_message = (if rs = [] then None else Some (last rs)), out_trailers = md_copy M mt\<rparr>]"
proof
  show "rwCommitted (served_over_http (pre @ a # post) w0) = Some (commit_status a, A)"
    using served_over_http_eq(2) [OF assms(3)] by (simp add: assms(4))
  have "concat (bodies (a # post)) = concat (map (\<lambda>d. frame_bytes (0, d)) ds)"
    using assms(3) by (simp add: handler_run_def)
  then have "concat cs = response_stream ds (header_Write T)"
    unfolding assms(9) served_over_http_eq(1) [OF assms(3)] assms(4) [symmetric] assms(5) [symmetric]
    by (rule response_stream_pieces)
  from unary_over_xhr [OF assms(1,2,6,7,8,12,10) this assms(13,11,14)]
  show "outputs (user (fold (xhr_handle B (unary_env M sl md (xhr_call B M) body))
            (HeadersReceived block (commit_status a) # map Progress cs @ [LoadEnd]) c)) =
      [\<lparr>out_status = s, out_statusMessage = msg, out_headers = h,
        out_message = (if rs = [] then None else Some (last rs)), out_trailers = md_copy M mt\<rparr>]" .
qed

theorem served_response_over_http_witness:
  "\<exists>c. unary (unary_demo (xhr_call xhr_demo_browser assoc_metadata)) (Some (XhrTransport any_xhr False))
       (XhrTransport any_xhr False) [] [7] None () = (None, Some c) \<and>
     outputs (user (fold (xhr_handle xhr_demo_browser (unary_demo (xhr_call xhr_demo_browser assoc_metadata)))
       [HeadersReceived [] 200, Progress (concat (rwBody (served_over_http (demo_pre @ demo_commit # demo_post) []))),
        LoadEnd] c)) =
     [\<lparr>out_status = Num 0, out_statusMessage = [], out_headers = [], out_message = Some [5],
       out_trailers = cost_md\<rparr>]"
proof -
  let ?E = "unary_demo (xhr_call xhr_demo_browser assoc_metadata)"
  let ?u = "unary ?E (Some (XhrTransport any_xhr False)) (XhrTransport any_xhr False) [] [7] None ()"
  have "fst ?u = None" by code_simp
  moreover have "\<exists>t. XhrTransport any_xhr False (request_url [] unary_method) =
      (Inr t :: assoc xhr_transport result)"
    by (simp add: XhrTransport_def detectXHROverrideMimeTypeSupport_def any_xhr_def)
  then have "snd ?u \<noteq> None"
    by (auto simp: unary_no_client unary_demo_def createTransport_def)
  ultimately obtain c where c: "?u = (None, Some c)" by (metis not_None_eq prod.collapse)
  have md: "md_of_text assoc_metadata [] = Inr []" by code_simp
  have len: "length (header_Write (demo_trailers (headerKeys (answer_headers [] (first_headers demo_pre))))) < 2 ^ 32"
    unfolding demo_texts by simp
  have st: "commit_status demo_commit = 200" by (simp add: commit_status_def)
  have ok: "headers_code (getStatusFromHeaders assoc_metadata []) 200 = code OK" by code_simp
  note served_response_over_http [OF c [unfolded unary_demo_def] _ demo_handler refl refl md _ _ _ len,
      unfolded demo_texts, OF _ _ _ _ demo_read(1), where rs = "[[5]]" and s = "Num 0" and msg = "[]" and
        cs = "[concat (rwBody (served_over_http (demo_pre @ demo_commit # demo_post) []))]"]
  from this c demo_read(3) show ?thesis
    by (simp add: st ok unary_demo_def)
qed

section \<open>A request over HTTP\<close>

lemma endpoint_of_path:
  assumes "47 \<notin> set svc" "47 \<notin> set m" "m \<noteq> []"
  shows "getGRPCEndpoint (p @ 47 # svc @ 47 # m) = 47 # svc @ 47 # m"
proof -
  have "hd (rev m) \<noteq> 47" "rev m \<noteq> []"
    using assms(2,3) by (simp_all add: hd_rev) (metis last_in_set)
  then have trim: "dropWhile (\<lambda>b. b = 47) (rev m @ xs) = rev m @ xs" for xs
    by (cases "rev m") simp_all
  have seg: "takeWhile (\<lambda>b. b \<noteq> 47) (rev s @ 47 # xs) = rev s" if "47 \<notin> set s" for s xs :: bytes
    using until_byte [of 47 "rev s"] that by simp
  show ?thesis
    using seg [OF assms(1)] seg [OF assms(2)] by (simp add: getGRPCEndpoint_def trim Let_def)
qed

text \<open>
  A request this client makes over HTTP is recognised: a \<^verbatim>\<open>POST\<close> that carries the content
  type \<^verbatim>\<open>start\<close> sets goes to the gRPC-Web handler, which passes it on as a gRPC request for
  the method the client named, below any path prefix if the server allows one, with every other
  header untouched and without a content length.
\<close>

theorem http_request_recognised:
  assumes "metadata_laws M" "requestHeaders_of M arg = Inr h"
    and "reqMethod req = go ''POST''"
    and "map_of (reqHeader req) content_type_key =
      Some [ascii (js_join (js '', '') (md_get M h (js ''content-type'')))]"
    and "\<not> IsGrpcWebSocketRequest req"
    and "reqPath req = p @ 47 # ascii (serviceName md) @ 47 # ascii (methodName md)"
    and "47 \<notin> set (ascii (serviceName md))" "47 \<notin> set (ascii (methodName md))" "methodName md \<noteq> []"
  shows "ServeHTTP S req = ToGrpcWebHandler \<and>
    (\<exists>r. HandleGrpcWebRequest S req = (r, False) \<and>
      reqMethod r = go ''POST'' \<and> reqProto r = (2, 0) \<and>
      reqPath r = (if allowNonRootResources S
        then 47 # ascii (serviceName md) @ 47 # ascii (methodName md) else reqPath req) \<and>
      map_of (reqHeader r) content_type_key = Some [go ''application/grpc+proto''] \<and>
      map_of (reqHeader r) content_length_key = None \<and>
      (\<forall>k. k \<noteq> content_type_key \<and> k \<noteq> content_length_key \<longrightarrow>
        map_of (reqHeader r) k = map_of (reqHeader req) k))"
proof -
  let ?ct = "go ''application/grpc-web+proto''"
  have "ascii (js_join (js '', '') (md_get M h (js ''content-type''))) = ?ct"
    unfolding request_content_type_get [OF assms(1,2)] by code_simp
  with assms(4) have ct: "header_get (go ''content-type'') (reqHeader req) = ?ct"
    by (simp add: header_get_def del: go_Cons js_Cons)
  have t: "\<not> prefix grpcWebTextContentType ?ct" "prefix grpcWebContentType ?ct"
    "Replace1 ?ct grpcWebContentType grpcContentType = go ''application/grpc+proto''"
    by code_simp+
  obtain r isText where r: "hackIntoNormalGrpcRequest req = (r, isText)" by fastforce
  note hack = hack_header [OF r, unfolded ct]
  have "isText = False" using hack(4) t(1) by blast
  moreover have "ascii (methodName md) \<noteq> []" using assms(9) by (simp add: ascii_def)
  moreover have "endpointFunc S r = (if allowNonRootResources S
      then 47 # ascii (serviceName md) @ 47 # ascii (methodName md) else reqPath req)"
    using endpoint_of_path [OF assms(7,8) calculation(2)] assms(6) hack(6) by (simp add: endpointFunc_def)
  moreover have "ServeHTTP S req = ToGrpcWebHandler"
    using assms(3,5) t(2) by (simp add: ServeHTTP_def IsGrpcWebRequest_def ct del: go_Cons)
  ultimately show ?thesis
    using hack t(3) r assms(3) by (simp add: HandleGrpcWebRequest_def del: go_Cons)
qed

definition demo_post_request :: go_request where
  "demo_post_request = \<lparr>reqMethod = go ''POST'', reqPath = go ''/api/s/m'', reqProto = (1, 1),
     reqHeader = [(go ''Content-Type'', [go ''application/grpc-web+proto'']), (go ''Content-Length'', [go ''6''])]\<rparr>"

theorem http_request_recognised_witness:
  "ServeHTTP demo_options demo_post_request = ToGrpcWebHandler \<and>
     reqPath (fst (HandleGrpcWebRequest demo_options demo_post_request)) = go ''/s/m''"
proof -
  have "map_of (reqHeader demo_post_request) content_type_key =
      Some [ascii (js_join (js '', '') (md_get assoc_metadata demo_request_md (js ''content-type'')))]"
    "\<not> IsGrpcWebSocketRequest demo_post_request"
    "reqPath demo_post_request = go ''/api'' @ 47 # ascii (serviceName unary_method) @ 47 # ascii (methodName unary_method)"
    "47 \<notin> set (ascii (serviceName unary_method))" "47 \<notin> set (ascii (methodName unary_method))"
    "methodName unary_method \<noteq> []" "reqMethod demo_post_request = go ''POST''"
    "47 # ascii (serviceName unary_method) @ 47 # ascii (methodName unary_method) = go ''/s/m''"
    "allowNonRootResources demo_options"
    by code_simp+
  note d = this
  from http_request_recognised [OF assoc_metadata_laws demo_request_headers d(7,1-6), of demo_options] d(8,9)
  show ?thesis by auto
qed

end
