(* ===== verification/GoText.thy ===== *)
theory GoText
  imports GoServer_Streams
begin

text \<open>
  The text format of \<^verbatim>\<open>go/grpcweb/grpc_web_response.go\<close> is the binary format in base64: for every
  handler, a reader that decodes the body of a text response, a sequence of padded parts, gets the
  body of the binary response.
\<close>

section \<open>Decoding\<close>

text \<open>The specification: groups of four characters, each of which may be padded.\<close>

definition base64_value :: "byte \<Rightarrow> nat option" where
  "base64_value ch = List.find (\<lambda>n. base64_char n = ch) [0..<64]"

definition decode_group :: "byte \<Rightarrow> byte \<Rightarrow> byte \<Rightarrow> byte \<Rightarrow> bytes option" where
  "decode_group c1 c2 c3 c4 =
     (case (base64_value c1, base64_value c2, base64_value c3, base64_value c4) of
        (Some p, Some q, Some r, Some s) \<Rightarrow>
          (let v = p * 262144 + q * 4096 + r * 64 + s
           in Some [of_nat (v div 65536), of_nat (v div 256 mod 256), of_nat (v mod 256)])
      | (Some p, Some q, Some r, None) \<Rightarrow>
          if c4 = 61
          then (let v = p * 4096 + q * 64 + r in Some [of_nat (v div 1024), of_nat (v div 4 mod 256)])
          else None
      | (Some p, Some q, None, _) \<Rightarrow>
          if c3 = 61 \<and> c4 = 61 then Some [of_nat ((p * 64 + q) div 16)] else None
      | _ \<Rightarrow> None)"

fun decode_parts :: "bytes \<Rightarrow> bytes option" where
  "decode_parts [] = Some []"
| "decode_parts (c1 # c2 # c3 # c4 # cs) =
     (case (decode_group c1 c2 c3 c4, decode_parts cs) of
        (Some bs, Some bs') \<Rightarrow> Some (bs @ bs')
      | _ \<Rightarrow> None)"
| "decode_parts _ = None"

lemma decode_parts_append:
  "decode_parts xs = Some bs \<Longrightarrow> decode_parts (xs @ ys) = map_option ((@) bs) (decode_parts ys)"
proof (induction xs arbitrary: bs rule: decode_parts.induct)
  case 1
  then show ?case by (cases "decode_parts ys") simp_all
next
  case (2 c1 c2 c3 c4 cs)
  then show ?case by (auto split: option.splits)
qed simp_all

lemma base64_characters: "list_all (\<lambda>n. base64_value (base64_char n) = Some n) [0..<64] \<and> base64_value 61 = None"
  by code_simp

lemma base64_value_char: "n < 64 \<Longrightarrow> base64_value (base64_char n) = Some n" "base64_value 61 = None"
  using base64_characters by (auto simp: list_all_iff)

lemma sextet:
  fixes v :: nat
  shows "v div 64 * 64 + v mod 64 = v" "v div 4096 * 64 + v div 64 mod 64 = v div 64"
    "v div 262144 * 64 + v div 4096 mod 64 = v div 4096"
  using div_mult_mod_eq [of "v div 64" 64] div_mult_mod_eq [of "v div 4096" 64]
  by (simp_all add: div_mult2_eq [symmetric])

lemma three_sextets:
  fixes v :: nat
  shows "v div 262144 * 262144 + v div 4096 mod 64 * 4096 + v div 64 mod 64 * 64 + v mod 64 = v"
    "v div 4096 * 4096 + v div 64 mod 64 * 64 + v mod 64 = v"
  using sextet [of v] by linarith+

lemma div_digit: "y < m \<Longrightarrow> (x * m + y) div m = (x :: nat)"
  by simp

lemma mod_digit: "y < m \<Longrightarrow> (x * m + y) mod m = (y :: nat)"
  by simp

lemma base_256:
  fixes x y z :: nat
  assumes "y < 256" "z < 256"
  shows "(x * 65536 + y * 256 + z) div 65536 = x" "(x * 65536 + y * 256 + z) div 256 mod 256 = y"
    "(x * 65536 + y * 256 + z) mod 256 = z" "(x * 1024 + y * 4) div 1024 = x" "(x * 1024 + y * 4) div 4 mod 256 = y"
proof -
  have v: "x * 65536 + y * 256 + z = (x * 256 + y) * 256 + z"
    "x * 65536 + y * 256 + z = x * 65536 + (y * 256 + z)" "x * 1024 + y * 4 = (x * 256 + y) * 4 + 0"
    by simp_all
  show "(x * 65536 + y * 256 + z) div 65536 = x"
    unfolding v(2) by (rule div_digit) (use assms in linarith)
  show "(x * 65536 + y * 256 + z) div 256 mod 256 = y"
    unfolding v(1) div_digit [OF assms(2)] by (rule mod_digit [OF assms(1)])
  show "(x * 65536 + y * 256 + z) mod 256 = z"
    unfolding v(1) by (rule mod_digit [OF assms(2)])
  show "(x * 1024 + y * 4) div 1024 = x"
    by (rule div_digit) (use assms in linarith)
  show "(x * 1024 + y * 4) div 4 mod 256 = y"
    unfolding v(3) by (subst div_digit, simp) (rule mod_digit [OF assms(1)])
qed

lemma top_sextet:
  fixes x y z :: nat
  assumes "x < 256" "y < 256" "z < 256"
  shows "(x * 65536 + y * 256 + z) div 262144 < 64" "(x * 1024 + y * 4) div 4096 < 64" "x * 16 div 64 < 64"
  by (rule less_mult_imp_div_less, use assms in linarith)+

lemma decode_one_group:
  assumes "bs \<noteq> []" "length bs \<le> 3"
  shows "decode_parts (base64_group bs) = Some bs"
proof -
  from assms consider (three) a b c where "bs = [a, b, c]" | (two) a b where "bs = [a, b]" | (one) a where "bs = [a]"
    by (auto simp: le_Suc_eq numeral_3_eq_3 length_Suc_conv)
  then show ?thesis
  proof cases
    case three
    let ?v = "unat a * 65536 + unat b * 256 + unat c"
    have "?v div 262144 < 64" by (rule top_sextet [OF byte_bound byte_bound byte_bound])
    then show ?thesis
      using base_256 [OF byte_bound [of b] byte_bound [of c], of "unat a"] three_sextets(1) [of ?v]
      by (simp add: three Let_def decode_group_def base64_value_char)
  next
    case two
    let ?v = "unat a * 1024 + unat b * 4"
    have "?v div 4096 < 64" by (rule top_sextet [OF byte_bound byte_bound byte_bound])
    then show ?thesis
      using base_256 [OF byte_bound [of b] byte_bound [of b], of "unat a"] three_sextets(2) [of ?v]
      by (simp add: two Let_def decode_group_def base64_value_char)
  next
    case one
    let ?v = "unat a * 16"
    have "?v div 64 < 64" by (rule top_sextet [OF byte_bound byte_bound byte_bound])
    then show ?thesis
      using sextet(1) [of ?v]
      by (simp add: one Let_def decode_group_def base64_value_char)
  qed
qed

lemma encoder_Write_decoded:
  "encoder_Write bs = (out, held) \<Longrightarrow>
     length held < 3 \<and> (\<exists>ds. decode_parts out = Some ds \<and> ds @ held = bs)"
proof (induction bs arbitrary: out held rule: encoder_Write.induct)
  case (1 a b c bs)
  obtain out' held' where e: "encoder_Write bs = (out', held')" by fastforce
  with 1 have "length held' < 3" "\<exists>ds. decode_parts out' = Some ds \<and> ds @ held' = bs" by blast+
  moreover from 1(2) e have "out = base64_group [a, b, c] @ out'" "held = held'" by auto
  moreover have "decode_parts (base64_group [a, b, c]) = Some [a, b, c]" by (rule decode_one_group) simp_all
  ultimately show ?case by (auto simp: decode_parts_append simp del: base64_group.simps)
qed auto

section \<open>Headers that differ in the content type\<close>

definition same_but_type :: "go_header \<Rightarrow> go_header \<Rightarrow> bool" where
  "same_but_type h g \<longleftrightarrow>
     list_all2 (\<lambda>(k, vv) (k', vv'). k = k' \<and> (ToLower k = go ''content-type'' \<or> vv = vv')) h g"

lemma same_but_type_refl [simp]: "same_but_type h h"
  by (auto simp: same_but_type_def intro: list.rel_refl)

lemma same_but_type_keys: "same_but_type h g \<Longrightarrow> headerKeys h = headerKeys g"
  unfolding same_but_type_def headerKeys_def
  by (induction h g rule: list_all2_induct) auto

lemma same_but_type_update:
  "same_but_type h g \<Longrightarrow> ToLower k = go ''content-type'' \<or> vv = vv' \<Longrightarrow>
     same_but_type (AList.update k vv h) (AList.update k vv' g)"
  unfolding same_but_type_def
  by (induction h g rule: list_all2_induct) auto

lemma lower_upper: "lower_byte (upper_byte b) = lower_byte b" "lower_byte (lower_byte b) = lower_byte b"
proof -
  have up: "65 \<le> b - 32 \<and> b - 32 \<le> 90" if "97 \<le> b" "b \<le> 122"
    using that by (simp add: word_le_nat_alt unat_sub) arith
  have low: "\<not> b + 32 \<le> 90" if "65 \<le> b" "b \<le> 90"
    using that by (simp add: word_le_nat_alt unat_word_ariths)
  have caps: "\<not> b \<le> 90" if "97 \<le> b"
    using that by (simp add: word_le_nat_alt)
  show "lower_byte (upper_byte b) = lower_byte b"
    using up caps by (simp add: lower_byte_def upper_byte_def)
  show "lower_byte (lower_byte b) = lower_byte b"
    using low by (simp add: lower_byte_def)
qed

lemma lower_canonical: "ToLower (CanonicalHeaderKey k) = ToLower k"
proof -
  have "ToLower (canonical u k) = ToLower k" for u
    by (induction u k rule: canonical.induct) (simp_all add: ToLower_def lower_upper)
  then show ?thesis by (simp add: CanonicalHeaderKey_def)
qed

text \<open>The options with which \<open>prepareHeaders\<close> copies, by the content type of the format.\<close>

definition prepare_options :: "go_string \<Rightarrow> copy_option list" where
  "prepare_options ct =
     [skipKeys [go ''trailer''], replaceInKeys (go ''Trailer:'') [],
      replaceInVals (go ''content-type'') (go ''application/grpc'') ct, keyCase CanonicalHeaderKey]"

definition prepare_replacers :: "go_string \<Rightarrow> replacer list" where
  "prepare_replacers ct = replacers (fold (\<lambda>opt. opt) (prepare_options ct) \<lparr>optSkipKeys = [], replacers = []\<rparr>)"

lemma replaced_same_but_type:
  assumes "apply_replacers (prepare_replacers ct) kv = (k, vv)"
    and "apply_replacers (prepare_replacers ct') kv = (k', vv')"
  shows "k = k' \<and> (ToLower k = go ''content-type'' \<or> vv = vv')"
proof -
  have ct: "ToLower (go ''content-type'') = go ''content-type''" by code_simp
  from assms show ?thesis
    by (cases kv)
      (auto simp: prepare_replacers_def prepare_options_def skipKeys_def replaceInKeys_def replaceInVals_def
        keyCase_def apply_replacers_def lower_canonical ct simp del: go_Cons split: if_splits)
qed

lemma fold_related:
  "R d d' \<Longrightarrow> (\<And>x d d'. R d d' \<Longrightarrow> R (f x d) (g x d')) \<Longrightarrow> R (fold f xs d) (fold g xs d')"
  by (induction xs arbitrary: d d') simp_all

lemma copyHeader_same_but_type:
  assumes "same_but_type d d'"
  shows "same_but_type (copyHeader d h (prepare_options ct)) (copyHeader d' h (prepare_options ct'))"
proof -
  have skip: "optSkipKeys (fold (\<lambda>opt. opt) (prepare_options ct) \<lparr>optSkipKeys = [], replacers = []\<rparr>) =
      optSkipKeys (fold (\<lambda>opt. opt) (prepare_options ct') \<lparr>optSkipKeys = [], replacers = []\<rparr>)" for ct ct'
    by (simp add: prepare_options_def skipKeys_def replaceInKeys_def replaceInVals_def keyCase_def)
  show ?thesis
    unfolding copyHeader_def Let_def prepare_replacers_def [symmetric] skip [of ct ct']
  proof (rule fold_related [where R = same_but_type, OF assms], goal_cases)
    case (1 kv d d')
    obtain k2 vv2 k2' vv2' where
      r: "apply_replacers (prepare_replacers ct) kv = (k2, vv2)" "apply_replacers (prepare_replacers ct') kv = (k2', vv2')"
      by fastforce
    from replaced_same_but_type [OF r] have k: "k2' = k2" and
      "same_but_type (AList.update k2 vv2 d) (AList.update k2 vv2' d')"
      using same_but_type_update [OF 1, of k2 vv2 vv2'] by blast+
    with r [unfolded k] 1 show ?case by (cases kv) simp
  qed
qed

lemma prepareHeaders_same_but_type:
  assumes "same_but_type (rwHeader (wrapped t)) (rwHeader (wrapped b))" "gwHeaders t = gwHeaders b"
  shows "same_but_type (rwHeader (wrapped (prepareHeaders t))) (rwHeader (wrapped (prepareHeaders b)))"
  using copyHeader_same_but_type [OF assms(1), of "gwHeaders b" "gwContentType t" "gwContentType b"] assms(2)
  by (auto simp: prepareHeaders_def Let_def header_set_def prepare_options_def [symmetric] simp del: go_Cons
      intro!: same_but_type_update dest: same_but_type_keys)

lemma prepareHeaders_fields [simp]:
  "wroteHeaders (prepareHeaders w) = wroteHeaders w" "wroteBody (prepareHeaders w) = wroteBody w"
  "gwHeaders (prepareHeaders w) = gwHeaders w" "encoder (prepareHeaders w) = encoder w"
  "rwBody (wrapped (prepareHeaders w)) = rwBody (wrapped w)"
  "rwCommitted (wrapped (prepareHeaders w)) = rwCommitted (wrapped w)"
  by (simp_all add: prepareHeaders_def Let_def)

section \<open>The two formats side by side\<close>

text \<open>
  A text response and the binary response of the same handler, so far: what the encoder holds back
  is the only difference of the decoded bodies.  The text response may commit later than the binary
  one, but then with the status that a \<^verbatim>\<open>Write\<close> implies.
\<close>

definition same_commit :: "grpc_web_response \<Rightarrow> grpc_web_response \<Rightarrow> bool" where
  "same_commit t b \<longleftrightarrow>
     (case rwCommitted (wrapped b) of
        None \<Rightarrow> rwCommitted (wrapped t) = None
      | Some (st, h) \<Rightarrow>
          (case rwCommitted (wrapped t) of
             None \<Rightarrow> st = 200 \<and> same_but_type (rwHeader (wrapped t)) h
           | Some (st', h') \<Rightarrow> st' = st \<and> same_but_type h' h))"

definition same_body :: "bytes \<Rightarrow> http_writer \<Rightarrow> http_writer \<Rightarrow> bool" where
  "same_body held t b \<longleftrightarrow>
     length held < 3 \<and> (\<exists>ds. decode_parts (concat (rwBody t)) = Some ds \<and> ds @ held = concat (rwBody b))"

definition same_state :: "grpc_web_response \<Rightarrow> grpc_web_response \<Rightarrow> bool" where
  "same_state t b \<longleftrightarrow>
     wroteHeaders t = wroteHeaders b \<and> wroteBody t = wroteBody b \<and> gwHeaders t = gwHeaders b \<and>
     (wroteBody b \<longrightarrow> wroteHeaders b) \<and> encoder b = None \<and>
     same_but_type (rwHeader (wrapped t)) (rwHeader (wrapped b)) \<and>
     (\<exists>held. encoder t = Some held \<and> same_body held (wrapped t) (wrapped b))"

lemma same_body_Write:
  assumes "same_body held t b" "encoder_Write (held @ bs) = (out, held')"
  shows "same_body held' (t\<lparr>rwBody := rwBody t @ [out]\<rparr>) (b\<lparr>rwBody := rwBody b @ [bs]\<rparr>)"
proof -
  from assms(1) obtain ds where ds: "decode_parts (concat (rwBody t)) = Some ds" "ds @ held = concat (rwBody b)"
    by (auto simp: same_body_def)
  from encoder_Write_decoded [OF assms(2)] obtain es where
    es: "length held' < 3" "decode_parts out = Some es" "es @ held' = held @ bs" by blast
  have "(ds @ es) @ held' = concat (rwBody b) @ bs" using ds(2) es(3) by (metis append.assoc)
  with es ds(1) show ?thesis by (simp add: same_body_def decode_parts_append)
qed

lemma same_body_Close:
  assumes "same_body held t b"
  shows "same_body [] (t\<lparr>rwBody := rwBody t @ [base64_group held]\<rparr>) b"
  using assms decode_one_group [of held]
  by (cases "held = []") (auto simp: same_body_def decode_parts_append)

lemma same_wrapped_Write:
  assumes "same_state t b" "same_commit t b"
  shows "same_state (wrapped_Write bs t) (wrapped_Write bs b) \<and> same_commit (wrapped_Write bs t) (wrapped_Write bs b)"
proof -
  obtain held where held: "encoder t = Some held" "same_body held (wrapped t) (wrapped b)"
    using assms(1) by (auto simp: same_state_def)
  obtain out held' where out: "encoder_Write (held @ bs) = (out, held')" by fastforce
  have kept: "same_body held' (wrapped t) ((wrapped b)\<lparr>rwBody := rwBody (wrapped b) @ [bs]\<rparr>)" if "out = []"
    using same_body_Write [OF held(2) out] that by (simp add: same_body_def)
  from assms held(1) out same_body_Write [OF held(2) out] kept show ?thesis
    by (auto simp: same_state_def wrapped_Write_def base64_Write_def rw_Write_def rw_WriteHeader_def same_commit_def
        same_body_def split: option.splits)
qed

lemma flushWriter_fields:
  "encoder w \<noteq> None \<Longrightarrow> encoder (flushWriter w) = Some []"
  "rwCommitted (wrapped (flushWriter w)) \<noteq> None"
  "encoder (wrapped_Write bs w) = None \<longleftrightarrow> encoder w = None"
  by (auto simp: flushWriter_def base64_Flush_def rw_Flush_def rw_Write_def rw_WriteHeader_def wrapped_Write_def
      split: option.split prod.split)

lemma same_flushWriter:
  assumes "same_state t b" "same_commit t b"
  shows "same_state (flushWriter t) (flushWriter b) \<and> same_commit (flushWriter t) (flushWriter b)"
proof -
  obtain held where held: "encoder t = Some held" "same_body held (wrapped t) (wrapped b)"
    using assms(1) by (auto simp: same_state_def)
  from assms held(1) same_body_Close [OF held(2)] held(2) show ?thesis
    by (auto simp: same_state_def flushWriter_def base64_Flush_def rw_Flush_def rw_Write_def rw_WriteHeader_def
        same_commit_def same_body_def split: option.splits)
qed

lemma same_prepareHeaders:
  assumes "same_state t b" "same_commit t b" "rwCommitted (wrapped b) = None \<or> rwCommitted (wrapped t) \<noteq> None"
  shows "same_state (prepareHeaders t) (prepareHeaders b) \<and> same_commit (prepareHeaders t) (prepareHeaders b)"
  using assms prepareHeaders_same_but_type [of t b]
  by (auto simp: same_state_def same_body_def same_commit_def split: option.splits)

lemma same_marked [simp]:
  "same_commit (t\<lparr>wroteBody := x, wroteHeaders := y\<rparr>) (b\<lparr>wroteBody := x, wroteHeaders := y\<rparr>) = same_commit t b"
  "same_commit (t\<lparr>gwHeaders := g\<rparr>) (b\<lparr>gwHeaders := g'\<rparr>) = same_commit t b"
  by (simp_all add: same_commit_def split: option.split)

lemma same_state_marked:
  "same_state t b \<Longrightarrow> same_state (t\<lparr>wroteBody := True, wroteHeaders := True\<rparr>) (b\<lparr>wroteBody := True, wroteHeaders := True\<rparr>)"
  by (simp add: same_state_def)

text \<open>A handler that does not call \<^verbatim>\<open>WriteHeader\<close> once it has written.\<close>

definition is_write_body :: "handler_op \<Rightarrow> bool" where
  "is_write_body a \<longleftrightarrow> body_of a \<noteq> []"

definition headers_first :: "handler_op list \<Rightarrow> bool" where
  "headers_first ops \<longleftrightarrow>
     (\<exists>pre post. ops = pre @ post \<and> list_all (\<lambda>a. \<not> is_write_body a) pre \<and>
        list_all (\<lambda>a. \<not> is_write_header a) post)"

text \<open>Before the first \<^verbatim>\<open>Write\<close> the two commit together.\<close>

definition commit_together :: "grpc_web_response \<Rightarrow> grpc_web_response \<Rightarrow> bool" where
  "commit_together t b \<longleftrightarrow> (wroteHeaders b \<longleftrightarrow> rwCommitted (wrapped b) \<noteq> None) \<and>
     (rwCommitted (wrapped t) = None \<longleftrightarrow> rwCommitted (wrapped b) = None) \<and> \<not> wroteBody b"

lemma gw_WriteHeader_fields [simp]:
  "wroteHeaders (gw_WriteHeader st w)" "wroteBody (gw_WriteHeader st w) = wroteBody w"
  "rwCommitted (wrapped (gw_WriteHeader st w)) \<noteq> None" "encoder (gw_WriteHeader st w) = encoder w"
  by (simp_all add: gw_WriteHeader_def Let_def rw_WriteHeader_def)

lemma same_WriteHeader:
  assumes "same_state t b" "same_commit t b" "rwCommitted (wrapped t) = None \<longleftrightarrow> rwCommitted (wrapped b) = None"
  shows "same_state (gw_WriteHeader st t) (gw_WriteHeader st b) \<and>
    same_commit (gw_WriteHeader st t) (gw_WriteHeader st b)"
proof -
  have p: "same_state (prepareHeaders t) (prepareHeaders b)" "same_commit (prepareHeaders t) (prepareHeaders b)"
    using same_prepareHeaders [OF assms(1,2)] assms(3) by auto
  then have "same_state (gw_WriteHeader st t) (gw_WriteHeader st b)"
    by (simp add: gw_WriteHeader_def rw_WriteHeader_def same_state_def same_body_def Let_def)
  moreover have "same_but_type (rwHeader (wrapped (prepareHeaders t))) (rwHeader (wrapped (prepareHeaders b)))"
    using p(1) by (simp add: same_state_def)
  with p(2) assms(3) have "same_commit (gw_WriteHeader st t) (gw_WriteHeader st b)"
    by (auto simp: gw_WriteHeader_def rw_WriteHeader_def same_commit_def Let_def split: option.splits)
  ultimately show ?thesis ..
qed

lemma flushWriter_flags [simp]:
  "wroteHeaders (flushWriter w) = wroteHeaders w" "wroteBody (flushWriter w) = wroteBody w"
  "wroteHeaders (wrapped_Write bs w) = wroteHeaders w" "wroteBody (wrapped_Write bs w) = wroteBody w"
  by (simp_all add: flushWriter_def wrapped_Write_def split: option.split prod.split)

lemma same_pre_op:
  assumes "same_state t b" "same_commit t b" "commit_together t b" "\<not> is_write_body a"
  shows "same_state (gw_handler_op a t) (gw_handler_op a b) \<and> same_commit (gw_handler_op a t) (gw_handler_op a b) \<and>
    commit_together (gw_handler_op a t) (gw_handler_op a b)"
proof (cases a)
  case (WriteHeader st)
  with same_WriteHeader [OF assms(1,2), of st] assms(3) show ?thesis
    by (auto simp: commit_together_def)
next
  case Flush
  with same_flushWriter [OF assms(1,2)] assms show ?thesis
    using flushWriter_fields(2) [of t] flushWriter_fields(2) [of b]
    by (auto simp: gw_Flush_def commit_together_def same_state_def)
qed (use assms in \<open>auto simp: same_state_def commit_together_def is_write_body_def\<close>)

definition paired :: "grpc_web_response \<Rightarrow> grpc_web_response \<Rightarrow> bool" where
  "paired t b \<longleftrightarrow>
     same_state t b \<and> same_commit t b \<and> (wroteHeaders b \<or> rwCommitted (wrapped b) = None)"

lemma same_post_op:
  assumes "paired t b" "\<not> is_write_header a"
  shows "paired (gw_handler_op a t) (gw_handler_op a b)"
proof (cases a)
  case (WriteBody bs)
  let ?p = "\<lambda>w. (if wroteHeaders w then w else prepareHeaders w)\<lparr>wroteBody := True, wroteHeaders := True\<rparr>"
  have "wroteHeaders t = wroteHeaders b" using assms(1) by (simp add: paired_def same_state_def)
  then have "same_state (?p t) (?p b) \<and> same_commit (?p t) (?p b)"
    using same_prepareHeaders [of t b] assms(1) by (auto simp: same_state_marked paired_def)
  with same_wrapped_Write [of "?p t" "?p b" bs] show ?thesis
    by (simp add: WriteBody gw_Write_def Let_def paired_def)
next
  case Flush
  with same_flushWriter [of t b] assms(1) show ?thesis
    by (auto simp: gw_Flush_def paired_def same_state_def)
qed (use assms in \<open>auto simp: paired_def same_state_def is_write_header_def\<close>)

lemma same_pre:
  "same_state t b \<Longrightarrow> same_commit t b \<Longrightarrow> commit_together t b \<Longrightarrow> list_all (\<lambda>a. \<not> is_write_body a) ops \<Longrightarrow>
     same_state (fold gw_handler_op ops t) (fold gw_handler_op ops b) \<and>
     same_commit (fold gw_handler_op ops t) (fold gw_handler_op ops b) \<and>
     commit_together (fold gw_handler_op ops t) (fold gw_handler_op ops b)"
  by (induction ops arbitrary: t b) (simp_all add: same_pre_op)

lemma same_post:
  "paired t b \<Longrightarrow> list_all (\<lambda>a. \<not> is_write_header a) ops \<Longrightarrow>
     paired (fold gw_handler_op ops t) (fold gw_handler_op ops b)"
  by (induction ops arbitrary: t b) (simp_all add: same_post_op)

lemma same_finish:
  assumes "paired t b"
  shows "same_state (finishRequest t) (finishRequest b) \<and> same_commit (finishRequest t) (finishRequest b) \<and>
    encoder (finishRequest t) = Some [] \<and> rwCommitted (wrapped (finishRequest t)) \<noteq> None"
proof -
  have same: "same_state t b" "same_commit t b" and enc: "encoder t \<noteq> None"
    using assms by (auto simp: paired_def same_state_def)
  show ?thesis
  proof (cases "wroteHeaders b")
    case True
    have "extractTrailingHeaders (gwHeaders t) (rwHeader (wrapped t)) =
        extractTrailingHeaders (gwHeaders b) (rwHeader (wrapped b))"
      using same(1) same_but_type_keys by (auto simp: same_state_def extractTrailingHeaders_def)
    moreover from True same(1) have "wroteHeaders t" by (simp add: same_state_def)
    ultimately show ?thesis
      using True enc same
      by (simp add: finishRequest_def copyTrailersToPayload_def Let_def same_flushWriter same_wrapped_Write
          flushWriter_fields del: not_None_eq)
  next
    case False
    then have "\<not> wroteHeaders t" "\<not> wroteBody t" "\<not> wroteBody b" "rwCommitted (wrapped b) = None"
      "rwCommitted (wrapped t) = None"
      using assms by (auto simp: paired_def same_state_def same_commit_def split: option.splits)
    with False same_WriteHeader [OF same, of 200] enc show ?thesis
      by (simp add: finishRequest_def same_flushWriter flushWriter_fields del: not_None_eq)
  qed
qed

section \<open>Properties\<close>

text \<open>The response of a handler, from the writer \<^verbatim>\<open>net/http\<close> gives the server.\<close>

definition response_in :: "bool \<Rightarrow> handler_op list \<Rightarrow> go_header \<Rightarrow> http_writer" where
  "response_in isTextFormat ops w0 =
     wrapped (finishRequest (fold gw_handler_op ops
       (newGrpcWebResponse \<lparr>rwHeader = w0, rwCommitted = None, rwBody = []\<rparr> isTextFormat)))"

text \<open>
  C29. The text format is the binary format in base64: for every handler that calls \<^verbatim>\<open>WriteHeader\<close>
  before it writes, in any pieces and with any flushes between them, the padded parts of the text
  body decode to the body of the binary response, and status and headers are the same but for the
  content type.
\<close>

theorem text_response_decodes:
  assumes "headers_first ops"
  shows "decode_parts (concat (rwBody (response_in True ops w0))) = Some (concat (rwBody (response_in False ops w0))) \<and>
    (\<exists>st h h'. rwCommitted (response_in True ops w0) = Some (st, h) \<and>
       rwCommitted (response_in False ops w0) = Some (st, h') \<and> same_but_type h h')"
proof -
  let ?new = "newGrpcWebResponse \<lparr>rwHeader = w0, rwCommitted = None, rwBody = []\<rparr>"
  obtain pre post where ops: "ops = pre @ post" "list_all (\<lambda>a. \<not> is_write_body a) pre"
    "list_all (\<lambda>a. \<not> is_write_header a) post"
    using assms by (auto simp: headers_first_def)
  have "same_state (?new True) (?new False)" "same_commit (?new True) (?new False)"
    "commit_together (?new True) (?new False)"
    by (simp_all add: newGrpcWebResponse_def same_state_def same_commit_def commit_together_def same_body_def)
  from same_pre [OF this ops(2)] have "paired (fold gw_handler_op pre (?new True)) (fold gw_handler_op pre (?new False))"
    by (auto simp: commit_together_def paired_def)
  from same_finish [OF same_post [OF this ops(3)]]
  have "same_state (finishRequest (fold gw_handler_op ops (?new True))) (finishRequest (fold gw_handler_op ops (?new False)))"
    "same_commit (finishRequest (fold gw_handler_op ops (?new True))) (finishRequest (fold gw_handler_op ops (?new False)))"
    "encoder (finishRequest (fold gw_handler_op ops (?new True))) = Some []"
    "rwCommitted (wrapped (finishRequest (fold gw_handler_op ops (?new True)))) \<noteq> None"
    by (simp_all add: ops(1))
  then show ?thesis
    by (auto simp: response_in_def same_state_def same_body_def same_commit_def split: option.splits)
qed

definition text_demo :: "handler_op list" where
  "text_demo = [PutHeader (go ''Content-Type'') [go ''application/grpc''], WriteBody [0, 0, 0, 0, 1], Flush,
     WriteBody [5]]"

theorem text_response_decodes_witness:
  "decode_parts (concat (rwBody (response_in True text_demo []))) = Some (concat (rwBody (response_in False text_demo []))) \<and>
     encoder_Write [0, 0, 0, 0, 1] = (go ''AAAA'', [0, 1]) \<and> base64_group [0, 1] = go ''AAE=''"
proof -
  have "headers_first text_demo"
    unfolding headers_first_def text_demo_def
    by (rule exI [where x = "[PutHeader (go ''Content-Type'') [go ''application/grpc'']]"])
      (simp add: is_write_body_def is_write_header_def)
  moreover have "encoder_Write [0, 0, 0, 0, 1] = (go ''AAAA'', [0, 1])" "base64_group [0, 1] = go ''AAE=''"
    by (simp_all add: base64_char_def Let_def)
  ultimately show ?thesis using text_response_decodes by blast
qed

end
