(* ===== verification/Client_Errors.thy ===== *)
theory Client_Errors
  imports Client_Delivery
begin

text \<open>
  What becomes of the errors that callbacks throw.  The client catches them and throws each
  again from a timer of its own (\<^verbatim>\<open>setTimeout(() => { throw e; }, 0)\<close>), so that the loop over
  the callbacks goes on.  Timers of the same delay fire in the order in which they were set:
  the errors that reach the realm as uncaught are those of the trace, in order.
\<close>

section \<open>Invariants of whole callbacks\<close>

text \<open>
  The steps of \<open>micro\<close> cut a callback open.  What relates a callback to the error it throws
  is kept by a callback as a whole; the locale lifts it to the handlers of the transport.
\<close>

locale callback_invariant =
  fixes E :: "('m, 'a, 'req, 'res, 'cb, 'u, 't) env"
    and inv :: "('m, 'res, 'cb, 'u, 't) client \<Rightarrow> bool"
  assumes api_keeps: "inv c \<Longrightarrow> inv (snd (run_action E a c))"
    and invoke_keeps: "inv c \<Longrightarrow> inv (invoke_callback E ev cb c)"
    and completed_keeps: "inv c \<Longrightarrow> inv (c\<lparr>completed := True\<rparr>)"
    and headers_keeps: "inv c \<Longrightarrow> inv (c\<lparr>responseHeaders := h\<rparr>)"
    and trailers_keeps: "inv c \<Longrightarrow> inv (c\<lparr>responseTrailers := h\<rparr>)"
    and parser_keeps: "inv c \<Longrightarrow> inv (c\<lparr>chunkParser := p\<rparr>)"
begin

lemma unless_closed_keeps: "inv c \<Longrightarrow> inv (invoke_unless_closed E ev cb c)"
  by (simp add: invoke_unless_closed_def invoke_keeps)

lemma each_keeps: "inv c \<Longrightarrow> inv (fold (invoke_callback E ev) cbs c)"
  by (induction cbs arbitrary: c) (simp_all add: invoke_keeps)

lemma each_unless_closed_keeps: "inv c \<Longrightarrow> inv (fold (invoke_unless_closed E ev) cbs c)"
  by (induction cbs arbitrary: c) (simp_all add: unless_closed_keeps)

lemma raw_keeps:
  "inv c \<Longrightarrow> inv (rawOnEnd E cd msg m c)"
  "inv c \<Longrightarrow> inv (rawOnError E cd msg m c)"
  "inv c \<Longrightarrow> inv (rawOnHeaders E m c)"
  "inv c \<Longrightarrow> inv (rawOnMessage E r c)"
  by (simp_all add: rawOnEnd_def rawOnError_def rawOnHeaders_def rawOnMessage_def
      each_keeps each_unless_closed_keeps completed_keeps)

lemma onTransportHeaders_keeps: "inv c \<Longrightarrow> inv (onTransportHeaders E h status c)"
  by (simp add: onTransportHeaders_def Let_def raw_keeps headers_keeps)

lemma handle_chunks_keeps: "inv c \<Longrightarrow> inv (snd (handle_chunks E ds c))"
proof (induction ds arbitrary: c)
  case (Cons d ds)
  then show ?case
    by (cases d) (auto simp: Let_def raw_keeps headers_keeps trailers_keeps split: sum.split option.split)
qed simp

lemma onTransportChunk_keeps: "inv c \<Longrightarrow> inv (snd (onTransportChunk E b c))"
  by (auto simp: onTransportChunk_def raw_keeps handle_chunks_keeps parser_keeps
      split: prod.split sum.split)

lemma onTransportEnd_keeps: "inv c \<Longrightarrow> inv (onTransportEnd E c)"
  by (auto simp: onTransportEnd_def Let_def raw_keeps split: option.split)

lemma step_keeps: "inv c \<Longrightarrow> inv (step E i c)"
  by (cases i) (simp_all add: api_keeps onTransportHeaders_keeps onTransportChunk_keeps onTransportEnd_keeps)

lemma actions_keep: "inv c \<Longrightarrow> inv (snd (run_actions E as c))"
proof (induction as arbitrary: c)
  case (Cons a as)
  obtain r c1 where a: "run_action E a c = (r, c1)" by fastforce
  with Cons.prems api_keeps [of c a] have "inv c1" by simp
  with a Cons.IH [of c1] show ?case by (cases r) simp_all
qed simp

end

section \<open>The errors of a run\<close>

fun deferred_errors :: "('m, 'res, 'cb) obs list \<Rightarrow> js_error list" where
  "deferred_errors [] = []"
| "deferred_errors (Deferred e # tr) = e # deferred_errors tr"
| "deferred_errors (Called _ # tr) = deferred_errors tr"
| "deferred_errors (Notified _ _ # tr) = deferred_errors tr"

lemma deferred_errors_append [trace_simps]:
  "deferred_errors (xs @ ys) = deferred_errors xs @ deferred_errors ys"
  by (induction xs rule: deferred_errors.induct) simp_all

text \<open>Callbacks that do nothing to the client but throw, and what a sequence of them throws.\<close>

fun throwing :: "('a, 'req, 'cb) action \<Rightarrow> bool" where
  "throwing (Throw _) = True"
| "throwing _ = False"

definition throwers :: "('m, 'a, 'req, 'res, 'cb, 'u, 't) env \<Rightarrow> bool" where
  "throwers E \<longleftrightarrow> (\<forall>cb ev u. list_all throwing (snd (callback E cb ev u)))"

fun first_error :: "('a, 'req, 'cb) action list \<Rightarrow> js_error list" where
  "first_error (Throw e # as) = [e]"
| "first_error as = []"

fun thrown ::
  "('m, 'a, 'req, 'res, 'cb, 'u, 't) env \<Rightarrow> ('cb \<times> ('m, 'res) cb_event) list \<Rightarrow> 'u \<Rightarrow> js_error list"
where
  "thrown E [] u = []"
| "thrown E ((cb, ev) # evs) u =
     first_error (snd (callback E cb ev u)) @ thrown E evs (fst (callback E cb ev u))"

lemma thrown_append: "thrown E (xs @ ys) u = thrown E xs u @ thrown E ys (replay E xs u)"
  by (induction xs arbitrary: u) (auto simp: replay_def)

lemma throwing_observing: "throwing a \<Longrightarrow> observing a"
  by (cases a) simp_all

lemma throwers_observers: "throwers E \<Longrightarrow> observers E"
  by (auto simp: throwers_def observers_def list_all_iff intro: throwing_observing)

lemma run_actions_throwing:
  "list_all throwing as \<Longrightarrow>
     run_actions E as c = (case first_error as of [] \<Rightarrow> None | e # _ \<Rightarrow> Some e, c)"
  by (cases as rule: first_error.cases) simp_all

lemma invoke_throwing:
  assumes "throwers E"
  shows "invoke_callback E ev cb c = c\<lparr>user := fst (callback E cb ev (user c)),
    trace := trace c @ Notified cb ev # map Deferred (first_error (snd (callback E cb ev (user c))))\<rparr>"
proof -
  obtain u as where b: "callback E cb ev (user c) = (u, as)" by fastforce
  moreover from assms b have "list_all throwing as"
    unfolding throwers_def by (metis snd_conv)
  moreover have "first_error as = [] \<or> (\<exists>e. first_error as = [e])"
    by (cases as rule: first_error.cases) simp_all
  ultimately show ?thesis
    by (auto simp: invoke_callback_def run_actions_throwing)
qed

text \<open>The errors deferred so far are those thrown by the callbacks that were invoked, in order.\<close>

definition accounted ::
  "('m, 'a, 'req, 'res, 'cb, 'u, 't) env \<Rightarrow> 'u \<Rightarrow> ('m, 'res, 'cb, 'u, 't) client \<Rightarrow> bool"
where
  "accounted E u c \<longleftrightarrow> throwers E \<longrightarrow>
     user c = replay E (notified (trace c)) u \<and>
     deferred_errors (trace c) = thrown E (notified (trace c)) u"

lemma run_action_accounted: "accounted E u c \<Longrightarrow> accounted E u (snd (run_action E a c))"
  by (cases rule: run_action_trace [of E a c])
    (simp_all add: accounted_def trace_simps flag_simps)

interpretation errors: callback_invariant E "accounted E u" for E u
proof
  show "accounted E u (invoke_callback E ev cb c)" if "accounted E u c" for ev cb c
  proof -
    have d: "deferred_errors (map Deferred es) = es" "notified (map Deferred es) = []" for es
      by (induction es) simp_all
    show ?thesis
      using that by (auto simp: accounted_def invoke_throwing trace_simps thrown_append replay_append d)
        (simp add: replay_def)
  qed
qed (auto simp: run_action_accounted, auto simp: accounted_def)

lemma driven_accounted:
  assumes "driven E is c d" "accounted E u c"
  shows "accounted E u d"
  by (rule driven_keeps [where P = "accounted E u" and Q = "\<lambda>_. True", OF assms])
    (auto simp: list_all_iff errors.step_keeps, simp add: accounted_def)

end
