(* ===== verification/TestHarness.thy ===== *)
theory TestHarness
  imports Client_Errors Request_Properties Transports
begin

text \<open>
  \<^verbatim>\<open>integration_test/ts/src/util.ts\<close> and \<^verbatim>\<open>testRpcCombinations.ts\<close>: the listener by which the
  test suite observes errors that nothing catches, and the combinations it runs.

  A realm is a browser window, with its \<^verbatim>\<open>onerror\<close>, or a Node process, with its listeners of
  the event \<^verbatim>\<open>uncaughtException\<close>.  Handlers are values: one of the test runner, or the one of a
  listener, by the number of that listener.
\<close>

section \<open>The realm\<close>

datatype 'h error_handler = Runner 'h | Recording nat

record 'h exception_listener =
  isAttached :: bool
  exceptionsCaught :: "js_string list"
  originalWindowHandler :: "'h error_handler option"
  originalProcessHandlers :: "'h error_handler list"

record 'h realm =
  hasWindow :: bool
  onerror :: "'h error_handler option"
  uncaughtListeners :: "'h error_handler list"
  exited :: bool
  runnerTold :: "('h \<times> js_string) list"
  listenersMade :: "nat \<Rightarrow> 'h exception_listener option"

text \<open>\<^verbatim>\<open>processListener\<close> and the function assigned to \<^verbatim>\<open>window.onerror\<close>: \<^verbatim>\<open>exceptionsCaught.push\<close>.\<close>

definition exception_pushed :: "js_string \<Rightarrow> 'h exception_listener \<Rightarrow> 'h exception_listener" where
  "exception_pushed msg l = l\<lparr>exceptionsCaught := exceptionsCaught l @ [msg]\<rparr>"

definition call_handler :: "js_string \<Rightarrow> 'h error_handler \<Rightarrow> 'h realm \<Rightarrow> 'h realm" where
  "call_handler msg h r =
     (case h of
        Runner k \<Rightarrow> r\<lparr>runnerTold := runnerTold r @ [(k, msg)]\<rparr>
      | Recording n \<Rightarrow>
          r\<lparr>listenersMade := (listenersMade r)(n := map_option (exception_pushed msg) (listenersMade r n))\<rparr>)"

text \<open>An uncaught error: Node calls every listener, and exits if there is none.\<close>

definition uncaught :: "js_string \<Rightarrow> 'h realm \<Rightarrow> 'h realm" where
  "uncaught msg r =
     (if hasWindow r
      then case onerror r of None \<Rightarrow> r | Some h \<Rightarrow> call_handler msg h r
      else if uncaughtListeners r = [] then r\<lparr>exited := True\<rparr>
      else fold (call_handler msg) (uncaughtListeners r) r)"

text \<open>\<^verbatim>\<open>removeListener\<close> takes out the instance added last, if there is one.\<close>

definition removeListener :: "'x \<Rightarrow> 'x list \<Rightarrow> 'x list" where
  "removeListener x xs = rev (remove1 x (rev xs))"

section \<open>\<^verbatim>\<open>UncaughtExceptionListener\<close>\<close>

definition new_UncaughtExceptionListener :: "'h realm \<Rightarrow> 'h exception_listener" where
  "new_UncaughtExceptionListener r =
     \<lparr>isAttached = False, exceptionsCaught = [],
      originalWindowHandler = (if hasWindow r then onerror r else None), originalProcessHandlers = []\<rparr>"

definition listener_attach :: "nat \<Rightarrow> 'h exception_listener \<Rightarrow> 'h realm \<Rightarrow> 'h exception_listener \<times> 'h realm" where
  "listener_attach n l r =
     (if isAttached l then (l, r)
      else
        let (l, r) =
          (if hasWindow r then (l, r\<lparr>onerror := Some (Recording n)\<rparr>)
           else
             let l = l\<lparr>originalProcessHandlers := uncaughtListeners r\<rparr>;
                 r = r\<lparr>uncaughtListeners := []\<rparr>;
                 r = r\<lparr>uncaughtListeners := uncaughtListeners r @ [Recording n]\<rparr>
             in (l, r))
        in (l\<lparr>isAttached := True\<rparr>, r))"

definition listener_detach :: "nat \<Rightarrow> 'h exception_listener \<Rightarrow> 'h realm \<Rightarrow> 'h exception_listener \<times> 'h realm" where
  "listener_detach n l r =
     (if \<not> isAttached l then (l, r)
      else
        let (l, r) =
          (if hasWindow r then (l, r\<lparr>onerror := originalWindowHandler l\<rparr>)
           else
             let r = r\<lparr>uncaughtListeners := removeListener (Recording n) (uncaughtListeners r)\<rparr>;
                 r = fold (\<lambda>handler r. r\<lparr>uncaughtListeners := uncaughtListeners r @ [handler]\<rparr>)
                       (originalProcessHandlers l) r
             in (l\<lparr>originalProcessHandlers := []\<rparr>, r))
        in (l\<lparr>isAttached := False\<rparr>, r))"

definition getMessages :: "'h exception_listener \<Rightarrow> js_string list" where
  "getMessages l = exceptionsCaught l"

section \<open>What a test does\<close>

datatype harness_event = NewListener nat | Attach nat | Detach nat | Uncaught js_string

definition on_listener ::
  "(nat \<Rightarrow> 'h exception_listener \<Rightarrow> 'h realm \<Rightarrow> 'h exception_listener \<times> 'h realm) \<Rightarrow> nat
     \<Rightarrow> 'h realm \<Rightarrow> 'h realm"
where
  "on_listener f n r =
     (case listenersMade r n of
        None \<Rightarrow> r
      | Some l \<Rightarrow> (let (l, r) = f n l r in r\<lparr>listenersMade := (listenersMade r)(n \<mapsto> l)\<rparr>))"

fun harness_step :: "harness_event \<Rightarrow> 'h realm \<Rightarrow> 'h realm" where
  "harness_step (NewListener n) r =
     r\<lparr>listenersMade := (listenersMade r)(n \<mapsto> new_UncaughtExceptionListener r)\<rparr>"
| "harness_step (Attach n) r = on_listener listener_attach n r"
| "harness_step (Detach n) r = on_listener listener_detach n r"
| "harness_step (Uncaught msg) r = uncaught msg r"

definition harness_run :: "harness_event list \<Rightarrow> 'h realm \<Rightarrow> 'h realm" where
  "harness_run es r = fold harness_step es r"

lemma harness_run_simps [simp]:
  "harness_run [] r = r"
  "harness_run (e # es) r = harness_run es (harness_step e r)"
  "harness_run (xs @ ys) r = harness_run ys (harness_run xs r)"
  by (simp_all add: harness_run_def)

section \<open>\<^verbatim>\<open>continueStream\<close>\<close>

text \<open>The generated code of the test service is a parameter: its method, and the setter of the request.\<close>

definition continueStream ::
  "('m, 'a) metadata_ops \<Rightarrow> bool \<Rightarrow> ('q, 'r) method_definition \<Rightarrow> ('m tcall \<Rightarrow> 't \<Rightarrow> js_error option \<times> 't)
     \<Rightarrow> (js_string \<Rightarrow> 't result) \<Rightarrow> (js_string \<Rightarrow> 'q \<Rightarrow> 'q) \<Rightarrow> 'q \<Rightarrow> js_string \<Rightarrow> js_string
     \<Rightarrow> (js_num \<Rightarrow> 'u \<Rightarrow> 'u \<times> ('a, 'q, unary_callback) action list) \<Rightarrow> 'u
     \<Rightarrow> js_error option \<times> ('m, 'r, unary_callback, ('m, 'r, 'u) unary_state, 't) client option"
where
  "continueStream M sl ContinueStream tc df setStreamIdentifier req host streamIdentifier cb u =
     unary (unary_env M sl ContinueStream tc (\<lambda>out. cb (out_status out))) None df host
       (setStreamIdentifier streamIdentifier req) None u"

section \<open>Combinations\<close>

text \<open>
  Each function calls its argument once per combination, inside a \<^verbatim>\<open>describe\<close> of a name: the
  list of names and arguments, in order.
\<close>

definition headerTrailerCombos :: "(js_string \<times> bool \<times> bool) list" where
  "headerTrailerCombos =
     [(js ''(no headers - no trailers)'', False, False),
      (js ''(with headers - no trailers)'', True, False),
      (js ''(no headers - with trailers)'', False, True),
      (js ''(with headers - with trailers)'', True, True)]"

record test_config =
  testHostUrl :: js_string
  corsHostUrl :: js_string
  unavailableHost :: js_string
  emptyHost :: js_string
  httpVersion :: js_string

definition testHost :: js_string where "testHost = js ''testhost''"
definition corsHost :: js_string where "corsHost = js ''corshost''"

definition http1Config :: test_config where
  "http1Config =
     \<lparr>testHostUrl = js ''https://'' @ testHost @ js '':9100'', corsHostUrl = js ''https://'' @ corsHost @ js '':9100'',
      unavailableHost = js ''https://'' @ testHost @ js '':9999'', emptyHost = js ''https://'' @ corsHost @ js '':9105'',
      httpVersion = js ''http1''\<rparr>"

definition http2Config :: test_config where
  "http2Config =
     \<lparr>testHostUrl = js ''https://'' @ testHost @ js '':9090'', corsHostUrl = js ''https://'' @ corsHost @ js '':9090'',
      unavailableHost = js ''https://'' @ testHost @ js '':9999'', emptyHost = js ''https://'' @ corsHost @ js '':9095'',
      httpVersion = js ''http2''\<rparr>"

definition runWithHttp1AndHttp2 :: "(js_string \<times> test_config) list" where
  "runWithHttp1AndHttp2 = [(js ''(http1)'', http1Config), (js ''(http2)'', http2Config)]"

text \<open>
  The transports a test runs with: no factory, which selects the default one, and unless disabled
  the WebSocket.  Under Node the default is replaced first.
\<close>

definition runWithSupportedTransports ::
  "js_string option \<Rightarrow> bool \<Rightarrow> (js_string \<Rightarrow> 't result) \<Rightarrow> (js_string \<Rightarrow> 't result)
     \<Rightarrow> 't default_factory \<Rightarrow> (js_string \<times> (js_string \<Rightarrow> 't result) option) list \<times> 't default_factory"
where
  "runWithSupportedTransports BROWSER DISABLE_WEBSOCKET_TESTS nodeHttpTransport websocketTransport st =
     (let transports = [(js ''httpTransport'', None)];
          st = (if BROWSER = Some (js ''nodejs'') then setDefaultTransportFactory nodeHttpTransport st else st);
          transports =
            (if \<not> DISABLE_WEBSOCKET_TESTS
             then transports @ [(js ''websocketTransport'', Some websocketTransport)] else transports)
      in (transports, st))"

lemma combinations_complete:
  "set (map snd headerTrailerCombos) = UNIV \<and> distinct (map snd headerTrailerCombos) \<and>
     distinct (map fst headerTrailerCombos)"
  by (auto simp: headerTrailerCombos_def)

section \<open>Sections of a test\<close>

text \<open>
  \<open>guarded_use N ms es\<close>: in \<open>es\<close> errors go uncaught, and some of them inside sections, in
  which a new listener is attached and, in the end, detached, each possibly more than once (a test
  detaches, and so does \<^verbatim>\<open>afterEach\<close>).  The listeners of the sections are \<open>N\<close>; the errors outside
  all sections are \<open>ms\<close>.
\<close>

definition section_of :: "nat \<Rightarrow> nat \<Rightarrow> nat \<Rightarrow> harness_event list \<Rightarrow> harness_event list" where
  "section_of n i j body =
     NewListener n # replicate (Suc i) (Attach n) @ body @ replicate (Suc j) (Detach n)"

inductive guarded_use :: "nat set \<Rightarrow> js_string list \<Rightarrow> harness_event list \<Rightarrow> bool" where
  nothing: "guarded_use {} [] []"
| raised: "guarded_use N ms es \<Longrightarrow> guarded_use N (msg # ms) (Uncaught msg # es)"
| guarded: "guarded_use N ms body \<Longrightarrow> n \<notin> N \<Longrightarrow> guarded_use M ms' es \<Longrightarrow>
    guarded_use (insert n (N \<union> M)) ms' (section_of n i j body @ es)"

text \<open>Realms that differ in nothing but the listeners of \<open>N\<close>.\<close>

definition agree :: "nat set \<Rightarrow> 'h realm \<Rightarrow> 'h realm \<Rightarrow> bool" where
  "agree N r s \<longleftrightarrow>
     hasWindow r = hasWindow s \<and> onerror r = onerror s \<and> uncaughtListeners r = uncaughtListeners s \<and>
     exited r = exited s \<and> runnerTold r = runnerTold s \<and>
     (\<forall>m. m \<notin> N \<longrightarrow> listenersMade r m = listenersMade s m)"

lemma agree_refl [simp]: "agree N r r"
  by (simp add: agree_def)

lemma agree_trans: "agree N r s \<Longrightarrow> agree M s t \<Longrightarrow> agree (N \<union> M) r t"
  by (simp add: agree_def)

lemma agree_mono: "agree N r s \<Longrightarrow> N \<subseteq> M \<Longrightarrow> agree M r s"
  by (auto simp: agree_def)

lemma agree_call: "agree N r s \<Longrightarrow> agree N (call_handler msg h r) (call_handler msg h s)"
  by (cases h) (simp_all add: agree_def call_handler_def)

lemma agree_calls: "agree N r s \<Longrightarrow> agree N (fold (call_handler msg) hs r) (fold (call_handler msg) hs s)"
  by (induction hs arbitrary: r s) (simp_all add: agree_call)

lemma agree_uncaught:
  assumes "agree N r s"
  shows "agree N (uncaught msg r) (uncaught msg s)"
proof -
  have eq: "hasWindow r = hasWindow s" "onerror r = onerror s" "uncaughtListeners r = uncaughtListeners s"
    using assms by (simp_all add: agree_def)
  have "agree N (r\<lparr>exited := True\<rparr>) (s\<lparr>exited := True\<rparr>)" using assms by (simp add: agree_def)
  with assms show ?thesis
    unfolding uncaught_def eq by (auto intro: agree_call agree_calls split: option.split)
qed

lemma agree_all: "agree N r s \<Longrightarrow> agree N (fold uncaught ms r) (fold uncaught ms s)"
  by (induction ms arbitrary: r s) (simp_all add: agree_uncaught)

lemma call_handler_fields [simp]:
  "hasWindow (call_handler msg h r) = hasWindow r"
  "onerror (call_handler msg h r) = onerror r"
  "uncaughtListeners (call_handler msg h r) = uncaughtListeners r"
  by (simp_all add: call_handler_def split: error_handler.split)

lemma call_handlers_fields [simp]:
  "hasWindow (fold (call_handler msg) hs r) = hasWindow r"
  "onerror (fold (call_handler msg) hs r) = onerror r"
  "uncaughtListeners (fold (call_handler msg) hs r) = uncaughtListeners r"
  by (induction hs arbitrary: r) simp_all

lemma uncaught_fields [simp]:
  "hasWindow (uncaught msg r) = hasWindow r"
  "onerror (uncaught msg r) = onerror r"
  "uncaughtListeners (uncaught msg r) = uncaughtListeners r"
  by (simp_all add: uncaught_def split: option.split)

lemma all_uncaught_fields [simp]:
  "onerror (fold uncaught ms r) = onerror r"
  "uncaughtListeners (fold uncaught ms r) = uncaughtListeners r"
  by (induction ms arbitrary: r) simp_all

section \<open>One section\<close>

text \<open>A realm in which listener \<open>n\<close>, as \<open>l\<close>, is the only one called.\<close>

definition under :: "nat \<Rightarrow> 'h exception_listener \<Rightarrow> 'h realm \<Rightarrow> 'h realm" where
  "under n l r =
     (if hasWindow r then r\<lparr>onerror := Some (Recording n), listenersMade := (listenersMade r)(n \<mapsto> l)\<rparr>
      else r\<lparr>uncaughtListeners := [Recording n], listenersMade := (listenersMade r)(n \<mapsto> l)\<rparr>)"

definition attached_listener :: "js_string list \<Rightarrow> 'h realm \<Rightarrow> 'h exception_listener" where
  "attached_listener ms r =
     \<lparr>isAttached = True, exceptionsCaught = ms,
      originalWindowHandler = (if hasWindow r then onerror r else None),
      originalProcessHandlers = (if hasWindow r then [] else uncaughtListeners r)\<rparr>"

lemma on_listener_idle: "listenersMade r n = Some l \<Longrightarrow> f n l r = (l, r) \<Longrightarrow> on_listener f n r = r"
  by (simp add: on_listener_def fun_upd_idem)

lemma attach_first:
  "harness_run [NewListener n, Attach n] r = under n (attached_listener [] r) r"
  by (simp add: on_listener_def listener_attach_def new_UncaughtExceptionListener_def under_def
      attached_listener_def Let_def)

lemma attach_again:
  "isAttached l \<Longrightarrow> harness_run (replicate i (Attach n)) (under n l r) = under n l r"
  by (induction i) (simp_all add: on_listener_idle [where l = l] listener_attach_def under_def)

lemma under_raises:
  "fold uncaught ms (under n l r) = under n (l\<lparr>exceptionsCaught := exceptionsCaught l @ ms\<rparr>) r"
proof (induction ms arbitrary: l)
  case (Cons msg ms)
  have "uncaught msg (under n l r) = under n (exception_pushed msg l) r"
    by (simp add: uncaught_def under_def call_handler_def)
  with Cons show ?case by (simp add: exception_pushed_def)
qed simp

lemma readded:
  "fold (\<lambda>handler r. r\<lparr>uncaughtListeners := uncaughtListeners r @ [handler]\<rparr>) hs r =
     r\<lparr>uncaughtListeners := uncaughtListeners r @ hs\<rparr>"
  by (induction hs arbitrary: r) simp_all

definition detached_listener :: "js_string list \<Rightarrow> 'h realm \<Rightarrow> 'h exception_listener" where
  "detached_listener ms r =
     (attached_listener ms r)\<lparr>isAttached := False, originalProcessHandlers := []\<rparr>"

lemma detach_first:
  assumes "agree N s (under n (attached_listener ms r) r)" "n \<notin> N"
  shows "agree N (harness_step (Detach n) s) (r\<lparr>listenersMade := (listenersMade r)(n \<mapsto> detached_listener ms r)\<rparr>)"
proof (cases "hasWindow r")
  case True
  with assms show ?thesis
    by (simp add: agree_def under_def on_listener_def listener_detach_def attached_listener_def
        detached_listener_def Let_def)
next
  case False
  with assms show ?thesis
    by (simp add: agree_def under_def on_listener_def listener_detach_def attached_listener_def readded
        removeListener_def detached_listener_def Let_def)
qed

lemma detach_again:
  "listenersMade r n = Some l \<Longrightarrow> \<not> isAttached l \<Longrightarrow> harness_run (replicate j (Detach n)) r = r"
  by (induction j) (simp_all add: on_listener_idle listener_detach_def)

text \<open>
  A section around a body: off the listeners of the body, the realm is as before, but that the
  section's own listener was made and holds the errors of the body.
\<close>

lemma section_closed:
  assumes "agree N (harness_run body (under n (attached_listener [] r) r))
      (fold uncaught ms (under n (attached_listener [] r) r))"
    and "n \<notin> N"
  shows "agree N (harness_run (section_of n i j body) r)
    (r\<lparr>listenersMade := (listenersMade r)(n \<mapsto> detached_listener ms r)\<rparr>)"
proof -
  let ?u = "under n (attached_listener [] r) r"
  let ?s = "harness_step (Detach n) (harness_run body ?u)"
  have "harness_run (replicate i (Attach n)) (harness_run [NewListener n, Attach n] r) = ?u"
    by (simp only: attach_first) (simp add: attach_again attached_listener_def)
  then have run: "harness_run (section_of n i j body) r = harness_run (replicate j (Detach n)) ?s"
    by (simp add: section_of_def del: harness_step.simps)
  have closed: "agree N ?s (r\<lparr>listenersMade := (listenersMade r)(n \<mapsto> detached_listener ms r)\<rparr>)"
    using assms(1) by (intro detach_first [OF _ assms(2)]) (simp add: under_raises attached_listener_def)
  then have "listenersMade ?s n = Some (detached_listener ms r)"
    using assms(2) by (simp add: agree_def del: harness_step.simps)
  then show ?thesis
    unfolding run using closed by (simp add: detach_again detached_listener_def del: harness_step.simps)
qed

lemma guarded_use_outside:
  "guarded_use N ms es \<Longrightarrow> agree N (harness_run es r) (fold uncaught ms r)"
proof (induction arbitrary: r rule: guarded_use.induct)
  case (guarded N ms body n M ms' es i j)
  let ?r = "harness_run (section_of n i j body) r"
  from section_closed [OF guarded.IH(1) guarded.hyps(2)]
  have "agree (insert n N) ?r r"
    by (auto simp: agree_def)
  from agree_trans [OF guarded.IH(2) agree_all [OF this]] show ?case
    by (simp add: Un_commute)
qed simp_all

lemma section_records:
  assumes "guarded_use N ms body" "n \<notin> N"
  shows "agree N (harness_run (section_of n i j body) r)
    (r\<lparr>listenersMade := (listenersMade r)(n \<mapsto> detached_listener ms r)\<rparr>)"
  by (rule section_closed [OF guarded_use_outside [OF assms(1)] assms(2)])

lemma messages_detached [simp]: "getMessages (detached_listener ms r) = ms"
  by (simp add: getMessages_def detached_listener_def attached_listener_def)

section \<open>Properties\<close>

text \<open>
  C38. A listener of uncaught errors, attached for any part of a test and detached, once or more
  often, holds exactly the errors raised meanwhile, in order, but those of sections nested in it;
  the handlers of the test runner hear none of them, the process does not exit, and afterwards the
  handlers are those from before, in their order.
\<close>

theorem uncaught_errors_recorded:
  assumes "guarded_use N ms body" "n \<notin> N" "r' = harness_run (section_of n i j body) r"
  shows "map_option getMessages (listenersMade r' n) = Some ms \<and>
    onerror r' = onerror r \<and> uncaughtListeners r' = uncaughtListeners r \<and>
    runnerTold r' = runnerTold r \<and> exited r' = exited r"
  using section_records [OF assms(1,2), of i j r] by (simp add: assms(2,3) agree_def)

definition node_realm :: "nat realm" where
  "node_realm = \<lparr>hasWindow = False, onerror = None, uncaughtListeners = [Runner 1, Runner 2], exited = False,
     runnerTold = [], listenersMade = (\<lambda>_. None)\<rparr>"

theorem uncaught_errors_recorded_witness:
  "map_option getMessages (listenersMade (harness_run
     (section_of 0 0 1 [Uncaught (js ''a''), NewListener 1, Attach 1, Uncaught (js ''b''), Detach 1, Uncaught (js ''c'')])
       node_realm) 0) = Some [js ''a'', js ''c'']"
proof -
  have "guarded_use {} [js ''b''] [Uncaught (js ''b'')]" "guarded_use {} [js ''c''] [Uncaught (js ''c'')]"
    by (intro guarded_use.intros)+
  from guarded_use.raised [OF guarded_use.guarded [OF this(1) _ this(2), of 1 0 0]]
  have "guarded_use {1} [js ''a'', js ''c'']
      [Uncaught (js ''a''), NewListener 1, Attach 1, Uncaught (js ''b''), Detach 1, Uncaught (js ''c'')]"
    by (simp add: section_of_def del: js_Cons)
  from uncaught_errors_recorded [OF this _ refl, of 0 0 1 node_realm] show ?thesis by simp
qed

text \<open>
  The errors that the callbacks of a client throw: each reaches the realm from a timer of its own.
  \<open>report\<close> is the text by which the realm tells a handler of an error.
\<close>

lemma invoke_accounted:
  assumes "invoke E tp df host props u = (e, Some c)"
  shows "accounted E u c"
proof -
  let ?as = "[Start (metadataProp props), Send (requestProp props), FinishSend]"
  from assms obtain t where "run_actions E ?as (register onEnd (onEndProp props)
      (register onMessage (onMessageProp props) (register onHeaders (onHeadersProp props) (new_client t u)))) = (e, c)"
    by (auto simp: invoke_def new_GrpcClient_def js_bind_def Let_def
        split: if_splits sum.splits prod.splits simp del: run_actions.simps)
  then have c: "c = snd (run_actions E ?as (register onEnd (onEndProp props)
      (register onMessage (onMessageProp props) (register onHeaders (onHeadersProp props) (new_client t u)))))"
    by (metis snd_conv)
  show ?thesis
    unfolding c
    by (rule errors.actions_keep)
      (simp add: accounted_def register_def onHeaders_def onMessage_def onEnd_def new_client_def replay_def
        split: option.split)
qed

lemma raised_directly: "guarded_use {} ms (map Uncaught ms)"
  by (induction ms) (simp_all add: guarded_use.intros)

text \<open>
  C19. An exception in a callback is not suppressed: whatever arrives in whatever order over any
  transport that drives the client, the errors that its callbacks throw, each for the event it was
  told, are the errors that the test's listener has recorded in the end, all of them and in order.
\<close>

theorem exceptions_not_suppressed:
  assumes "invoke E tp df host props u = (e, Some c)" "throwers E" "driven E is c d"
    and "r' = harness_run (section_of n i j
      (map Uncaught (map report (deferred_errors (trace d))))) r"
  shows "map_option getMessages (listenersMade r' n) =
    Some (map report (thrown E (notified (trace d)) u))"
proof -
  have "deferred_errors (trace d) = thrown E (notified (trace d)) u"
    using driven_accounted [OF assms(3) invoke_accounted [OF assms(1)]] assms(2) by (simp add: accounted_def)
  with section_records [OF raised_directly, of n i j "map report (deferred_errors (trace d))" r]
  show ?thesis by (simp add: assms(4) agree_def)
qed

text \<open>The test \<^verbatim>\<open>should not suppress exceptions\<close> of \<^verbatim>\<open>client.spec.ts\<close>, with \<^verbatim>\<open>invoke\<close>.\<close>

fun spec_callback :: "nat \<Rightarrow> ('m, 'r) cb_event \<Rightarrow> nat \<Rightarrow> nat \<times> ('a, 'q, nat) action list" where
  "spec_callback cb (HeadersEv _) u = (u, [Throw (Error (js ''onHeaders exception''))])"
| "spec_callback cb (MessageEv _) u = (u, [Throw (Error (js ''onMessage exception''))])"
| "spec_callback cb (EndEv _ _ _) u = (u, [Throw (Error (js ''onEnd exception''))])"

definition spec_demo :: "(assoc, assoc, bytes, bytes, nat, nat, unit) env" where
  "spec_demo = quiet_demo\<lparr>callback := spec_callback\<rparr>"

definition spec_props :: "(assoc, bytes, nat) invoke_options" where
  "spec_props = \<lparr>requestProp = [7], metadataProp = None, onHeadersProp = Some 1,
     onMessageProp = Some 2, onEndProp = Some 3\<rparr>"

lemma spec_demo_fields [simp]:
  "metadata spec_demo = assoc_metadata" "callback spec_demo = spec_callback"
  "methodDefinition spec_demo = demo_method"
  by (simp_all add: spec_demo_def)

lemma spec_throws: "throwers spec_demo"
  unfolding throwers_def
proof (intro allI)
  show "list_all throwing (snd (callback spec_demo cb ev u))" for cb ev u
    by (cases ev) simp_all
qed

theorem exceptions_not_suppressed_witness:
  "\<exists>e c. invoke spec_demo (Some (\<lambda>_. Inr ())) (\<lambda>_. Inr ()) [] spec_props 0 = (e, Some c) \<and>
     map_option getMessages (listenersMade (harness_run (section_of 0 0 1 (map Uncaught (map message (deferred_errors
       (trace (run spec_demo [TransportHeaders [] 200, TransportChunk (response_stream [[5]] status_block), TransportEnd] c))))))
       node_realm) 0) =
     Some [js ''onHeaders exception'', js ''onMessage exception'', js ''onEnd exception'']"
proof -
  let ?is = "[TransportHeaders [] 200, TransportChunk (response_stream [[5]] status_block), TransportEnd]"
  have "snd (invoke spec_demo (Some (\<lambda>_. Inr ())) (\<lambda>_. Inr ()) [] spec_props 0) \<noteq> None"
    by (simp add: invoke_def new_GrpcClient_def createTransport_def Let_def split: prod.split)
  then obtain e c where c: "invoke spec_demo (Some (\<lambda>_. Inr ())) (\<lambda>_. Inr ()) [] spec_props 0 = (e, Some c)"
    by (metis not_None_eq prod.collapse)
  have "driven spec_demo (TransportHeaders [] 200 #
      map TransportChunk [response_stream [[5]] status_block] @ [TransportEnd]) c (run spec_demo ?is c)"
    using driven_run [of spec_demo ?is c] by simp
  from invoke_delivers [OF c this throwers_observers [OF spec_throws], of "[[5]]" status_block "[[5]]"
      status_md "Num 0" "[]"]
  have "notified (trace (run spec_demo ?is c)) =
      [(1, HeadersEv []), (2, MessageEv [5]), (3, EndEv (Num 0) [] status_md)]"
    by (simp add: status_ok status_block_read status_md_status length_status_block deserialized_def
        spec_props_def option_list_def)
  with exceptions_not_suppressed [OF c spec_throws driven_run [of spec_demo ?is c] refl,
      where report = message and n = 0 and i = 0 and j = 1 and r = node_realm] c
  show ?thesis by (simp del: js_Cons)
qed

end
