(* ===== verification/TestBrowsers.thy ===== *)
theory TestBrowsers
  imports TestHarness
begin

text \<open>
  \<^verbatim>\<open>integration_test/browsers.ts\<close>, \<^verbatim>\<open>karma.conf.ts\<close> and \<^verbatim>\<open>custom-karma-driver.ts\<close>: the browsers the
  test suite can run in, which of them are launched, and the launcher that takes a remote browser to
  the test page, past the certificate warnings of the test servers.
\<close>

section \<open>The table of browsers\<close>

datatype js_value = Undefined | Bool bool | Number int | Text js_string | Members "(js_string \<times> js_value) list"

type_synonym js_object = "(js_string \<times> js_value) list"

text \<open>Writing a property: in its place if the object has it, at the end otherwise; and \<^verbatim>\<open>...\<close>.\<close>

fun put :: "'k \<Rightarrow> 'v \<Rightarrow> ('k \<times> 'v) list \<Rightarrow> ('k \<times> 'v) list" where
  "put k v [] = [(k, v)]"
| "put k v ((k', v') # xs) = (if k = k' then (k, v) # xs else (k', v') # put k v xs)"

definition put_all :: "('k \<times> 'v) list \<Rightarrow> ('k \<times> 'v) list \<Rightarrow> ('k \<times> 'v) list" where
  "put_all kvs xs = fold (\<lambda>(k, v). put k v) kvs xs"

definition js_prop :: "js_string \<Rightarrow> js_object \<Rightarrow> js_value" where
  "js_prop k obj = (case map_of obj k of Some v \<Rightarrow> v | None \<Rightarrow> Undefined)"

fun truthy :: "js_value \<Rightarrow> bool" where
  "truthy Undefined = False"
| "truthy (Bool b) = b"
| "truthy (Number n) = (n \<noteq> 0)"
| "truthy (Text s) = (s \<noteq> [])"
| "truthy (Members _) = True"

record browser_config =
  configName :: js_string
  base :: js_string
  capabilities :: js_object

definition browser :: "js_string \<Rightarrow> js_string \<Rightarrow> js_string \<Rightarrow> js_object \<Rightarrow> browser_config" where
  "browser browserName browserVersion os options =
     \<lparr>configName = os @ js ''_'' @ browserName @ js ''_'' @ browserVersion,
      base = js ''CustomWebDriver'',
      capabilities = put_all
        [(js ''testSuite'', Undefined), (js ''browserName'', Text browserName),
         (js ''browserVersion'', Text browserVersion), (js ''os'', Text os)] options\<rparr>"

abbreviation insecure :: js_object where
  "insecure \<equiv> [(js ''custom'', Members [(js ''acceptInsecureCerts'', Bool True)])]"

abbreviation override :: "string \<Rightarrow> js_object" where
  "override s \<equiv> [(js ''certOverrideJSElement'', Text (js s))]"

abbreviation bumping :: js_object where
  "bumping \<equiv> [(js ''useSslBumping'', Bool True)]"

definition browsers :: "(js_string \<times> browser_config) list" where
  "browsers =
     [(js ''firefox86_win'', browser (js ''firefox'') (js ''86'') (js ''Windows 10'') insecure),
      (js ''firefox39_win'', browser (js ''firefox'') (js ''39'') (js ''Windows 10'') insecure),
      (js ''firefox38_win'', browser (js ''firefox'') (js ''38'') (js ''Windows 10'') insecure),
      (js ''chrome_89'', browser (js ''chrome'') (js ''89'') (js ''Windows 10'') (override ''proceed-link'')),
      (js ''chrome_52'', browser (js ''chrome'') (js ''52'') (js ''Windows 10'') []),
      (js ''chrome_43'', browser (js ''chrome'') (js ''43'') (js ''Linux'') []),
      (js ''chrome_42'', browser (js ''chrome'') (js ''42'') (js ''Linux'') []),
      (js ''chrome_41'', browser (js ''chrome'') (js ''41'') (js ''Linux'') []),
      (js ''edge88_win'', browser (js ''MicrosoftEdge'') (js ''88'') (js ''Windows 10'') (override ''proceed-link'')),
      (js ''edge16_win'', browser (js ''MicrosoftEdge'') (js ''16'') (js ''Windows 10'') (override ''invalidcert_continue'')),
      (js ''edge14_win'', browser (js ''MicrosoftEdge'') (js ''14'') (js ''Windows 10'') (override ''invalidcert_continue'')),
      (js ''edge13_win'', browser (js ''MicrosoftEdge'') (js ''13'') (js ''Windows 10'') (override ''invalidcert_continue'')),
      (js ''safari14'', browser (js ''safari'') (js ''14'') (js ''macOS 11.00'') bumping),
      (js ''safari13_1'', browser (js ''safari'') (js ''13.1'') (js ''OS X 10.15'') bumping),
      (js ''safari12_1'', browser (js ''safari'') (js ''12.0'') (js ''OS X 10.14'') bumping),
      (js ''safari11_1'', browser (js ''safari'') (js ''11.1'') (js ''OS X 10.13'') bumping),
      (js ''safari10_1'', browser (js ''safari'') (js ''10.1'') (js ''OS X 10.12'') bumping),
      (js ''safari9_1'', browser (js ''safari'') (js ''9.0'') (js ''OS X 10.11'') bumping),
      (js ''safari8'', browser (js ''safari'') (js ''8.0'') (js ''OS X 10.10'') bumping),
      (js ''ie11_win'', browser (js ''internet explorer'') (js ''11'') (js ''Windows 10'')
         (override ''overridelink'' @ [(js ''disableWebsocketTests'', Bool True)]))]"

text \<open>
  The default export.  \<^verbatim>\<open>BROWSER\<close> must not be the name of a member that every object inherits, as
  \<^verbatim>\<open>constructor\<close> is: such a name is found without being in the table.
\<close>

definition customLaunchersGenerator :: "js_string option \<Rightarrow> (js_string \<times> browser_config) list result" where
  "customLaunchersGenerator browserEnv =
     (case browserEnv of
        Some (b # bs) \<Rightarrow>
          (case map_of browsers (b # bs) of
             None \<Rightarrow> Inl (Error (js ''BROWSER env var set to \"'' @ (b # bs) @
                        js ''\", but there is no browser with that identifier''))
           | Some foundBrowser \<Rightarrow> Inr (put (configName foundBrowser) foundBrowser []))
      | _ \<Rightarrow> Inr (fold (\<lambda>(i, browserConfig). put (configName browserConfig) browserConfig) browsers []))"

section \<open>The configuration of karma\<close>

record karma_environment =
  env_BROWSER :: "js_string option"
  env_DEBUG :: "js_string option"
  env_DISABLE_WEBSOCKET_TESTS :: "js_string option"
  env_SAUCELABS_USERNAME :: "js_string option"

record karma_config =
  logLevel :: js_string
  configInject :: "js_string \<Rightarrow> js_string"
  singlerun :: bool
  customLaunchers :: "(js_string \<times> browser_config) list"
  launchedBrowsers :: "js_string list"

definition bool_text :: "bool \<Rightarrow> js_string" where
  "bool_text b = (if b then js ''true'' else js ''false'')"

definition config_inject :: "bool \<Rightarrow> bool \<Rightarrow> js_string \<Rightarrow> js_string" where
  "config_inject DEBUG DISABLE_WEBSOCKET_TESTS content =
     js ''window.DEBUG = '' @ bool_text DEBUG @ js '';window.DISABLE_WEBSOCKET_TESTS = '' @
     bool_text DISABLE_WEBSOCKET_TESTS @ js '';'' @ [10] @ content"

definition karma_conf :: "karma_environment \<Rightarrow> karma_config result" where
  "karma_conf V =
     js_bind (customLaunchersGenerator (env_BROWSER V)) (\<lambda>launchers.
       let DEBUG = env_DEBUG V \<noteq> None;
           DISABLE_WEBSOCKET_TESTS = env_DISABLE_WEBSOCKET_TESTS V \<noteq> None;
           useSauceLabs = env_SAUCELABS_USERNAME V \<noteq> None
       in Inr \<lparr>logLevel = (if DEBUG then js ''DEBUG'' else js ''INFO''),
               configInject = config_inject DEBUG DISABLE_WEBSOCKET_TESTS,
               singlerun = useSauceLabs,
               customLaunchers = launchers,
               launchedBrowsers = (if useSauceLabs then map fst launchers else [])\<rparr>)"

section \<open>The launcher\<close>

definition viaUrls :: "js_string list" where
  "viaUrls =
     [js ''https://'' @ testHost @ js '':9090'', js ''https://'' @ testHost @ js '':9095'',
      js ''https://'' @ corsHost @ js '':9090'', js ''https://'' @ corsHost @ js '':9095'',
      js ''https://'' @ testHost @ js '':9100'', js ''https://'' @ testHost @ js '':9105'',
      js ''https://'' @ corsHost @ js '':9100'', js ''https://'' @ corsHost @ js '':9105'']"

record driver_environment =
  username :: js_value
  accessKey :: js_value
  buildName :: js_string
  tunnelWithSSLBumping :: js_value
  tunnelNoSSLBumping :: js_value

text \<open>The calls on the remote browser, and what the launcher still waits for.\<close>

datatype browser_call = Get js_string | ExecuteScript js_string | Quit

datatype awaited =
    Visiting nat
  | Overriding nat
  | Sleeping nat
  | VisitingTest
  | Quitting

record launcher =
  captured :: bool
  launcherEnded :: bool
  built :: "js_object option"
  browserCalls :: "browser_call list"
  awaiting :: "awaited list"
  unhandled :: nat
  doneCalls :: nat

definition new_launcher :: launcher where
  "new_launcher =
     \<lparr>captured = False, launcherEnded = False, built = None, browserCalls = [], awaiting = [], unhandled = 0, doneCalls = 0\<rparr>"

definition testUrlWithSuite :: "js_string \<Rightarrow> js_object \<Rightarrow> js_string" where
  "testUrlWithSuite testUrl caps =
     testUrl @ js ''#'' @
       (if truthy (js_prop (js ''disableWebsocketTests'') caps) then js ''disableWebsocketTests'' else [])"

text \<open>A value inside a template literal; the code has strings there, or nothing.\<close>

definition value_text :: "js_value \<Rightarrow> js_string" where
  "value_text v = (case v of Text s \<Rightarrow> s | Bool b \<Rightarrow> bool_text b | _ \<Rightarrow> js ''undefined'')"

definition webdriver_capabilities :: "driver_environment \<Rightarrow> js_object \<Rightarrow> js_object" where
  "webdriver_capabilities V caps =
     put_all
       [(js ''name'', Text (value_text (js_prop (js ''browserName'') caps) @ js '' - Integration Test'')),
        (js ''browserName'', js_prop (js ''browserName'') caps),
        (js ''platform'', js_prop (js ''os'') caps),
        (js ''version'', js_prop (js ''browserVersion'') caps),
        (js ''build'', Text (buildName V)),
        (js ''username'', username V),
        (js ''accessKey'', accessKey V),
        (js ''tunnelIdentifier'',
          if truthy (js_prop (js ''useSslBumping'') caps) then tunnelWithSSLBumping V else tunnelNoSSLBumping V),
        (js ''recordScreenshots'', Bool False), (js ''acceptSslCerts'', Bool True),
        (js ''javascriptEnabled'', Bool True), (js ''commandTimeout'', Number 600),
        (js ''idleTimeout'', Number 600), (js ''maxDuration'', Number 600)]
       (case js_prop (js ''custom'') caps of Members kvs \<Rightarrow> kvs | _ \<Rightarrow> [])"

text \<open>\<^verbatim>\<open>if (caps.certOverrideJSElement)\<close>.\<close>

definition overrides :: "js_object \<Rightarrow> bool" where
  "overrides caps = truthy (js_prop (js ''certOverrideJSElement'') caps)"

definition override_script :: "js_object \<Rightarrow> js_string" where
  "override_script caps =
     js ''var el = document.getElementById('' @ [39] @ value_text (js_prop (js ''certOverrideJSElement'') caps) @
     [39] @ js ''); if (el) {el.click()}''"

definition browser_get :: "js_string \<Rightarrow> awaited \<Rightarrow> launcher \<Rightarrow> launcher" where
  "browser_get url a s = s\<lparr>browserCalls := browserCalls s @ [Get url], awaiting := awaiting s @ [a]\<rparr>"

definition next_page :: "js_string \<Rightarrow> js_object \<Rightarrow> nat \<Rightarrow> launcher \<Rightarrow> launcher" where
  "next_page testUrl caps i s =
     (if i < length viaUrls then browser_get (viaUrls ! i) (Visiting i) s
      else browser_get (testUrlWithSuite testUrl caps) VisitingTest s)"

definition launcher_start :: "driver_environment \<Rightarrow> js_string \<Rightarrow> js_object \<Rightarrow> launcher \<Rightarrow> launcher" where
  "launcher_start V testUrl caps s =
     (let s = s\<lparr>built := Some (webdriver_capabilities V caps)\<rparr> in
      if overrides caps then next_page testUrl caps 0 s
      else browser_get (testUrlWithSuite testUrl caps) VisitingTest s)"

text \<open>
  What a pending promise or timer does when it settles.  Nobody awaits the script on the test page;
  the rejection of a visit to a server is logged, that of any other promise is unhandled.
\<close>

fun launcher_settled :: "js_string \<Rightarrow> js_object \<Rightarrow> awaited \<Rightarrow> bool \<Rightarrow> launcher \<Rightarrow> launcher" where
  "launcher_settled testUrl caps (Visiting i) True s =
     s\<lparr>browserCalls := browserCalls s @ [ExecuteScript (override_script caps)], awaiting := awaiting s @ [Overriding i]\<rparr>"
| "launcher_settled testUrl caps (Visiting i) False s = s"
| "launcher_settled testUrl caps (Overriding i) True s = s\<lparr>awaiting := awaiting s @ [Sleeping i]\<rparr>"
| "launcher_settled testUrl caps (Overriding i) False s = s\<lparr>unhandled := unhandled s + 1\<rparr>"
| "launcher_settled testUrl caps (Sleeping i) ok s = next_page testUrl caps (i + 1) s"
| "launcher_settled testUrl caps VisitingTest True s =
     (let s = s\<lparr>captured := True\<rparr> in
      if overrides caps
      then s\<lparr>browserCalls := browserCalls s @ [ExecuteScript (override_script caps)]\<rparr> else s)"
| "launcher_settled testUrl caps VisitingTest False s = s\<lparr>unhandled := unhandled s + 1\<rparr>"
| "launcher_settled testUrl caps Quitting ok s = s\<lparr>doneCalls := doneCalls s + 1, unhandled := unhandled s + (if ok then 0 else 1)\<rparr>"

text \<open>The handler of \<^verbatim>\<open>kill\<close>; \<^verbatim>\<open>self.browser\<close> is set by \<^verbatim>\<open>_start\<close>.\<close>

definition launcher_kill :: "launcher \<Rightarrow> js_error option \<times> launcher" where
  "launcher_kill s =
     (let s = s\<lparr>launcherEnded := True\<rparr> in
      if built s = None then (Some (TypeError (js ''Cannot read property of undefined'')), s)
      else (None, s\<lparr>browserCalls := browserCalls s @ [Quit], awaiting := awaiting s @ [Quitting]\<rparr>))"

datatype launcher_event = Settle nat bool | Kill

fun launcher_step :: "js_string \<Rightarrow> js_object \<Rightarrow> launcher_event \<Rightarrow> launcher \<Rightarrow> launcher" where
  "launcher_step testUrl caps (Settle k ok) s =
     (if k < length (awaiting s)
      then launcher_settled testUrl caps (awaiting s ! k) ok
             (s\<lparr>awaiting := take k (awaiting s) @ drop (Suc k) (awaiting s)\<rparr>)
      else s)"
| "launcher_step testUrl caps Kill s = snd (launcher_kill s)"

definition launcher_run :: "js_string \<Rightarrow> js_object \<Rightarrow> launcher_event list \<Rightarrow> launcher \<Rightarrow> launcher" where
  "launcher_run testUrl caps es s = fold (launcher_step testUrl caps) es s"

section \<open>Which browsers are launched\<close>

lemma put_new: "k \<notin> fst ` set xs \<Longrightarrow> put k v xs = xs @ [(k, v)]"
  by (induction xs) auto

lemma put_distinct:
  "distinct (map f bs) \<Longrightarrow> \<forall>b \<in> set bs. f b \<notin> fst ` set xs \<Longrightarrow>
     fold (\<lambda>b. put (f b) (g b)) bs xs = xs @ map (\<lambda>b. (f b, g b)) bs"
proof (induction bs arbitrary: xs)
  case (Cons b bs)
  then have "\<forall>b' \<in> set bs. f b' \<notin> fst ` set (xs @ [(f b, g b)])" by (auto simp: image_iff)
  with Cons.IH [OF _ this] Cons.prems show ?case by (simp add: put_new)
qed simp

lemma config_names_distinct: "distinct (map (\<lambda>(i, b). configName b) browsers)"
  by code_simp

lemma all_launchers:
  "customLaunchersGenerator None = Inr (map (\<lambda>(i, b). (configName b, b)) browsers)"
  using put_distinct [of "\<lambda>(i, b). configName b" browsers "[]" snd] config_names_distinct
  by (simp add: customLaunchersGenerator_def case_prod_unfold)

section \<open>Where the launcher goes\<close>

fun visited :: "browser_call list \<Rightarrow> js_string list" where
  "visited [] = []"
| "visited (Get url # cs) = url # visited cs"
| "visited (_ # cs) = visited cs"

lemma visited_append [simp]: "visited (xs @ ys) = visited xs @ visited ys"
  by (induction xs rule: visited.induct) simp_all

definition itinerary :: "js_string \<Rightarrow> js_object \<Rightarrow> js_string list" where
  "itinerary testUrl caps = (if overrides caps then viaUrls else []) @ [testUrlWithSuite testUrl caps]"

text \<open>What is awaited for the page at place \<open>n\<close> of the itinerary.\<close>

fun about_page :: "js_object \<Rightarrow> nat \<Rightarrow> awaited \<Rightarrow> bool" where
  "about_page caps n (Visiting i) = (overrides caps \<and> i < length viaUrls \<and> n = i)"
| "about_page caps n (Overriding i) = (overrides caps \<and> i < length viaUrls \<and> n = i)"
| "about_page caps n (Sleeping i) = (overrides caps \<and> i < length viaUrls \<and> n = i)"
| "about_page caps n VisitingTest = (n = (if overrides caps then length viaUrls else 0))"
| "about_page caps n Quitting = False"

definition page_waits :: "launcher \<Rightarrow> awaited list" where
  "page_waits s = filter (\<lambda>a. a \<noteq> Quitting) (awaiting s)"

text \<open>At most one page is under way, the last one visited; once captured, it is the test page.\<close>

definition on_the_way :: "js_string \<Rightarrow> js_object \<Rightarrow> nat \<Rightarrow> launcher \<Rightarrow> bool" where
  "on_the_way testUrl caps n s \<longleftrightarrow>
     n < length (itinerary testUrl caps) \<and>
     visited (browserCalls s) = take (Suc n) (itinerary testUrl caps) \<and>
     (page_waits s = [] \<or> (\<exists>a. page_waits s = [a] \<and> about_page caps n a)) \<and>
     (captured s \<longrightarrow> Suc n = length (itinerary testUrl caps) \<and> page_waits s = [])"

lemma taken_out:
  assumes "k < length xs"
  shows "\<not> P (xs ! k) \<Longrightarrow> filter P (take k xs @ drop (Suc k) xs) = filter P xs"
    and "P (xs ! k) \<Longrightarrow> filter P xs = [a] \<Longrightarrow> a = xs ! k \<and> filter P (take k xs @ drop (Suc k) xs) = []"
proof -
  have xs: "filter P xs = filter P (take k xs) @ filter P [xs ! k] @ filter P (drop (Suc k) xs)"
    by (subst id_take_nth_drop [OF assms]) simp
  show "filter P (take k xs @ drop (Suc k) xs) = filter P xs" if "\<not> P (xs ! k)"
    using xs that by simp
  show "a = xs ! k \<and> filter P (take k xs @ drop (Suc k) xs) = []" if "P (xs ! k)" "filter P xs = [a]"
    using xs that by (auto simp: append_eq_Cons_conv Cons_eq_append_conv)
qed

lemma itinerary_length: "length (itinerary testUrl caps) = (if overrides caps then Suc (length viaUrls) else 1)"
  by (simp add: itinerary_def)

lemma itinerary_take:
  "overrides caps \<Longrightarrow> Suc i \<le> length viaUrls \<Longrightarrow>
     take (Suc (Suc i)) (itinerary testUrl caps) =
       take (Suc i) (itinerary testUrl caps) @
         [if Suc i < length viaUrls then viaUrls ! Suc i else testUrlWithSuite testUrl caps]"
  by (cases "Suc i = length viaUrls") (simp_all add: itinerary_def take_Suc_conv_app_nth)

lemma starts_on_the_way: "on_the_way testUrl caps 0 (launcher_start V testUrl caps new_launcher)"
proof -
  have "length viaUrls = 8" "take (Suc 0) viaUrls = [viaUrls ! 0]" by (simp_all add: viaUrls_def)
  then show ?thesis
    by (auto simp: on_the_way_def launcher_start_def next_page_def browser_get_def new_launcher_def Let_def
        page_waits_def itinerary_def)
qed

lemma settled_on_the_way:
  assumes "about_page caps n a" "n < length (itinerary testUrl caps)"
    and "visited (browserCalls s) = take (Suc n) (itinerary testUrl caps)"
    and "page_waits s = []" "\<not> captured s"
  shows "\<exists>n. on_the_way testUrl caps n (launcher_settled testUrl caps a ok s)"
proof (cases a)
  case (Sleeping i)
  with assms have "on_the_way testUrl caps (Suc i) (launcher_settled testUrl caps a ok s)"
    using itinerary_take [of caps i testUrl]
    by (auto simp: on_the_way_def next_page_def browser_get_def page_waits_def itinerary_length)
  then show ?thesis ..
next
  case VisitingTest
  with assms have "on_the_way testUrl caps n (launcher_settled testUrl caps a ok s)"
    by (cases ok) (auto simp: on_the_way_def page_waits_def itinerary_length Let_def)
  then show ?thesis ..
qed (cases ok, use assms in \<open>auto simp: on_the_way_def page_waits_def intro!: exI [where x = n]\<close>)+

interpretation launched: step_invariant "launcher_step testUrl caps" "\<lambda>_. True"
    "\<lambda>s. \<exists>n. on_the_way testUrl caps n s" for testUrl caps
proof
  fix e s assume "\<exists>n. on_the_way testUrl caps n s"
  then obtain n where n: "on_the_way testUrl caps n s" ..
  show "\<exists>n. on_the_way testUrl caps n (launcher_step testUrl caps e s)"
  proof (cases e)
    case Kill
    with n have "on_the_way testUrl caps n (launcher_step testUrl caps e s)"
      by (auto simp: launcher_kill_def on_the_way_def page_waits_def Let_def)
    then show ?thesis ..
  next
    case (Settle k ok)
    let ?s = "s\<lparr>awaiting := take k (awaiting s) @ drop (Suc k) (awaiting s)\<rparr>"
    consider "k \<ge> length (awaiting s)" | "k < length (awaiting s)" "awaiting s ! k = Quitting"
      | "k < length (awaiting s)" "awaiting s ! k \<noteq> Quitting" by linarith
    then show ?thesis
    proof cases
      case 2
      with taken_out(1) [OF 2(1), of "\<lambda>a. a \<noteq> Quitting"] n
      have "on_the_way testUrl caps n (launcher_step testUrl caps e s)"
        by (simp add: Settle on_the_way_def page_waits_def)
      then show ?thesis ..
    next
      case 3
      then have "page_waits s \<noteq> []"
        by (auto simp: page_waits_def filter_empty_conv)
      with n obtain a where a: "page_waits s = [a]" "about_page caps n a" "\<not> captured s"
        by (auto simp: on_the_way_def)
      with taken_out(2) [OF 3(1), of "\<lambda>a. a \<noteq> Quitting" a] 3(2)
      have "a = awaiting s ! k" "page_waits ?s = []" by (auto simp: page_waits_def)
      with settled_on_the_way [of caps n a testUrl ?s ok] a n 3(1) show ?thesis
        by (simp add: Settle on_the_way_def)
    qed (use n Settle in auto)
  qed
qed

text \<open>When every promise resolves: three of them a server, and one the test page.\<close>

lemma launcher_run_simps [simp]:
  "launcher_run testUrl caps [] s = s"
  "launcher_run testUrl caps (e # es) s = launcher_run testUrl caps es (launcher_step testUrl caps e s)"
  by (simp_all add: launcher_run_def)

lemma page_passed:
  assumes "awaiting s = []" "i < length viaUrls"
  shows "launcher_run testUrl caps [Settle 0 True, Settle 0 True, Settle 0 True] (next_page testUrl caps i s) =
    next_page testUrl caps (i + 1)
      (s\<lparr>browserCalls := browserCalls s @ [Get (viaUrls ! i), ExecuteScript (override_script caps)]\<rparr>)"
  using assms by (simp add: next_page_def browser_get_def)

lemma test_page_captured:
  assumes "awaiting s = []"
  shows "captured (launcher_run testUrl caps [Settle 0 True]
    (browser_get (testUrlWithSuite testUrl caps) VisitingTest s))"
  using assms by (simp add: browser_get_def Let_def)

lemma pages_passed:
  "awaiting s = [] \<Longrightarrow> i + k = length viaUrls \<Longrightarrow>
     captured (launcher_run testUrl caps (replicate (3 * k + 1) (Settle 0 True)) (next_page testUrl caps i s))"
proof (induction k arbitrary: i s)
  case 0
  then have "next_page testUrl caps i s = browser_get (testUrlWithSuite testUrl caps) VisitingTest s"
    by (simp add: next_page_def)
  with test_page_captured [OF 0(1)] show ?case by simp
next
  case (Suc k)
  have three: "3 * Suc k + 1 = Suc (Suc (Suc (3 * k + 1)))" by simp
  have "replicate (3 * Suc k + 1) (Settle 0 True) =
      [Settle 0 True, Settle 0 True, Settle 0 True] @ replicate (3 * k + 1) (Settle 0 True)"
    by (simp only: three replicate_Suc append_Cons append_Nil)
  with Suc.prems page_passed [of s i testUrl caps] show ?case
    by (simp add: launcher_run_def del: launcher_step.simps) (use Suc.IH in \<open>simp add: launcher_run_def\<close>)
qed

lemma launcher_arrives:
  "captured (launcher_run testUrl caps (replicate (if overrides caps then 25 else 1) (Settle 0 True))
     (launcher_start V testUrl caps new_launcher))"
proof -
  have "awaiting (new_launcher\<lparr>built := b\<rparr>) = []" "length viaUrls = 8" for b
    by (simp_all add: new_launcher_def viaUrls_def)
  with pages_passed [of "new_launcher\<lparr>built := Some (webdriver_capabilities V caps)\<rparr>" 0 8 testUrl caps]
    test_page_captured [of "new_launcher\<lparr>built := Some (webdriver_capabilities V caps)\<rparr>" testUrl caps]
  show ?thesis by (simp add: launcher_start_def Let_def del: launcher_run_simps)
qed

text \<open>
  C39. Whatever happens to the promises of a launcher and whenever it is killed, the pages it
  makes its browser visit are, in order, the first of its itinerary: the test servers one after the
  other where a certificate warning must be clicked away, and then the test page.  It is captured only
  when it has visited them all.
\<close>

theorem launcher_itinerary:
  assumes "s = launcher_run testUrl caps es (launcher_start V testUrl caps new_launcher)"
  shows "prefix (visited (browserCalls s)) (itinerary testUrl caps) \<and>
    (captured s \<longrightarrow> visited (browserCalls s) = itinerary testUrl caps)"
proof -
  have "list_all (\<lambda>_. True) es" by (simp add: list_all_iff)
  with launched.run_keeps [OF this, where testUrl = testUrl and caps = caps] starts_on_the_way assms
  obtain n where "on_the_way testUrl caps n s" unfolding launcher_run_def by blast
  then show ?thesis by (auto simp: on_the_way_def take_is_prefix)
qed

definition ie11 :: js_object where
  "ie11 = capabilities (browser (js ''internet explorer'') (js ''11'') (js ''Windows 10'')
     (override ''overridelink'' @ [(js ''disableWebsocketTests'', Bool True)]))"

definition demo_driver :: driver_environment where
  "demo_driver = \<lparr>username = Text (js ''u''), accessKey = Text (js ''k''), buildName = js ''local_0'',
     tunnelWithSSLBumping = Undefined, tunnelNoSSLBumping = Undefined\<rparr>"

theorem launcher_itinerary_witness:
  "visited (browserCalls (launcher_run (js ''https://testhost:9876'') ie11 (replicate 25 (Settle 0 True))
     (launcher_start demo_driver (js ''https://testhost:9876'') ie11 new_launcher))) =
   viaUrls @ [js ''https://testhost:9876#disableWebsocketTests'']"
proof -
  have "overrides ie11" by code_simp
  moreover have "itinerary (js ''https://testhost:9876'') ie11 =
      viaUrls @ [js ''https://testhost:9876#disableWebsocketTests'']"
    by code_simp
  moreover note launcher_arrives [of "js ''https://testhost:9876''" ie11 demo_driver]
  ultimately show ?thesis
    using launcher_itinerary [OF refl, of "js ''https://testhost:9876''" ie11 "replicate 25 (Settle 0 True)" demo_driver]
    by (simp del: js_Cons)
qed

section \<open>Launched browsers\<close>

text \<open>
  \<^verbatim>\<open>BROWSER\<close> selects one browser of the table by its key, or makes the configuration throw; without
  it, every browser of the table is launched, each under a name of its own.
\<close>

theorem launched_browsers:
  assumes "env_SAUCELABS_USERNAME V \<noteq> None"
  shows "(case env_BROWSER V of
      Some (b # bs) \<Rightarrow> (case map_of browsers (b # bs) of
        Some browserConfig \<Rightarrow> \<exists>K. karma_conf V = Inr K \<and>
          launchedBrowsers K = [configName browserConfig] \<and> customLaunchers K = [(configName browserConfig, browserConfig)]
      | None \<Rightarrow> \<exists>e. karma_conf V = Inl e)
    | _ \<Rightarrow> \<exists>K. karma_conf V = Inr K \<and> distinct (launchedBrowsers K) \<and>
        customLaunchers K = map (\<lambda>(i, b). (configName b, b)) browsers \<and>
        launchedBrowsers K = map (\<lambda>(i, b). configName b) browsers)"
proof -
  have "customLaunchersGenerator (Some []) = customLaunchersGenerator None"
    by (simp add: customLaunchersGenerator_def)
  then show ?thesis
    using assms config_names_distinct all_launchers
    by (auto simp: karma_conf_def Let_def comp_def case_prod_unfold customLaunchersGenerator_def [of "Some (_ # _)"]
        split: option.split list.split)
qed

end
