(* ===== verification/Spec2Isabelle.thy ===== *)
theory Spec2Isabelle
  imports Request_Properties Websocket Transports ReactNative Fake Node BookService_Properties ExamplePage Server_Properties
    GoText TestBrowsers
begin

text \<open>
  A model of the TypeScript client of gRPC-Web, \<^verbatim>\<open>client/grpc-web\<close>, the transports that
  live beside it, the code generated for the example service, and the part of the Go server
  that speaks to this client, and the support of the integration tests, with their correctness
  properties.  Paths are relative to \<^verbatim>\<open>src/client\<close>, those of the server to \<^verbatim>\<open>src/go/grpcweb\<close>, those of
  the tests to \<^verbatim>\<open>src\<close>.

  \<^bold>\<open>The program.\<close>  A user creates a client for one method of a service, directly or through
  \<^verbatim>\<open>unary\<close> or \<^verbatim>\<open>invoke\<close>, registers callbacks and calls \<^verbatim>\<open>start\<close>, \<^verbatim>\<open>send\<close>,
  \<^verbatim>\<open>finishSend\<close> and \<^verbatim>\<open>close\<close>.  The client drives a transport through four calls and is called
  back by it with headers, chunks of bytes and an end.  A parser cuts the bytes into message and
  trailer frames, which the client turns into calls of the callbacks.  The transports put the
  four calls on a browser's \<^verbatim>\<open>fetch\<close>, \<^verbatim>\<open>XMLHttpRequest\<close> or \<^verbatim>\<open>WebSocket\<close>, on Node's \<^verbatim>\<open>http\<close>, on
  React Native's request object, or play a script for tests.  On top, \<^verbatim>\<open>protoc\<close> and
  \<^verbatim>\<open>ts-protoc-gen\<close> generate message classes and a stub per service, as in the example.  At the other end the Go
  server recognises the requests, hands a gRPC handler a request it can serve, and turns what the
  handler writes into the frames the parser cuts.

  \<^bold>\<open>The theories.\<close>
    \<^item> \<open>Prelude\<close>: bytes, UTF-16 strings, thrown errors as values, \<^verbatim>\<open>DataView\<close>; the locales
      \<open>step_invariant\<close> (what every step keeps, every run keeps) and \<open>frame_codec\<close>.
    \<^item> \<open>JsStdlib\<close>: \<^verbatim>\<open>parseInt\<close>, \<^verbatim>\<open>decodeURIComponent\<close>, \<^verbatim>\<open>join\<close>, \<^verbatim>\<open>substr\<close>, UTF-8, after their standards.
    \<^item> \<open>Metadata\<close>: the operations of the package \<^verbatim>\<open>browser-headers\<close>, a parameter with named laws.
    \<^item> \<open>Frames\<close>: the wire format as a specification, \<open>next_frame\<close> and \<open>scan\<close>; the locale
      \<open>incremental_decoder\<close>, that decoding does not depend on where a stream is cut.
    \<^item> \<open>ChunkParser\<close> (\<^verbatim>\<open>grpc-web/src/ChunkParser.ts\<close>), \<open>Codes\<close> (\<^verbatim>\<open>Code.ts\<close>), \<open>Util\<close> (\<^verbatim>\<open>util.ts\<close>).
      \<open>parse\<close> refines \<open>scan\<close>: \<open>pending\<close>, the unread part of the buffer, is the abstraction.
    \<^item> \<open>Client\<close> (\<^verbatim>\<open>client.ts\<close>, \<^verbatim>\<open>service.ts\<close>): the state of \<^verbatim>\<open>GrpcClient\<close> as the record \<open>client\<close>, one
      definition per method and handler, \<open>step\<close> and \<open>run\<close> for inputs in any order.
      \<open>Client_Steps\<close> breaks every handler into elementary steps (\<open>micro\<close>), so that an
      invariant is checked on seven cases (locale \<open>client_invariant\<close>) and holds inside callbacks too.
      \<open>Client_Invariants\<close>: one end, nothing after it, nothing once closed.
      \<open>Client_Protocol\<close>: the automaton of calls on a transport, and the locales by which a
      transport is verified under its client: \<open>transport_log\<close>, \<open>transport_view\<close>,
      \<open>transport_live\<close>, \<open>transport_change\<close>, \<open>quiet_transport\<close>.
      \<open>Client_Delivery\<close>: the relation \<open>driven\<close> (a client told a list of inputs while its transport
      changes as it likes) and what a whole response makes it announce.
      \<open>Client_Chunks\<close>: when no error comes back to a transport that hands over the bytes of a response.
      \<open>Client_Properties\<close>: the properties.  \<open>Client_Errors\<close>: what becomes of the errors that callbacks
      throw, by the locale \<open>callback_invariant\<close>, whose steps are whole callbacks.
    \<^item> \<open>Requests\<close>, \<open>Request_Properties\<close> (\<^verbatim>\<open>invoke.ts\<close>, \<^verbatim>\<open>unary.ts\<close>): both functions with the closures
      they register; over any transport that drives the client, what \<^verbatim>\<open>unary\<close> reports.
    \<^item> \<open>Websocket\<close>, \<open>Xhr\<close>, \<open>Fetch\<close> (\<^verbatim>\<open>transports/\<close>), \<open>Node\<close> (\<^verbatim>\<open>grpc-web-node-http-transport\<close>),
      \<open>Detach\<close> and \<open>ReactNative\<close> (\<^verbatim>\<open>grpc-web-react-native-transport\<close>), \<open>Fake\<close>
      (\<^verbatim>\<open>grpc-web-fake-transport\<close>): the state of each transport, its four calls, its handlers of
      outside events.  Each is shown to drive the client by exactly what arrived, by interpreting
      the locales above.  \<open>Transports\<close> (\<^verbatim>\<open>http.ts\<close>, \<^verbatim>\<open>Transport.ts\<close>): which one is chosen.
    \<^item> \<open>Protobuf\<close>: the operations of \<^verbatim>\<open>google-protobuf\<close> that generated code calls, with the laws of
      the locale \<open>jspb\<close>, and the contract of a generated class (locale \<open>message_class\<close>): what its
      reader makes of the fields on the wire, and its round trip.  \<open>BookMessages\<close>
      (\<^verbatim>\<open>book_service_pb.js\<close>): the three message classes of the example service, each shown to meet that
      contract.  \<open>WireFormat\<close>: an executable instance of the laws over the real wire format.
      \<open>Message_Properties\<close>: their properties.
    \<^item> \<open>BookService\<close> (\<^verbatim>\<open>book_service_pb_service.js\<close>): the generated stub, \<^verbatim>\<open>getBook\<close> over \<^verbatim>\<open>unary\<close> and
      \<^verbatim>\<open>queryBooks\<close> over \<^verbatim>\<open>invoke\<close>, with the objects they return.  \<open>BookService_Steps\<close>: the relations
      \<open>book_use\<close> and \<open>query_use\<close> (all that transport and user may do, in any order) and the
      invariants.  \<open>BookService_Properties\<close>: whole calls, from message fields to message fields.
      \<open>ExamplePage\<close> (\<^verbatim>\<open>grpc-web-react-example/ts/src/index.ts\<close>): the page that uses the service.
    \<^item> \<open>GoHttp\<close> (\<^verbatim>\<open>header.go\<close>): Go's strings and headers, \<^verbatim>\<open>copyHeader\<close>, and the writing and reading
      of header blocks after Go 1.16.  \<open>GoServer\<close> (\<^verbatim>\<open>websocket_wrapper.go\<close>, \<^verbatim>\<open>grpc_web_response.go\<close>):
      the two response writers and the reader of WebSocket messages, with its read limit.  \<open>GoServer_Streams\<close>: the body
      read, and what both writers emit, proved once in the locale \<open>response_writer\<close>.  \<open>GoRequests\<close>
      (\<^verbatim>\<open>wrapper.go\<close>, \<^verbatim>\<open>helpers.go\<close>): routing and the request for the handler.
      \<open>GoServer_Requests\<close>: the client's header block is read back.  \<open>Server_Delivery\<close>: answers
      that are headers only.  \<open>Server_Properties\<close>: client and server together.
      \<open>GoText\<close>: the text format against the binary format.
    \<^item> \<open>TestHarness\<close> (\<^verbatim>\<open>integration_test/ts/src\<close>: \<^verbatim>\<open>util.ts\<close>, \<^verbatim>\<open>testRpcCombinations.ts\<close>): the listener by
      which the tests observe uncaught errors, here those of \<open>Client_Errors\<close>.  \<open>TestBrowsers\<close>
      (\<^verbatim>\<open>integration_test\<close>: \<^verbatim>\<open>browsers.ts\<close>, \<^verbatim>\<open>karma.conf.ts\<close>, \<^verbatim>\<open>custom-karma-driver.ts\<close>): which browsers are
      launched, and how the launcher takes one to the test page.
    \<^item> This theory: whole \<^verbatim>\<open>unary\<close> requests over each transport.

  \<^bold>\<open>How code and model correspond.\<close>  A class is a record, a method a function from its state to
  the new state and, where it may throw, the error: writes made before a throw are kept.
  Callbacks are names; the body of a callback is a list of calls on the same client, made at the
  point where the source makes them, while the client iterates over its callbacks.  The trace of a
  client is a history, which no operation reads; so are \<open>detached\<close> and \<open>ran\<close> of the queue in
  \<open>Detach\<close>, \<open>reads\<close> in \<open>Fetch\<close> and \<open>heardLog\<close> in \<open>Fake\<close>.  Outside objects (\<^verbatim>\<open>WebSocket\<close>, \<^verbatim>\<open>XMLHttpRequest\<close>, promises
  and readers of \<^verbatim>\<open>fetch\<close>, \<^verbatim>\<open>ClientRequest\<close>) are modelled by the documented members used, and
  their events may come in any order.  The iteration order of a Go map is the order of the list
  that stands for it, over which the statements quantify; a gRPC handler is any sequence of
  operations on its response.

  \<^bold>\<open>Bounds.\<close>  The length of a frame is a \<open>32 word\<close>, and so is what \<^verbatim>\<open>setUint32\<close> writes; properties
  that read frames back assume payloads under \<open>2 ^ 32\<close> bytes.  No definition uses fuel: the loop of a
  generated reader has no value if it does not end (\<open>read_loop\<close>, a partial function), and
  \<open>book_reads_fields\<close> shows that it does for every reader that obeys the laws; the parser's loop and \<open>scan\<close> terminate by the bytes left, and the other loops by recursion on lists.  That the
  deferred callbacks of React Native run out is the property \<open>deferred_callbacks_drain\<close>.
  A WebSocket message that the server accepts is bounded by the read limit of its connection, the
  option's or the default of the WebSocket package (32769 bytes, says \<^verbatim>\<open>options.go\<close>), which is an
  argument; the properties of uploads say what happens on either side of it.  What that package returns
  beside the error for a longer message is a parameter, with the law \<open>over_limit_law\<close>.

  \<^bold>\<open>Not modelled.\<close>  \<^verbatim>\<open>browser-headers\<close>, \<^verbatim>\<open>google-protobuf\<close>, \<^verbatim>\<open>url.parse\<close> and what the
  browser or Node may refuse are not in the repository and are parameters; so are the message classes
  of a service other than the example's.  Console output under
  \<^verbatim>\<open>debug\<close> is left out.  Numbers are exact integers, so \<^verbatim>\<open>parseInt\<close> is not rounded beyond
  \<open>2 ^ 53\<close>.  A callback that creates another client is modelled only in \<open>ExamplePage\<close>, where that client is
  part of the state of the page.  The listeners
  of \<^verbatim>\<open>queryBooks\<close> assume a transport whose \<^verbatim>\<open>cancel\<close> does not throw.  The fake transport's listeners are recorded
  but do nothing, and a callback that calls \<^verbatim>\<open>finishSend\<close> on it is not covered, because the response
  would be played inside that callback.  \<^verbatim>\<open>metadata.ts\<close>, \<^verbatim>\<open>index.ts\<close>, \<^verbatim>\<open>debug.ts\<close> and the unused
  \<^verbatim>\<open>detach.ts\<close> re-export or print.  Of the server, gRPC itself, the CORS wrapper and the
  handshake are outside; the ping timer, the decoding of requests in the text format, which this client
  never sends, the setters of options, the health check and the proxy are left out.  Of the
  tests, the specifications themselves, the generated code of the test service, the constant settings
  of \<^verbatim>\<open>karma\<close> and its log are left out; a \<^verbatim>\<open>BROWSER\<close> named like a member that every object inherits is
  taken for unknown.
\<close>

section \<open>Requests over a concrete transport\<close>

text \<open>
  C6. A whole \<^verbatim>\<open>unary\<close> request over a WebSocket: issued before the socket opens, it puts on the
  wire the header block, the framed request and the end-of-send mark, in this order, when the socket
  opens; and a response, its header frame and its body each in any cut, is reported once, with its status, headers,
  last message and trailers.
\<close>

theorem unary_over_websocket:
  assumes "E = unary_env M sl md (ws_call newWebSocket) body"
    and "unary E (Some websocketRequest) df host request arg u = (e, Some c)"
    and "\<forall>a. newWebSocket a = None"
    and "requestHeaders_of M arg = Inr h" "headersToBytes M h = Inr hb" "serializeBinary md request = Inr b"
    and "bodies_in observing body"
    and "concat hs = frame_bytes (0x80, th)" "length th < 2 ^ 32" "parseTrailerData M th = Inr mh"
    and "list_all (\<lambda>d. length d < 2 ^ 32) ds" "length t < 2 ^ 32" "concat bs = response_stream ds t"
    and "list_all2 (\<lambda>d r. deserializeBinary md d = Inr r) ds rs" "parseTrailerData M t = Inr m"
    and "status_of M (md_copy M m) = Some (s, msg)"
  shows "(\<exists>w. ws (transport (ws_handle E Opened c)) = Some w \<and> wire w = [hb, 0 # frame_message b, [1]]) \<and>
    outputs (user (fold (ws_handle E)
        (Opened # map Received (hs @ bs) @ [Closed]) c)) =
      [\<lparr>out_status = s, out_statusMessage = msg, out_headers = md_copy M mh,
        out_message = (if rs = [] then None else Some (last rs)), out_trailers = md_copy M m\<rparr>]"
  using unary_over_ws [OF assms(1-6)] unary_ws_response [OF assms] by blast

theorem unary_over_websocket_witness:
  "\<exists>e c. unary (unary_demo (ws_call (\<lambda>_. None))) (Some websocketRequest) websocketRequest
       (js ''http://h'') [7] None () = (e, Some c) \<and>
     outputs (user (fold (ws_handle (unary_demo (ws_call (\<lambda>_. None))))
       [Opened, Received (frame_bytes (0x80, status_block)), Received (response_stream [[5]] status_block), Closed] c)) =
     [\<lparr>out_status = Num 0, out_statusMessage = [], out_headers = status_md, out_message = Some [5],
       out_trailers = status_md\<rparr>]"
proof -
  let ?E = "unary_demo (ws_call (\<lambda>_. None))"
  let ?u = "unary ?E (Some websocketRequest) websocketRequest (js ''http://h'') [7] None ()"
  have "\<exists>t. websocketRequest (request_url (js ''http://h'') unary_method) = (Inr t :: assoc ws_transport result)"
    by (simp add: websocketRequest_def constructWebSocketAddress_def js_substr_def request_url_def)
  then have "snd ?u \<noteq> None"
    by (auto simp: unary_no_client unary_demo_def createTransport_def)
  then obtain e c where c: "?u = (e, Some c)" by (metis not_None_eq prod.collapse)
  obtain h where h: "requestHeaders_of assoc_metadata None = Inr h"
    "list_all isValidHeaderAscii (header_block assoc_metadata h)"
  proof -
    have "(case requestHeaders_of assoc_metadata None of Inl e \<Rightarrow> False
        | Inr h \<Rightarrow> list_all isValidHeaderAscii (header_block assoc_metadata h))"
      by code_simp
    with that show thesis by (auto split: sum.splits)
  qed
  then obtain hb where hb: "headersToBytes assoc_metadata h = Inr hb"
    by (simp add: headersToBytes_def encodeASCII_def encodeASCII_from_eq)
  from unary_over_websocket [OF unary_demo_def c _ h(1) hb, of "[7]" "[frame_bytes (0x80, status_block)]" status_block status_md "[[5]]" status_block
      "[response_stream [[5]] status_block]" "[[5]]" status_md "Num 0" "[]"] c
  show ?thesis
    by (simp add: status_block_read status_md_status length_status_block del: ws_handle.simps)
qed

text \<open>
  C7. A whole \<^verbatim>\<open>unary\<close> request over \<^verbatim>\<open>XMLHttpRequest\<close>, in either variant: once it is issued
  without an error, the headers, the bytes of the body in any cut and the end of loading lead to
  exactly one output, with the status in the trailers.
\<close>

theorem unary_over_xmlhttprequest:
  assumes "unary (unary_env M sl md (xhr_call B M) body) (Some (XhrTransport V cr)) df host request arg u
      = (None, Some c)"
    and "bodies_in observing body"
    and "md_of_text M block = Inr h"
    and "status \<noteq> 0" "headers_code (getStatusFromHeaders M h) status = code OK"
    and "list_all (\<lambda>d. length d < 2 ^ 32) ds" "length t < 2 ^ 32" "concat bs = response_stream ds t"
    and "list_all2 (\<lambda>d r. deserializeBinary md d = Inr r) ds rs" "parseTrailerData M t = Inr m"
    and "status_of M (md_copy M m) = Some (s, msg)"
  shows "outputs (user (fold (xhr_handle B (unary_env M sl md (xhr_call B M) body))
            (HeadersReceived block status # map Progress bs @ [LoadEnd]) c)) =
     [\<lparr>out_status = s, out_statusMessage = msg, out_headers = h,
       out_message = (if rs = [] then None else Some (last rs)), out_trailers = md_copy M m\<rparr>]"
  by (rule unary_over_xhr [OF assms])

definition xhr_only :: xhr_environment where
  "xhr_only = \<lparr>hasXMLHttpRequest = True, assignType = (\<lambda>_. None), hasOverrideMimeType = True\<rparr>"

theorem unary_over_xmlhttprequest_witness:
  "\<exists>c. unary (unary_demo (xhr_call xhr_demo_browser assoc_metadata)) (Some (XhrTransport xhr_only False))
       (XhrTransport xhr_only False) [] [7] None () = (None, Some c) \<and>
     outputs (user (fold (xhr_handle xhr_demo_browser (unary_demo (xhr_call xhr_demo_browser assoc_metadata)))
       [HeadersReceived [] 200, Progress (response_stream [[5]] status_block), LoadEnd] c)) =
     [\<lparr>out_status = Num 0, out_statusMessage = [], out_headers = [], out_message = Some [5],
       out_trailers = status_md\<rparr>]"
proof -
  let ?E = "unary_demo (xhr_call xhr_demo_browser assoc_metadata)"
  let ?u = "unary ?E (Some (XhrTransport xhr_only False)) (XhrTransport xhr_only False) [] [7] None ()"
  have "fst ?u = None" by code_simp
  moreover have "\<exists>t. XhrTransport xhr_only False (request_url [] unary_method) =
      (Inr t :: assoc xhr_transport result)"
    by (simp add: XhrTransport_def detectXHROverrideMimeTypeSupport_def xhr_only_def)
  then have "snd ?u \<noteq> None"
    by (auto simp: unary_no_client unary_demo_def createTransport_def)
  ultimately obtain c where c: "?u = (None, Some c)" by (metis not_None_eq prod.collapse)
  have "md_of_text assoc_metadata [] = Inr []" by code_simp
  from unary_over_xmlhttprequest [OF c [unfolded unary_demo_def] _ this, of 200 "[[5]]" status_block
      "[response_stream [[5]] status_block]" "[[5]]" status_md "Num 0" "[]"] c
  show ?thesis
    by (simp add: status_ok status_block_read status_md_status length_status_block unary_demo_def)
qed

text \<open>
  C37. A whole \<^verbatim>\<open>unary\<close> request over \<^verbatim>\<open>fetch\<close>: one fetch is made, with the metadata and the
  framed request, and once the response and its reads settle, in any cut of the body, there is
  exactly one output, with the status in the trailers.
\<close>

theorem unary_over_fetch:
  assumes "E = unary_env M sl md fetch_call body"
    and "unary E (Some (fetchRequest hasAbortController)) df host request arg u = (e, Some c)"
    and "requestHeaders_of M arg = Inr rh" "serializeBinary md request = Inr b"
    and "bodies_in observing body" "md_of_arg M a = Inr h"
    and "status \<noteq> 0" "headers_code (getStatusFromHeaders M h) status = code OK"
    and "list_all (\<lambda>d. length d < 2 ^ 32) ds" "length t < 2 ^ 32" "concat vs = response_stream ds t"
    and "list_all2 (\<lambda>d r. deserializeBinary md d = Inr r) ds rs" "parseTrailerData M t = Inr m"
    and "status_of M (md_copy M m) = Some (s, msg)"
  shows "fetches (transport c) = [(rh, frame_message b)] \<and>
    outputs (user (fold (fetch_handle E) (Responded a status True # map ReadChunk vs @ [ReadDone]) c)) =
     [\<lparr>out_status = s, out_statusMessage = msg, out_headers = h,
       out_message = (if rs = [] then None else Some (last rs)), out_trailers = md_copy M m\<rparr>]"
  by (rule unary_fetch [OF assms])

theorem unary_over_fetch_witness:
  "\<exists>e c. unary (unary_demo fetch_call) (Some (fetchRequest True)) (fetchRequest True) [] [7] None () = (e, Some c) \<and>
     outputs (user (fold (fetch_handle (unary_demo fetch_call))
       [Responded [] 200 True, ReadChunk (response_stream [[5]] status_block), ReadDone] c)) =
     [\<lparr>out_status = Num 0, out_statusMessage = [], out_headers = [], out_message = Some [5],
       out_trailers = status_md\<rparr>]"
proof -
  let ?u = "unary (unary_demo fetch_call) (Some (fetchRequest True)) (fetchRequest True) [] [7] None ()"
  have "snd ?u \<noteq> None"
    by (simp add: unary_no_client unary_demo_def createTransport_def fetchRequest_def Let_def)
  then obtain e c where c: "?u = (e, Some c)" by (metis not_None_eq prod.collapse)
  have "requestHeaders_of assoc_metadata None =
      Inr (assoc_set (assoc_set [] (js ''content-type'') (js ''application/grpc-web+proto''))
        (js ''x-grpc-web'') (js ''1''))"
    by (simp add: requestHeaders_of_def)
  from unary_over_fetch [OF unary_demo_def c this, of "[7]" "[]" "[]" 200 "[[5]]" status_block
      "[response_stream [[5]] status_block]" "[[5]]" status_md "Num 0" "[]"] c
  show ?thesis
    by (simp add: status_ok status_block_read status_md_status length_status_block
        del: fetch_handle.simps)
qed

text \<open>
  C21. A whole \<^verbatim>\<open>unary\<close> request of a React Native application, among any other calls, which may
  send, fail, throw or be closed while it runs: once its response has been received and the deferred
  callbacks have run, there is exactly one output, with the status in the trailers, although
  every step was put off and the queue is shared by all calls.
\<close>

theorem unary_over_react_native:
  assumes "Es i = unary_env M sl md (rn_call B M) body"
    and "unary (Es i) (Some (ReactNativeTransport i cr)) df host request arg u = (None, Some c)"
    and "calls w i = c" "app_ids w" "fifo (appQueue w)" "own i (detached (appQueue w)) = []"
    and "own_events i evs = RnHeaders block status # map RnProgress bs @ [RnLoadEnd]"
      "list_all (not_api i) evs" "waiting (appQueue (fold (app_step B Es) evs w)) = []"
    and "bodies_in observing body" "md_of_text M block = Inr h"
    and "status \<noteq> 0" "headers_code (getStatusFromHeaders M h) status = code OK"
    and "list_all (\<lambda>d. length d < 2 ^ 32) ds" "length t < 2 ^ 32" "concat bs = response_stream ds t"
    and "list_all2 (\<lambda>d r. deserializeBinary md d = Inr r) ds rs" "parseTrailerData M t = Inr m"
    and "status_of M (md_copy M m) = Some (s, msg)"
  shows "outputs (user (calls (fold (app_step B Es) evs w) i)) =
     [\<lparr>out_status = s, out_statusMessage = msg, out_headers = h,
       out_message = (if rs = [] then None else Some (last rs)), out_trailers = md_copy M m\<rparr>]"
  by (rule unary_over_rn [OF assms])

definition rn_unary_env ::
  "(assoc, assoc, bytes, bytes, unary_callback, (assoc, bytes, unit) unary_state, assoc rn_transport) env"
where
  "rn_unary_env = unary_demo (rn_call xhr_demo_browser assoc_metadata)"

definition rn_unary_client :: "(assoc, bytes, unary_callback, (assoc, bytes, unit) unary_state, assoc rn_transport) client" where
  "rn_unary_client =
     the (snd (unary rn_unary_env (Some (ReactNativeTransport 0 False)) (ReactNativeTransport 0 False) [] [7] None ()))"

definition rn_unary_app :: "(assoc, bytes, unary_callback, (assoc, bytes, unit) unary_state) rn_app" where
  "rn_unary_app =
     new_app (\<lambda>i. if i = 0 then rn_unary_client
       else new_client (new_rn i ArrayBufferXHR False []) (new_unary_state ()))"

definition rn_unary_events :: "(assoc, bytes, unary_callback) app_event list" where
  "rn_unary_events =
     [AppXhr 0 (RnHeaders [] 200), AppTimer, AppApi 1 Close,
      AppXhr 0 (RnProgress (response_stream [[5]] status_block)), AppXhr 0 RnLoadEnd, AppTimer]"

theorem unary_over_react_native_witness:
  "outputs (user (calls (fold (app_step xhr_demo_browser (\<lambda>_. rn_unary_env)) rn_unary_events rn_unary_app) 0)) =
     [\<lparr>out_status = Num 0, out_statusMessage = [], out_headers = [], out_message = Some [5],
       out_trailers = status_md\<rparr>]"
proof -
  let ?u = "unary rn_unary_env (Some (ReactNativeTransport 0 False)) (ReactNativeTransport 0 False) [] [7] None ()"
  have "fst ?u = None" by code_simp
  moreover have "snd ?u \<noteq> None"
    by (simp add: unary_no_client rn_unary_env_def unary_demo_def createTransport_def ReactNativeTransport_def Let_def)
  ultimately have c: "?u = (None, Some rn_unary_client)"
    by (simp add: rn_unary_client_def prod_eq_iff)
  have "rnId (transport rn_unary_client) = 0" by code_simp
  then have w: "app_ids rn_unary_app" "calls rn_unary_app 0 = rn_unary_client"
    "appQueue rn_unary_app = new_queue"
    by (simp_all add: app_ids_def rn_unary_app_def new_app_def new_client_def new_rn_def)
  have evs: "own_events 0 rn_unary_events =
      RnHeaders [] 200 # map RnProgress [response_stream [[5]] status_block] @ [RnLoadEnd]"
    "list_all (not_api 0) rn_unary_events"
    by (simp_all add: rn_unary_events_def own_events_def)
  have drained: "waiting (appQueue (fold (app_step xhr_demo_browser (\<lambda>_. rn_unary_env)) rn_unary_events rn_unary_app)) = []"
    by code_simp
  have "md_of_text assoc_metadata [] = Inr []" by code_simp
  then show ?thesis
    using unary_over_react_native [of "\<lambda>_. rn_unary_env" 0 assoc_metadata True unary_method xhr_demo_browser
        unary_body False "ReactNativeTransport 0 False" "[]" "[7]" None "()" rn_unary_client rn_unary_app
        rn_unary_events "[]" 200 "[response_stream [[5]] status_block]" "[]" "[[5]]" status_block "[[5]]"
        status_md "Num 0" "[]"] c w evs drained
    by (simp add: status_ok status_block_read status_md_status length_status_block rn_unary_env_def
        unary_demo_def)
qed

text \<open>
  C23. A whole \<^verbatim>\<open>unary\<close> request over Node's \<^verbatim>\<open>http\<close>: the request written is the framed message,
  ended, with its exact length as \<^verbatim>\<open>Content-Length\<close> and the metadata as its headers (unless the
  user's \<^verbatim>\<open>https\<close> options replace them), and a response in any cut leads to exactly one output,
  with the status in the trailers.
\<close>

theorem unary_over_node:
  assumes "E = unary_env M sl md (node_call P M) body"
    and "unary E (Some (NodeHttpTransport md https)) df host request arg u = (e, Some c)"
    and "requestHeaders_of M arg = Inr rh" "serializeBinary md request = Inr q"
      "node_start P M rh (new_NodeHttp md https (request_url host md)) = (None, t1)"
    and "bodies_in observing body" "md_of_arg M (to_arg (filterHeadersForUndefined hdrs)) = Inr h"
    and "status \<noteq> 0" "headers_code (getStatusFromHeaders M h) status = code OK"
    and "list_all (\<lambda>d. length d < 2 ^ 32) ds" "length t < 2 ^ 32" "concat bs = response_stream ds t"
    and "list_all2 (\<lambda>d r. deserializeBinary md d = Inr r) ds rs" "parseTrailerData M t = Inr m"
    and "status_of M (md_copy M m) = Some (s, msg)"
  shows "(\<exists>r. node_request (transport c) = Some r \<and> written r = frame_message q \<and> ended r \<and>
      contentLength r = Some (length q + 5) \<and>
      (optHeaders (options r) = node_headers (md_entries M rh) \<or> secure r \<and> https \<noteq> None)) \<and>
    outputs (user (fold (node_handle to_arg E)
        (Response hdrs status # map ResponseData bs @ [ResponseEnd]) c)) =
     [\<lparr>out_status = s, out_statusMessage = msg, out_headers = h,
       out_message = (if rs = [] then None else Some (last rs)), out_trailers = md_copy M m\<rparr>]"
  by (rule node_unary [where to_arg = to_arg and hdrs = hdrs, OF assms])

definition node_demo_platform :: node_platform where
  "node_demo_platform =
     \<lparr>url_parse = (\<lambda>url. \<lparr>urlProtocol = js ''http:'', urlHostname = js ''h'', urlPort = [], urlPath = url\<rparr>),
      requestError = (\<lambda>_ _. None)\<rparr>"

definition assoc_arg :: "(js_string \<times> header_value) list \<Rightarrow> assoc" where
  "assoc_arg = map (\<lambda>(k, v). (k, case v of Single s \<Rightarrow> [s] | Several ss \<Rightarrow> ss))"

theorem unary_over_node_witness:
  "\<exists>e c. unary (unary_demo (node_call node_demo_platform assoc_metadata)) (Some (NodeHttpTransport unary_method None))
       (NodeHttpTransport unary_method None) [] [7] None () = (e, Some c) \<and>
     outputs (user (fold (node_handle assoc_arg (unary_demo (node_call node_demo_platform assoc_metadata)))
       [Response [] 200, ResponseData (response_stream [[5]] status_block), ResponseEnd] c)) =
     [\<lparr>out_status = Num 0, out_statusMessage = [], out_headers = [], out_message = Some [5],
       out_trailers = status_md\<rparr>]"
proof -
  let ?E = "unary_demo (node_call node_demo_platform assoc_metadata)"
  let ?F = "NodeHttpTransport unary_method None"
  let ?u = "unary ?E (Some ?F) ?F [] [7] None ()"
  have "snd ?u \<noteq> None"
    by (simp add: unary_no_client unary_demo_def createTransport_def NodeHttpTransport_def Let_def)
  then obtain e c where c: "?u = (e, Some c)" by (metis not_None_eq prod.collapse)
  obtain rh where rh: "requestHeaders_of assoc_metadata None = Inr rh"
    by (simp add: requestHeaders_of_def)
  have "\<exists>t1. node_start node_demo_platform assoc_metadata rh (new_NodeHttp unary_method None (request_url [] unary_method)) = (None, t1)"
    by (simp add: node_start_def node_demo_platform_def Let_def)
  then obtain t1 where t1: "node_start node_demo_platform assoc_metadata rh
      (new_NodeHttp unary_method None (request_url [] unary_method)) = (None, t1)" by blast
  have "assoc_arg (filterHeadersForUndefined []) = []"
    by (simp add: assoc_arg_def filterHeadersForUndefined_def)
  with unary_over_node [OF unary_demo_def c rh _ t1, of "[7]" assoc_arg "[]" "[]" 200 "[[5]]" status_block
      "[response_stream [[5]] status_block]" "[[5]]" status_md "Num 0" "[]"] c
  show ?thesis
    by (simp add: status_ok status_block_read status_md_status length_status_block)
qed

text \<open>
  C24. A test with the fake transport sees what its script says: \<^verbatim>\<open>unary\<close> over a builder with stubbed
  headers, messages and trailers reports once, with those headers, the last message and the stubbed
  trailers, to which the status OK has been added; and the listeners hear the request, its headers,
  the framed message and the end of sending, in this order.
\<close>

theorem unary_over_fake:
  assumes "E = unary_env M sl md fake_call body"
    and "unary E (Some (transportConstructor (build b))) df host request arg u = (e, Some c)"
    and "requestHeaders_of M arg = Inr rh" "serializeBinary md request = Inr q"
    and "autoTrigger b" "preHeadersErrorCode b = None" "preMessagesError b = None"
      "preTrailersError b = None" "list_all2 (\<lambda>x d. ser x = Inr d) (stubMessages b) ds"
    and "bodies_in observing body"
      "headers_code (getStatusFromHeaders M (stub_headers M b)) 200 = code OK"
    and "list_all (\<lambda>d. length d < 2 ^ 32) ds"
      "length (trailer_text (md_entries M (stub_trailers M b))) < 2 ^ 32"
    and "list_all2 (\<lambda>d r. deserializeBinary md d = Inr r) ds rs"
    and "list_all isValidHeaderAscii (trailer_text (md_entries M (stub_trailers M b)))"
      "md_of_text M (trailer_text (md_entries M (stub_trailers M b))) = Inr m"
    and "status_of M (md_copy M m) = Some (s, msg)"
  shows "heardLog (transport c) =
      heard_by (requestListener b) (\<lambda>l. RequestHeard l (request_url host md)) @
      heard_by (headersListener b) (\<lambda>l. HeadersHeard l rh) @
      heard_by (messageListener b) (\<lambda>l. MessageHeard l (frame_message q)) @
      heard_by (finishSendListener b) FinishSendHeard \<and>
    fst (fake_after E ser (e, c)) = None \<and>
    outputs (user (snd (fake_after E ser (e, c)))) =
     [\<lparr>out_status = s, out_statusMessage = msg, out_headers = stub_headers M b,
       out_message = (if rs = [] then None else Some (last rs)), out_trailers = md_copy M m\<rparr>]"
  by (rule fake_unary [OF assms])

definition fake_builder :: "(nat, assoc, bytes) builder" where
  "fake_builder =
     withFinishSendListener 1 (withTrailers [(js ''foo'', [js ''bar''])] (withMessages [[5]] new_FakeTransportBuilder))"

definition foo_trailers :: assoc where
  "foo_trailers = [(js ''foo'', [js ''bar'']), (js ''grpc-status'', [js ''0''])]"

theorem unary_over_fake_witness:
  "\<exists>e c. unary (unary_demo fake_call) (Some (transportConstructor (build fake_builder)))
       (transportConstructor (build fake_builder)) [] [7] None () = (e, Some c) \<and>
     heardLog (transport c) = [FinishSendHeard 1] \<and>
     outputs (user (snd (fake_after (unary_demo fake_call) Inr (e, c)))) =
     [\<lparr>out_status = Num 0, out_statusMessage = [], out_headers = [], out_message = Some [5],
       out_trailers = foo_trailers\<rparr>]"
proof -
  let ?F = "transportConstructor (build fake_builder)"
  let ?u = "unary (unary_demo fake_call) (Some ?F) ?F [] [7] None ()"
  have "snd ?u \<noteq> None"
    by (simp add: unary_no_client unary_demo_def createTransport_def transportConstructor_def Let_def)
  then obtain e c where c: "?u = (e, Some c)" by (metis not_None_eq prod.collapse)
  obtain rh where rh: "requestHeaders_of assoc_metadata None = Inr rh"
    by (simp add: requestHeaders_of_def)
  have b: "autoTrigger fake_builder" "preHeadersErrorCode fake_builder = None" "preMessagesError fake_builder = None"
    "preTrailersError fake_builder = None" "stubMessages fake_builder = [[5]]" "stub_headers assoc_metadata fake_builder = []"
    "requestListener fake_builder = None" "headersListener fake_builder = None" "messageListener fake_builder = None"
    "finishSendListener fake_builder = Some 1"
    by (simp_all add: fake_builder_def withFinishSendListener_def withTrailers_def withMessages_def
        new_FakeTransportBuilder_def stub_headers_def)
  have t: "stub_trailers assoc_metadata fake_builder = foo_trailers" by code_simp
  have block: "list_all isValidHeaderAscii (trailer_text foo_trailers)"
    "assoc_of_text (trailer_text foo_trailers) = Inr foo_trailers" "length (trailer_text foo_trailers) = 26"
    by code_simp+
  have st: "status_of assoc_metadata foo_trailers = Some (Num 0, [])" by code_simp
  from unary_over_fake [OF unary_demo_def c rh, of "[7]" Inr "[[5]]" "[[5]]" foo_trailers "Num 0" "[]"]
    b t block st c
  show ?thesis
    by (simp add: status_ok heard_by_def)
qed

end
